(* ===== verification/Prelude.thy ===== *)
theory Prelude
  imports Main "HOL-Library.Word" "HOL-Library.AList" "HOL-Library.Sublist" "HOL-Library.Multiset"
    "HOL-Library.Char_ord" "HOL-Library.List_Lexorder"
begin

text \<open>
  Shared vocabulary of the development: the Go types the components are written over
  (strings, byte slices, maps, times), the standard-library routines several components
  call (\<open>strings.TrimSpace\<close>, \<open>strings.Join\<close>), and generic lemmas on association lists,
  which model Go maps.  A Go map is an association list with distinct keys; the order of
  the list is one possible iteration order, and no theorem assumes a particular one.
\<close>

named_theorems alist_simps \<open>rewrite rules for the association lists that model Go maps\<close>
named_theorems go_defs \<open>unfolding rules of the small accessors of the model\<close>

section \<open>Go types\<close>

type_synonym byte = "8 word"
type_synonym bytes = "byte list"

text \<open>\<open>time.Time\<close> and \<open>time.Duration\<close> are counted in nanoseconds, a time from the Unix epoch.\<close>

type_synonym gotime = int
type_synonym duration = int
type_synonym ('k, 'v) gomap = "('k \<times> 'v) list"

abbreviation nanosecond :: duration where "nanosecond \<equiv> 1"
abbreviation millisecond :: duration where "millisecond \<equiv> 1000000"
abbreviation second :: duration where "second \<equiv> 1000000000"
abbreviation minute :: duration where "minute \<equiv> 60000000000"
abbreviation hour :: duration where "hour \<equiv> 3600000000000"

text \<open>The zero \<open>time.Time\<close> is the first instant of the year 1.\<close>

definition zero_time :: gotime where
  "zero_time = -62135596800000000000"

definition IsZero :: "gotime \<Rightarrow> bool" where
  "IsZero t \<longleftrightarrow> t = zero_time"

section \<open>Go maps\<close>

abbreviation map_put :: "'k \<Rightarrow> 'v \<Rightarrow> ('k, 'v) gomap \<Rightarrow> ('k, 'v) gomap" where
  "map_put \<equiv> AList.update"

abbreviation map_delete :: "'k \<Rightarrow> ('k, 'v) gomap \<Rightarrow> ('k, 'v) gomap" where
  "map_delete \<equiv> AList.delete"

definition wf_map :: "('k, 'v) gomap \<Rightarrow> bool" where
  "wf_map m \<longleftrightarrow> distinct (map fst m)"

text \<open>An index expression \<open>m[k]\<close> on a map with string values gives the empty string for a missing key.\<close>

definition get_string :: "('k, string) gomap \<Rightarrow> 'k \<Rightarrow> string" where
  "get_string m k = (case map_of m k of None \<Rightarrow> [] | Some v \<Rightarrow> v)"

text \<open>Looping over a map and deleting during the loop is one pass over the entries.\<close>

definition map_keep :: "('k \<times> 'v \<Rightarrow> bool) \<Rightarrow> ('k, 'v) gomap \<Rightarrow> ('k, 'v) gomap" where
  "map_keep P m = filter P m"

lemma wf_map_Nil [simp]: "wf_map []"
  by (simp add: wf_map_def)

lemma wf_map_Cons [simp]: "wf_map ((k, v) # m) \<longleftrightarrow> k \<notin> fst ` set m \<and> wf_map m"
  by (auto simp: wf_map_def)

lemma wf_map_put [simp, intro]: "wf_map m \<Longrightarrow> wf_map (map_put k v m)"
  by (simp add: wf_map_def distinct_update)

lemma wf_map_delete [simp, intro]: "wf_map m \<Longrightarrow> wf_map (map_delete k m)"
  by (simp add: wf_map_def distinct_delete)

lemma wf_map_filter [simp, intro]: "wf_map m \<Longrightarrow> wf_map (filter P m)"
  by (induction m) (auto simp: wf_map_def)

lemma wf_map_mset: "mset m = mset m' \<Longrightarrow> wf_map m \<Longrightarrow> wf_map m'"
  by (metis wf_map_def mset_eq_imp_distinct_iff mset_map)

lemma map_of_put [simp, alist_simps]: "map_of (map_put k v m) k' = (if k' = k then Some v else map_of m k')"
  by (simp add: update_conv')

lemma map_of_delete [simp, alist_simps]: "map_of (map_delete k m) k' = (if k' = k then None else map_of m k')"
  by (simp add: delete_conv')

lemma map_of_None_keys: "map_of m k = None \<longleftrightarrow> k \<notin> fst ` set m"
  by (simp add: map_of_eq_None_iff)

lemma map_of_filter_key:
  "wf_map m \<Longrightarrow> map_of (filter P m) k =
     (case map_of m k of None \<Rightarrow> None | Some v \<Rightarrow> if P (k, v) then Some v else None)"
proof (induction m)
  case (Cons kv m)
  obtain k' v' where "kv = (k', v')" by force
  with Cons show ?case
    by (cases "map_of m k") (force simp: map_of_None_keys wf_map_def split: option.splits dest: map_of_SomeD)+
qed simp

lemma map_of_mset:
  assumes "mset m = mset m'" "wf_map m"
  shows "map_of m = map_of m'"
  using assms by (metis map_of_inject_set mset_eq_setD wf_map_def wf_map_mset)

lemma map_of_in: "wf_map m \<Longrightarrow> (k, v) \<in> set m \<longleftrightarrow> map_of m k = Some v"
  by (simp add: wf_map_def)

lemma in_set_put:
  "wf_map m \<Longrightarrow> (k', v') \<in> set (map_put k v m) \<longleftrightarrow> (if k' = k then v' = v else (k', v') \<in> set m)"
  by (auto simp: map_of_in)

lemma in_set_delete:
  "wf_map m \<Longrightarrow> (k', v') \<in> set (map_delete k m) \<longleftrightarrow> k' \<noteq> k \<and> (k', v') \<in> set m"
  by (simp add: map_of_in)

lemma length_put:
  "length (map_put k v m) = (if map_of m k = None then Suc (length m) else length m)"
  by (induction m) auto

lemma map_delete_absent [simp]: "map_of m k = None \<Longrightarrow> map_delete k m = m"
  by (auto simp: map_of_eq_None_iff delete_id)

lemma length_delete:
  "wf_map m \<Longrightarrow> length (map_delete k m) = (if map_of m k = None then length m else length m - 1)"
proof (induction m)
  case (Cons kv m)
  obtain k' v' where kv: "kv = (k', v')" by force
  show ?case
  proof (cases "k' = k")
    case True
    then have "map_of m k = None" using Cons.prems kv by (auto simp: map_of_None_keys)
    with True kv show ?thesis by simp
  next
    case False
    with Cons kv show ?thesis
      by (cases m) (auto simp: map_of_None_keys)
  qed
qed simp

text \<open>Writing the value that is there already, or undoing a fresh insertion, gives the same list back.\<close>

lemma map_put_same [simp]: "map_of m k = Some v \<Longrightarrow> map_put k v m = m"
  by (induction m) (auto split: if_splits)

lemma map_put_put [simp]: "map_put k v (map_put k w m) = map_put k v m"
  by (induction m) auto

lemma map_delete_put [simp]: "map_of m k = None \<Longrightarrow> map_delete k (map_put k v m) = m"
  by (induction m) (auto split: if_splits simp: map_of_None_keys)

subsection \<open>The values of a map as a multiset\<close>

text \<open>\<open>collect f m\<close> is the multiset of the values \<open>f\<close> selects from the entries of \<open>m\<close>.\<close>

definition opt_mset :: "'a option \<Rightarrow> 'a multiset" where
  "opt_mset x = (case x of None \<Rightarrow> {#} | Some a \<Rightarrow> {#a#})"

lemma opt_mset_simps [simp]: "opt_mset None = {#}" "opt_mset (Some a) = {#a#}"
  by (simp_all add: opt_mset_def)

fun collect :: "('v \<Rightarrow> 'c option) \<Rightarrow> ('k, 'v) gomap \<Rightarrow> 'c multiset" where
  "collect f [] = {#}"
| "collect f ((k, v) # m) = opt_mset (f v) + collect f m"

lemma collect_Cons: "collect f (kv # m) = opt_mset (f (snd kv)) + collect f m"
  by (cases kv) simp

lemma collect_sum: "collect f m = (\<Sum>kv\<in>#mset m. opt_mset (f (snd kv)))"
  by (induction m) (auto simp: collect_Cons)

lemma collect_mset: "mset m = mset m' \<Longrightarrow> collect f m = collect f m'"
  by (simp add: collect_sum)

lemma collect_split:
  "wf_map m \<Longrightarrow> map_of m k = Some v \<Longrightarrow> collect f m = opt_mset (f v) + collect f (map_delete k m)"
proof (induction m)
  case (Cons kv m)
  obtain k' v' where kv: "kv = (k', v')" by force
  show ?case
  proof (cases "k' = k")
    case True
    then have "map_of m k = None" using Cons.prems kv by (auto simp: map_of_None_keys)
    with True kv Cons.prems show ?thesis by simp
  qed (use Cons kv in auto)
qed simp

lemma collect_put_new: "map_of m k = None \<Longrightarrow> collect f (map_put k v m) = opt_mset (f v) + collect f m"
  by (induction m) (auto split: if_splits)

lemma collect_put:
  "wf_map m \<Longrightarrow> collect f (map_put k v m) = opt_mset (f v) + collect f (map_delete k m)"
proof (induction m)
  case (Cons kv m)
  obtain k' v' where kv: "kv = (k', v')" by force
  show ?case
  proof (cases "k' = k")
    case True
    then have "map_of m k = None" using Cons.prems kv by (auto simp: map_of_None_keys)
    with True kv Cons.prems show ?thesis by simp
  qed (use Cons kv in auto)
qed simp

lemma collect_in: "map_of m k = Some v \<Longrightarrow> f v = Some c \<Longrightarrow> c \<in># collect f m"
  by (induction m) (auto split: if_splits)

lemma collect_cong: "(\<And>k v. (k, v) \<in> set m \<Longrightarrow> f v = g v) \<Longrightarrow> collect f m = collect g m"
proof (induction m)
  case (Cons kv m)
  have "collect f m = collect g m" by (rule Cons.IH) (use Cons.prems in auto)
  with Cons.prems[of "fst kv" "snd kv"] show ?case by (simp add: collect_Cons)
qed simp

section \<open>Strings\<close>

text \<open>
  A Go \<open>string\<close> is the list of its bytes.  \<open>white_space\<close> lists the UTF-8 encodings of the
  code points with property White\_Space, which \<open>unicode.IsSpace\<close> accepts.
\<close>

definition white_space :: "string list" where
  "white_space =
     [[CHR 0x09], [CHR 0x0A], [CHR 0x0B], [CHR 0x0C], [CHR 0x0D], [CHR 0x20],
      [CHR 0xC2, CHR 0x85], [CHR 0xC2, CHR 0xA0], [CHR 0xE1, CHR 0x9A, CHR 0x80],
      [CHR 0xE2, CHR 0x80, CHR 0x80], [CHR 0xE2, CHR 0x80, CHR 0x81], [CHR 0xE2, CHR 0x80, CHR 0x82],
      [CHR 0xE2, CHR 0x80, CHR 0x83], [CHR 0xE2, CHR 0x80, CHR 0x84], [CHR 0xE2, CHR 0x80, CHR 0x85],
      [CHR 0xE2, CHR 0x80, CHR 0x86], [CHR 0xE2, CHR 0x80, CHR 0x87], [CHR 0xE2, CHR 0x80, CHR 0x88],
      [CHR 0xE2, CHR 0x80, CHR 0x89], [CHR 0xE2, CHR 0x80, CHR 0x8A], [CHR 0xE2, CHR 0x80, CHR 0xA8],
      [CHR 0xE2, CHR 0x80, CHR 0xA9], [CHR 0xE2, CHR 0x80, CHR 0xAF], [CHR 0xE2, CHR 0x81, CHR 0x9F],
      [CHR 0xE3, CHR 0x80, CHR 0x80]]"

fun strip_one :: "string list \<Rightarrow> string \<Rightarrow> string option" where
  "strip_one [] s = None"
| "strip_one (p # ps) s =
     (if p \<noteq> [] \<and> take (length p) s = p then Some (drop (length p) s) else strip_one ps s)"

lemma strip_one_shorter: "strip_one ps s = Some r \<Longrightarrow> length r < length s"
proof (induction ps)
  case (Cons p ps)
  then show ?case
    by (cases p; cases s) (auto split: if_splits simp: less_Suc_eq_le)
qed simp

function trim_prefixes :: "string list \<Rightarrow> string \<Rightarrow> string" where
  "trim_prefixes ps s = (case strip_one ps s of None \<Rightarrow> s | Some r \<Rightarrow> trim_prefixes ps r)"
  by pat_completeness auto
termination by (relation "measure (\<lambda>(ps, s). length s)") (auto dest: strip_one_shorter)

declare trim_prefixes.simps [simp del]

definition trim_left :: "string \<Rightarrow> string" where
  "trim_left s = trim_prefixes white_space s"

definition trim_right :: "string \<Rightarrow> string" where
  "trim_right s = rev (trim_prefixes (map rev white_space) (rev s))"

text \<open>\<open>strings.TrimSpace\<close>.\<close>

definition TrimSpace :: "string \<Rightarrow> string" where
  "TrimSpace s = trim_right (trim_left s)"

abbreviation blank :: "string \<Rightarrow> bool" where
  "blank s \<equiv> TrimSpace s = []"

lemma trim_prefixes_Nil [simp]: "trim_prefixes ps [] = []"
  by (subst trim_prefixes.simps) (auto split: option.split dest: strip_one_shorter)

lemma blank_Nil [simp]: "blank []"
  by (simp add: TrimSpace_def trim_left_def trim_right_def)

text \<open>\<open>strings.Join\<close>.\<close>

fun join :: "string \<Rightarrow> string list \<Rightarrow> string" where
  "join sep [] = []"
| "join sep [x] = x"
| "join sep (x # y # xs) = x @ sep @ join sep (y # xs)"

section \<open>Options as error results\<close>

text \<open>
  A Go function whose only result is an \<open>error\<close> gives \<open>None\<close> for nil; the statement
  \<open>if err := f(); err != nil { return err }\<close> is \<open>and_then\<close>.
\<close>

definition and_then :: "'e option \<Rightarrow> 'e option \<Rightarrow> 'e option" where
  "and_then e rest = (case e of None \<Rightarrow> rest | Some x \<Rightarrow> Some x)"

lemma and_then_None [simp]: "and_then e rest = None \<longleftrightarrow> e = None \<and> rest = None"
  by (simp add: and_then_def split: option.split)

lemma and_then_first [simp]: "and_then None rest = rest" "and_then (Some x) rest = Some x"
  by (simp_all add: and_then_def)

text \<open>The first error of a loop that validates each element.\<close>

fun first_error :: "('a \<Rightarrow> 'e option) \<Rightarrow> 'a list \<Rightarrow> 'e option" where
  "first_error f [] = None"
| "first_error f (x # xs) = and_then (f x) (first_error f xs)"

lemma first_error_None [simp]: "first_error f xs = None \<longleftrightarrow> (\<forall>x\<in>set xs. f x = None)"
  by (induction xs) auto

end
