(* ===== verification/Wire.thy ===== *)
theory Wire
  imports Prelude
begin

text \<open>
  The wire messages of \<open>api/proto/r1s/v1/control.proto\<close> as the generated Go structs of
  \<open>api/gen/r1s/v1/control.pb.go\<close> declare them.  A message pointer is an option (\<open>None\<close> is
  nil), a repeated field a list, a map field a \<open>gomap\<close>.  The generated getters of a nil
  receiver return the zero value; the model takes the option apart where the code calls them.
  Timestamps and durations are the well-known types of the protobuf library; their methods
  and the library's message equality are a parameter of the model, the record \<open>pblib\<close>.
\<close>

section \<open>Well-known types\<close>

record timestamp =
  ts_seconds :: int
  ts_nanos :: int

record pb_duration =
  pd_seconds :: int
  pd_nanos :: int

section \<open>Enumerations\<close>

text \<open>Proto3 enumerations are open: a received value may be outside the declared ones.\<close>

datatype ExecutionPhase =
    EXECUTION_PHASE_UNSPECIFIED
  | EXECUTION_PHASE_STARTING
  | EXECUTION_PHASE_RUNNING
  | EXECUTION_PHASE_CANCELLING
  | EXECUTION_PHASE_CANCELLED
  | EXECUTION_PHASE_COMPLETED
  | EXECUTION_PHASE_FAILED
  | EXECUTION_PHASE_UNKNOWN int

text \<open>The code compares release outcomes by their number, so the numbers are kept.\<close>

type_synonym OfferReleaseOutcome = int

definition OFFER_RELEASE_OUTCOME_UNSPECIFIED :: OfferReleaseOutcome where
  "OFFER_RELEASE_OUTCOME_UNSPECIFIED = 0"
definition OFFER_RELEASE_OUTCOME_RELEASED :: OfferReleaseOutcome where
  "OFFER_RELEASE_OUTCOME_RELEASED = 1"
definition OFFER_RELEASE_OUTCOME_EXPIRED :: OfferReleaseOutcome where
  "OFFER_RELEASE_OUTCOME_EXPIRED = 2"
definition OFFER_RELEASE_OUTCOME_ASSIGNED :: OfferReleaseOutcome where
  "OFFER_RELEASE_OUTCOME_ASSIGNED = 3"

lemmas outcome_defs = OFFER_RELEASE_OUTCOME_UNSPECIFIED_def OFFER_RELEASE_OUTCOME_RELEASED_def
  OFFER_RELEASE_OUTCOME_EXPIRED_def OFFER_RELEASE_OUTCOME_ASSIGNED_def

section \<open>Messages\<close>

record Workload =
  wl_image :: string
  wl_command :: "string list"
  wl_args :: "string list"
  wl_environment :: "(string, string) gomap"
  wl_working_directory :: string

datatype ExecutionPolicy = ExecutionPolicy

record NodeCapabilities =
  nc_os :: string
  nc_arch :: string
  nc_runtime :: string
  nc_resource_profiles :: "string list"
  nc_devices :: "string list"
  nc_labels :: "(string, string) gomap"
  nc_cached_images :: "string list"

record PlacementConstraints =
  pc_os :: string
  pc_arch :: string
  pc_runtime :: string
  pc_labels :: "(string, string) gomap"
  pc_devices :: "string list"

record ExecutionRequest =
  rq_request_id :: string
  rq_workload :: "Workload option"
  rq_policy :: "ExecutionPolicy option"
  rq_resource_class :: string
  rq_constraints :: "PlacementConstraints option"
  rq_run_id :: string
  rq_attempt :: "64 word"

record ExecutionOffer =
  of_offer_id :: string
  of_request_id :: string
  of_resource_class :: string
  of_expires_at :: "timestamp option"
  of_node :: "NodeCapabilities option"

record ExecutionAssign =
  as_request_id :: string
  as_offer_id :: string
  as_execution_id :: string

record ExecutionOfferRelease =
  rl_request_id :: string
  rl_offer_id :: string

record ExecutionOfferReleaseAck =
  ra_request_id :: string
  ra_offer_id :: string
  ra_outcome :: OfferReleaseOutcome

record ExecutionCancel =
  ca_execution_id :: string
  ca_reason :: string

record ExecutionInspect =
  in_execution_id :: string

record ExecutionState =
  st_execution_id :: string
  st_phase :: ExecutionPhase
  st_occurred_at :: "timestamp option"
  st_detail :: string
  st_exit_code :: "int option"
  st_revision :: "64 word"

record CommandError =
  ce_code :: string
  ce_detail :: string
  ce_retryable :: bool

record ExecutionLogsRequest =
  lq_execution_id :: string
  lq_stream :: string
  lq_offset :: "64 word"
  lq_max_bytes :: "32 word"

record ExecutionLogsResponse =
  lr_execution_id :: string
  lr_stream :: string
  lr_offset :: "64 word"
  lr_data :: bytes
  lr_next_offset :: "64 word"
  lr_eof :: bool
  lr_truncated :: bool
  lr_sha256 :: bytes

record ExecutionLeaseRenew =
  rn_execution_id :: string
  rn_lease_duration :: "pb_duration option"

record ExecutionLeaseRenewAck =
  na_execution_id :: string
  na_expires_at :: "timestamp option"

record TunnelTarget =
  tt_port :: "32 word"

record ExecutionTunnelOpen =
  to_execution_id :: string
  to_ygg_peer_pubkey :: bytes
  to_targets :: "TunnelTarget list"

record ExecutionTunnelOpenAck =
  ta_execution_id :: string
  ta_allocator_endpoint :: bytes
  ta_allocator_endpoint_pubkey :: bytes
  ta_targets :: "TunnelTarget list"

text \<open>The oneof of the envelope; each wrapper struct holds a message pointer, which may be nil.\<close>

datatype Envelope_Payload =
    Envelope_ExecutionRequest "ExecutionRequest option"
  | Envelope_ExecutionOffer "ExecutionOffer option"
  | Envelope_ExecutionAssign "ExecutionAssign option"
  | Envelope_ExecutionCancel "ExecutionCancel option"
  | Envelope_ExecutionState "ExecutionState option"
  | Envelope_ExecutionInspect "ExecutionInspect option"
  | Envelope_ExecutionOfferRelease "ExecutionOfferRelease option"
  | Envelope_ExecutionOfferReleaseAck "ExecutionOfferReleaseAck option"
  | Envelope_CommandError "CommandError option"
  | Envelope_ExecutionLogsRequest "ExecutionLogsRequest option"
  | Envelope_ExecutionLogsResponse "ExecutionLogsResponse option"
  | Envelope_ExecutionLeaseRenew "ExecutionLeaseRenew option"
  | Envelope_ExecutionLeaseRenewAck "ExecutionLeaseRenewAck option"
  | Envelope_ExecutionTunnelOpen "ExecutionTunnelOpen option"
  | Envelope_ExecutionTunnelOpenAck "ExecutionTunnelOpenAck option"

record Envelope =
  message_id :: string
  sender :: bytes
  correlation_id :: string
  sent_at :: "timestamp option"
  payload :: "Envelope_Payload option"

section \<open>The protobuf library\<close>

record pblib =
  ts_CheckValid :: "timestamp \<Rightarrow> string option"
  ts_AsTime :: "timestamp \<Rightarrow> gotime"
  ts_New :: "gotime \<Rightarrow> timestamp"
  pd_CheckValid :: "pb_duration \<Rightarrow> string option"
  pd_AsDuration :: "pb_duration \<Rightarrow> duration"
  pd_New :: "duration \<Rightarrow> pb_duration"
  Equal_envelope :: "Envelope \<Rightarrow> Envelope \<Rightarrow> bool"
  Equal_request :: "ExecutionRequest \<Rightarrow> ExecutionRequest \<Rightarrow> bool"
  Equal_offer :: "ExecutionOffer \<Rightarrow> ExecutionOffer \<Rightarrow> bool"
  Equal_state :: "ExecutionState \<Rightarrow> ExecutionState \<Rightarrow> bool"

text \<open>
  Documented behaviour: converting a Go time to a timestamp and back loses nothing, and
  \<open>proto.Equal\<close> holds of a message and itself.  \<open>proto.Clone\<close> is the identity on values.
\<close>

definition pb_laws :: "pblib \<Rightarrow> bool" where
  "pb_laws W \<longleftrightarrow> (\<forall>t. ts_AsTime W (ts_New W t) = t) \<and> (\<forall>e. Equal_envelope W e e) \<and> (\<forall>r. Equal_request W r r)"

text \<open>
  An instance that follows the protobuf documentation, used by witnesses: valid timestamps lie
  in the years 1 to 9999 and valid durations within 10000 years, both with nanoseconds below one second.
\<close>

definition pb_doc :: pblib where
  "pb_doc = \<lparr>
     ts_CheckValid = (\<lambda>t. if ts_seconds t < -62135596800 then Some ''before 0001-01-01''
        else if ts_seconds t > 253402300799 then Some ''after 9999-12-31''
        else if ts_nanos t < 0 \<or> ts_nanos t \<ge> 1000000000 then Some ''has out-of-range nanos'' else None),
     ts_AsTime = (\<lambda>t. ts_seconds t * 1000000000 + ts_nanos t),
     ts_New = (\<lambda>t. \<lparr>ts_seconds = t div 1000000000, ts_nanos = t mod 1000000000\<rparr>),
     pd_CheckValid = (\<lambda>d. if abs (pd_seconds d) > 315576000000 then Some ''exceeds 10000 years''
        else if abs (pd_nanos d) \<ge> 1000000000 then Some ''has out-of-range nanos''
        else if pd_seconds d > 0 \<and> pd_nanos d < 0 \<or> pd_seconds d < 0 \<and> pd_nanos d > 0
        then Some ''has seconds and nanos with different signs'' else None),
     pd_AsDuration = (\<lambda>d. max (-9223372036854775808) (min 9223372036854775807
        (pd_seconds d * 1000000000 + pd_nanos d))),
     pd_New = (\<lambda>d. \<lparr>pd_seconds = sgn d * (\<bar>d\<bar> div 1000000000), pd_nanos = sgn d * (\<bar>d\<bar> mod 1000000000)\<rparr>),
     Equal_envelope = (=), Equal_request = (=), Equal_offer = (=), Equal_state = (=)\<rparr>"

lemma pb_doc_laws: "pb_laws pb_doc"
  by (simp add: pb_laws_def pb_doc_def)

text \<open>
  Further documented behaviour, which the client relies on: \<open>proto.Equal\<close> on offers is reflexive and on
  states, which have no map field, it is equality; a timestamp made from a time of the years 1 to 9999 and a
  duration made from a \<open>time.Duration\<close>, which has 64 bits, are valid, and the duration keeps its value.
\<close>

definition pb_equal_laws :: "pblib \<Rightarrow> bool" where
  "pb_equal_laws W \<longleftrightarrow> (\<forall>v. Equal_offer W v v) \<and> (\<forall>s t. Equal_state W s t \<longleftrightarrow> s = t)"

definition pb_time_laws :: "pblib \<Rightarrow> bool" where
  "pb_time_laws W \<longleftrightarrow>
     (\<forall>t. zero_time \<le> t \<and> t < 253402300800000000000 \<longrightarrow> ts_CheckValid W (ts_New W t) = None)
     \<and> (\<forall>d. -9223372036854775808 \<le> d \<and> d \<le> 9223372036854775807
          \<longrightarrow> pd_CheckValid W (pd_New W d) = None \<and> pd_AsDuration W (pd_New W d) = d)"

lemma pb_doc_equal_laws: "pb_equal_laws pb_doc"
  by (simp add: pb_equal_laws_def pb_doc_def)

lemma pb_doc_timestamp:
  assumes "zero_time \<le> t" "t < 253402300800000000000"
  shows "ts_CheckValid pb_doc (ts_New pb_doc t) = None"
proof -
  have "t div 1000000000 \<ge> -62135596800" "t div 1000000000 \<le> 253402300799"
    using assms by (simp_all add: zero_time_def)
  then show ?thesis by (simp add: pb_doc_def not_less)
qed

lemma pb_doc_duration_parts:
  fixes d q r :: int
  assumes "\<bar>d\<bar> = q * 1000000000 + r" "0 \<le> q" "0 \<le> r" "r < 1000000000"
  shows "sgn d * q * 1000000000 + sgn d * r = d" "\<bar>sgn d * r\<bar> < 1000000000" "\<bar>sgn d * q\<bar> \<le> q"
    "\<not> (0 < sgn d * q \<and> sgn d * r < 0)" "\<not> (sgn d * q < 0 \<and> 0 < sgn d * r)"
  using assms by (cases d "0 :: int" rule: linorder_cases; simp)+

lemma pb_doc_duration:
  assumes "-9223372036854775808 \<le> d" "d \<le> 9223372036854775807"
  shows "pd_CheckValid pb_doc (pd_New pb_doc d) = None \<and> pd_AsDuration pb_doc (pd_New pb_doc d) = d"
proof -
  define q r where "q = \<bar>d\<bar> div 1000000000" and "r = \<bar>d\<bar> mod 1000000000"
  have parts: "\<bar>d\<bar> = q * 1000000000 + r" "0 \<le> q" "0 \<le> r" "r < 1000000000"
    by (simp_all add: q_def r_def)
  then have "q \<le> 315576000000" using assms by linarith
  with pb_doc_duration_parts [OF parts] assms show ?thesis
    unfolding pb_doc_def q_def [symmetric] r_def [symmetric] pblib.simps pb_duration.simps by auto
qed

lemma pb_doc_time_laws: "pb_time_laws pb_doc"
  using pb_doc_timestamp pb_doc_duration by (simp add: pb_time_laws_def)

text \<open>\<open>AsTime\<close> of a nil timestamp is the Unix epoch: the getters of a nil receiver give zero fields.\<close>

definition AsTime :: "pblib \<Rightarrow> timestamp option \<Rightarrow> gotime" where
  "AsTime W t = (case t of None \<Rightarrow> ts_AsTime W \<lparr>ts_seconds = 0, ts_nanos = 0\<rparr> | Some v \<Rightarrow> ts_AsTime W v)"

end
