(* ===== verification/Placement.thy ===== *)
theory Placement
  imports Wire
begin

text \<open>
  Node capabilities and placement constraints: \<open>internal/protocol/placement.go\<close>.  The two
  validators bound the metadata, \<open>PlacementMatches\<close> is the admission predicate of the
  allocator, \<open>PlacementCompatible\<close> its advisory companion in the client.  Where the code
  ranges over a map literal of the three identity fields, the model checks them in the order
  of the literal: the order decides only which of several bad fields the error names.
\<close>

section \<open>Validation errors\<close>

text \<open>Every validation error wraps \<open>ErrInvalidEnvelope\<close>; the target list reports the index of the bad target.\<close>

datatype ValidationError =
    ValidationError string string
  | TunnelTargetError "nat option" string

definition invalid :: "string \<Rightarrow> string \<Rightarrow> ValidationError option" where
  "invalid field problem = Some (ValidationError field problem)"

lemma invalid_not_None [simp]: "invalid f p \<noteq> None"
  by (simp add: invalid_def)

section \<open>Bounds\<close>

definition MaxCapabilityKeyLen :: nat where "MaxCapabilityKeyLen = 64"
definition MaxCapabilityValueLen :: nat where "MaxCapabilityValueLen = 128"
definition MaxCapabilityLabels :: nat where "MaxCapabilityLabels = 8"
definition MaxCapabilityDevices :: nat where "MaxCapabilityDevices = 8"
definition MaxCapabilityProfiles :: nat where "MaxCapabilityProfiles = 16"
definition MaxCapabilityCache :: nat where "MaxCapabilityCache = 16"
definition MaxCapabilityCacheImage :: nat where "MaxCapabilityCacheImage = 256"

lemmas capability_bounds = MaxCapabilityKeyLen_def MaxCapabilityValueLen_def MaxCapabilityLabels_def
  MaxCapabilityDevices_def MaxCapabilityProfiles_def MaxCapabilityCache_def MaxCapabilityCacheImage_def

text \<open>The two regular expressions, an initial class followed by repetitions of a second one.\<close>

definition lower_alnum :: "char \<Rightarrow> bool" where
  "lower_alnum c \<longleftrightarrow> c \<in> set ''abcdefghijklmnopqrstuvwxyz0123456789''"

fun capabilityKey :: "string \<Rightarrow> bool" where
  "capabilityKey [] = False"
| "capabilityKey (c # cs) = (lower_alnum c \<and> list_all (\<lambda>d. lower_alnum d \<or> d \<in> set ''._/-'') cs)"

fun capabilityValue :: "string \<Rightarrow> bool" where
  "capabilityValue [] = False"
| "capabilityValue (c # cs) = (lower_alnum c \<and> list_all (\<lambda>d. lower_alnum d \<or> d \<in> set ''._/:+-'') cs)"

section \<open>Validation\<close>

definition check_identity :: "string \<Rightarrow> string \<Rightarrow> ValidationError option" where
  "check_identity field val =
     (if val = [] then None
      else if length val > MaxCapabilityValueLen \<or> \<not> capabilityValue val
      then invalid field ''must be lowercase ASCII and bounded'' else None)"

definition check_name :: "string \<Rightarrow> string \<Rightarrow> string \<Rightarrow> ValidationError option" where
  "check_name field problem val =
     (if length val = 0 \<or> length val > MaxCapabilityValueLen \<or> \<not> capabilityValue val
      then invalid field problem else None)"

definition check_label :: "string \<Rightarrow> string \<times> string \<Rightarrow> ValidationError option" where
  "check_label field kv =
     (case kv of (key, val) \<Rightarrow>
        if length key = 0 \<or> length key > MaxCapabilityKeyLen \<or> \<not> capabilityKey key
        then invalid field ''each label key must be lowercase ASCII and bounded''
        else if length val > MaxCapabilityValueLen \<or> \<not> capabilityValue val
        then invalid field ''each label value must be bounded'' else None)"

definition ValidateCapabilities :: "NodeCapabilities option \<Rightarrow> ValidationError option" where
  "ValidateCapabilities n = (case n of None \<Rightarrow> None | Some node \<Rightarrow>
     and_then (check_identity ''node_capabilities.os'' (nc_os node))
    (and_then (check_identity ''node_capabilities.arch'' (nc_arch node))
    (and_then (check_identity ''node_capabilities.runtime'' (nc_runtime node))
    (if length (nc_cached_images node) > MaxCapabilityCache
     then invalid ''node_capabilities.cached_images'' ''too many entries'' else
     and_then (first_error (\<lambda>image. if length image = 0 \<or> length image > MaxCapabilityCacheImage
        then invalid ''node_capabilities.cached_images'' ''entry must be a bounded image reference'' else None)
        (nc_cached_images node))
    (if length (nc_devices node) > MaxCapabilityDevices
     then invalid ''node_capabilities.devices'' ''too many devices'' else
     and_then (first_error (check_name ''node_capabilities.devices'' ''each device must be a lowercase ASCII name'')
        (nc_devices node))
    (if length (nc_resource_profiles node) > MaxCapabilityProfiles
     then invalid ''node_capabilities.resource_profiles'' ''too many profiles'' else
     and_then (first_error (check_name ''node_capabilities.resource_profiles'' ''each profile must be a bounded lowercase name'')
        (nc_resource_profiles node))
    (if length (nc_labels node) > MaxCapabilityLabels
     then invalid ''node_capabilities.labels'' ''too many labels'' else
     first_error (check_label ''node_capabilities.labels'') (nc_labels node))))))))"

definition ValidateConstraints :: "PlacementConstraints option \<Rightarrow> ValidationError option" where
  "ValidateConstraints c = (case c of None \<Rightarrow> None | Some constraints \<Rightarrow>
     and_then (check_identity ''placement_constraints.os'' (pc_os constraints))
    (and_then (check_identity ''placement_constraints.arch'' (pc_arch constraints))
    (and_then (check_identity ''placement_constraints.runtime'' (pc_runtime constraints))
    (if length (pc_devices constraints) > MaxCapabilityDevices
     then invalid ''placement_constraints.devices'' ''too many devices'' else
     and_then (first_error (check_name ''placement_constraints.devices'' ''each device must be a lowercase ASCII name'')
        (pc_devices constraints))
    (if length (pc_labels constraints) > MaxCapabilityLabels
     then invalid ''placement_constraints.labels'' ''too many labels'' else
     first_error (check_label ''placement_constraints.labels'') (pc_labels constraints))))))"

section \<open>Matching\<close>

definition contains :: "string list \<Rightarrow> string \<Rightarrow> bool" where
  "contains vals target = list_ex (\<lambda>v. v = target) vals"

definition PlacementMatches :: "PlacementConstraints option \<Rightarrow> NodeCapabilities option \<Rightarrow> bool" where
  "PlacementMatches c n = (case c of None \<Rightarrow> True | Some constraints \<Rightarrow>
     (case n of None \<Rightarrow> False | Some node \<Rightarrow>
        if pc_os constraints \<noteq> [] \<and> pc_os constraints \<noteq> nc_os node then False
        else if pc_arch constraints \<noteq> [] \<and> pc_arch constraints \<noteq> nc_arch node then False
        else if pc_runtime constraints \<noteq> [] \<and> pc_runtime constraints \<noteq> nc_runtime node then False
        else list_all (\<lambda>(key, val). get_string (nc_labels node) key = val) (pc_labels constraints)
           \<and> list_all (contains (nc_devices node)) (pc_devices constraints)))"

definition PlacementCompatible :: "PlacementConstraints option \<Rightarrow> NodeCapabilities option \<Rightarrow> bool" where
  "PlacementCompatible c n = (case c of None \<Rightarrow> True | Some constraints \<Rightarrow>
     if length (pc_os constraints) + length (pc_arch constraints) + length (pc_runtime constraints)
        + length (pc_labels constraints) + length (pc_devices constraints) = 0 then True
     else (case n of None \<Rightarrow> True | Some _ \<Rightarrow> PlacementMatches c n))"

definition PlacementConflictDetails :: "PlacementConstraints option \<Rightarrow> NodeCapabilities option \<Rightarrow> string" where
  "PlacementConflictDetails c n =
     (case (c, n) of (Some constraints, Some node) \<Rightarrow>
        let missing =
          (if pc_os constraints \<noteq> [] \<and> pc_os constraints \<noteq> nc_os node then [''os='' @ pc_os constraints] else [])
          @ (if pc_arch constraints \<noteq> [] \<and> pc_arch constraints \<noteq> nc_arch node then [''arch='' @ pc_arch constraints] else [])
          @ (if pc_runtime constraints \<noteq> [] \<and> pc_runtime constraints \<noteq> nc_runtime node
             then [''runtime='' @ pc_runtime constraints] else [])
          @ map (\<lambda>(key, val). ''label='' @ key @ ''='' @ val)
              (filter (\<lambda>(key, val). get_string (nc_labels node) key \<noteq> val) (pc_labels constraints))
          @ map (\<lambda>d. ''device='' @ d) (filter (\<lambda>d. \<not> contains (nc_devices node) d) (pc_devices constraints))
        in if length missing = 0 then ''node satisfies no placement constraints''
           else ''node does not satisfy placement constraints: '' @ join '','' missing
      | _ \<Rightarrow> ''node satisfies no placement constraints'')"

definition CapabilitiesEqual :: "NodeCapabilities option \<Rightarrow> NodeCapabilities option \<Rightarrow> bool" where
  "CapabilitiesEqual l r = (case (l, r) of (Some left, Some right) \<Rightarrow>
       if nc_os left \<noteq> nc_os right \<or> nc_arch left \<noteq> nc_arch right \<or> nc_runtime left \<noteq> nc_runtime right then False
       else if nc_devices left \<noteq> nc_devices right then False
       else if nc_resource_profiles left \<noteq> nc_resource_profiles right then False
       else if nc_cached_images left \<noteq> nc_cached_images right then False
       else if length (nc_labels left) \<noteq> length (nc_labels right) then False
       else list_all (\<lambda>(key, val). get_string (nc_labels right) key = val) (nc_labels left)
     | _ \<Rightarrow> l = None \<and> r = None)"

section \<open>What validation and matching give\<close>

lemma contains_iff [simp]: "contains vals x \<longleftrightarrow> x \<in> set vals"
  by (auto simp: contains_def list_ex_iff)

lemma capabilityValue_nonempty: "capabilityValue v \<Longrightarrow> v \<noteq> []"
  by (cases v) auto

lemma check_label_None:
  "check_label f (k, v) = None \<longleftrightarrow> k \<noteq> [] \<and> length k \<le> MaxCapabilityKeyLen \<and> capabilityKey k
     \<and> length v \<le> MaxCapabilityValueLen \<and> capabilityValue v"
  by (auto simp: check_label_def)

definition nonempty_values :: "('k, string) gomap \<Rightarrow> bool" where
  "nonempty_values m \<longleftrightarrow> (\<forall>kv\<in>set m. snd kv \<noteq> [])"

lemma check_labels_nonempty: "first_error (check_label f) m = None \<Longrightarrow> nonempty_values m"
  by (fastforce simp: nonempty_values_def check_label_None dest: capabilityValue_nonempty)

lemma valid_constraints_labels: "ValidateConstraints (Some c) = None \<Longrightarrow> nonempty_values (pc_labels c)"
  by (rule check_labels_nonempty) (auto simp: ValidateConstraints_def split: if_splits)

lemma valid_capabilities_labels: "ValidateCapabilities (Some n) = None \<Longrightarrow> nonempty_values (nc_labels n)"
  by (rule check_labels_nonempty) (auto simp: ValidateCapabilities_def split: if_splits)

lemma get_string_present:
  "v \<noteq> [] \<Longrightarrow> get_string m k = v \<longleftrightarrow> map_of m k = Some v"
  by (auto simp: get_string_def split: option.splits)

text \<open>What the comment of \<open>PlacementConstraints\<close> in the schema promises of a match.\<close>

definition satisfies :: "PlacementConstraints \<Rightarrow> NodeCapabilities \<Rightarrow> bool" where
  "satisfies c n \<longleftrightarrow> (pc_os c = [] \<or> pc_os c = nc_os n) \<and> (pc_arch c = [] \<or> pc_arch c = nc_arch n)
     \<and> (pc_runtime c = [] \<or> pc_runtime c = nc_runtime n)
     \<and> (\<forall>k v. (k, v) \<in> set (pc_labels c) \<longrightarrow> map_of (nc_labels n) k = Some v)
     \<and> set (pc_devices c) \<subseteq> set (nc_devices n)"

lemma valid_labels_match:
  assumes "nonempty_values req"
  shows "list_all (\<lambda>(key, val). get_string m key = val) req
     \<longleftrightarrow> (\<forall>k v. (k, v) \<in> set req \<longrightarrow> map_of m k = Some v)"
proof -
  have "get_string m k = v \<longleftrightarrow> map_of m k = Some v" if "(k, v) \<in> set req" for k v
    using assms that by (intro get_string_present) (auto simp: nonempty_values_def)
  moreover have "list_all (\<lambda>(key, val). get_string m key = val) req
     \<longleftrightarrow> (\<forall>k v. (k, v) \<in> set req \<longrightarrow> get_string m k = v)"
    by (auto simp: list_all_iff)
  ultimately show ?thesis by blast
qed

lemma map_eq_of_subset:
  assumes "wf_map m" "wf_map m'" "length m = length m'" "set m \<subseteq> set m'"
  shows "set m = set m'"
proof -
  have "card (set m) = card (set m')"
    using assms by (metis wf_map_def distinct_card distinct_map)
  with assms(4) show ?thesis by (simp add: card_subset_eq)
qed

lemma valid_labels_equal:
  assumes "wf_map m" "wf_map m'" "nonempty_values m"
  shows "length m = length m' \<and> list_all (\<lambda>(key, val). get_string m' key = val) m \<longleftrightarrow> set m = set m'"
proof -
  have "(\<forall>k v. (k, v) \<in> set m \<longrightarrow> map_of m' k = Some v) \<longleftrightarrow> set m \<subseteq> set m'"
    using assms(2) by (auto simp: map_of_in)
  moreover have "length m = length m'" if "set m = set m'"
    using that assms by (metis wf_map_def distinct_card distinct_map)
  ultimately show ?thesis
    using valid_labels_match[OF assms(3), of m'] map_eq_of_subset[OF assms(1,2)] by auto
qed

lemmas placement_eval = ValidateConstraints_def ValidateCapabilities_def PlacementMatches_def check_identity_def
  check_name_def check_label_def lower_alnum_def capability_bounds get_string_def

section \<open>Properties\<close>





lemma PlacementMatches_empty:
  "pc_os k = [] \<Longrightarrow> pc_arch k = [] \<Longrightarrow> pc_runtime k = [] \<Longrightarrow> pc_labels k = [] \<Longrightarrow> pc_devices k = []
     \<Longrightarrow> PlacementMatches (Some k) (Some m)"
  by (simp add: PlacementMatches_def)

lemma PlacementCompatible_known:
  "PlacementCompatible (Some k) (Some m) \<longleftrightarrow> PlacementMatches (Some k) (Some m)"
  by (simp add: PlacementCompatible_def PlacementMatches_empty)

lemma PlacementCompatible_unknown: "PlacementCompatible c None"
  by (simp add: PlacementCompatible_def split: option.split)

text \<open>C33: the advisory check of the client never hides an allocator that would admit the request:
  every node that matches is also compatible, a node that advertises nothing always is, and on any node
  that does advertise, being compatible is matching.\<close>

theorem PlacementCompatible_advisory:
  "(PlacementMatches c n \<longrightarrow> PlacementCompatible c n) \<and> PlacementCompatible c None
     \<and> (PlacementCompatible (Some k) (Some m) \<longleftrightarrow> PlacementMatches (Some k) (Some m))"
proof -
  have "PlacementCompatible c n" if "PlacementMatches c n"
    using that PlacementCompatible_known PlacementCompatible_unknown
    by (cases c; cases n) (simp_all add: PlacementCompatible_def [of None])
  then show ?thesis using PlacementCompatible_known PlacementCompatible_unknown by blast
qed

theorem PlacementCompatible_advisory_witness:
  "PlacementCompatible
     (Some \<lparr>pc_os = ''linux'', pc_arch = [], pc_runtime = [], pc_labels = [], pc_devices = []\<rparr>)
     (Some \<lparr>nc_os = ''linux'', nc_arch = [], nc_runtime = [], nc_resource_profiles = [], nc_devices = [],
            nc_labels = [], nc_cached_images = []\<rparr>)"
  by (rule PlacementCompatible_advisory[THEN conjunct1, rule_format]) (simp add: placement_eval)

text \<open>The schema says that an empty constraints message matches any node, and the configuration
  of the allocator says that a node without capabilities matches empty constraints; the code rejects
  that pair, and only a missing message is accepted.\<close>

lemma PlacementMatches_no_node:
  "PlacementMatches c None \<longleftrightarrow> c = None"
  by (simp add: PlacementMatches_def split: option.split)

end
