(* ===== verification/Sha256.thy ===== *)
theory Sha256
  imports Prelude
begin

text \<open>
  \<open>crypto/sha256.Sum256\<close> of the Go standard library, which binds a log chunk to its checksum:
  the FIPS 180-4 function on byte lists, over 32-bit words with wrap-around addition.
\<close>

unbundle bit_operations_syntax

section \<open>Constants and word functions\<close>

text \<open>The constants are the first 32 bits of the fractional parts of the cube roots of the first 64 primes
  and of the square roots of the first eight.  \<open>root_bits k n b r\<close> improves \<open>r\<close> bit by bit, from
  \<open>2 ^ (b - 1)\<close> down, to the integer part of the \<open>k\<close>-th root of \<open>n\<close>.\<close>

fun root_bits :: "nat \<Rightarrow> int \<Rightarrow> nat \<Rightarrow> int \<Rightarrow> int" where
  "root_bits k n 0 r = r"
| "root_bits k n (Suc b) r = root_bits k n b (if (r + 2 ^ b) ^ k \<le> n then r + 2 ^ b else r)"

definition primes_upto :: "int \<Rightarrow> int list" where
  "primes_upto n = filter (\<lambda>p. list_all (\<lambda>d. p mod d \<noteq> 0) [2..p - 1]) [2..n]"

definition sha_K :: "32 word list" where
  "sha_K = map (\<lambda>p. word_of_int (root_bits 3 (p * 2 ^ 96) 35 0)) (primes_upto 311)"

definition sha_H0 :: "32 word list" where
  "sha_H0 = map (\<lambda>p. word_of_int (root_bits 2 (p * 2 ^ 64) 35 0)) (primes_upto 19)"

definition rotr32 :: "nat \<Rightarrow> 32 word \<Rightarrow> 32 word" where
  "rotr32 n w = drop_bit n w OR push_bit (32 - n) w"

definition big_sigma0 :: "32 word \<Rightarrow> 32 word" where
  "big_sigma0 x = rotr32 2 x XOR rotr32 13 x XOR rotr32 22 x"
definition big_sigma1 :: "32 word \<Rightarrow> 32 word" where
  "big_sigma1 x = rotr32 6 x XOR rotr32 11 x XOR rotr32 25 x"
definition small_sigma0 :: "32 word \<Rightarrow> 32 word" where
  "small_sigma0 x = rotr32 7 x XOR rotr32 18 x XOR drop_bit 3 x"
definition small_sigma1 :: "32 word \<Rightarrow> 32 word" where
  "small_sigma1 x = rotr32 17 x XOR rotr32 19 x XOR drop_bit 10 x"
definition sha_ch :: "32 word \<Rightarrow> 32 word \<Rightarrow> 32 word \<Rightarrow> 32 word" where
  "sha_ch x y z = (x AND y) XOR (NOT x AND z)"
definition sha_maj :: "32 word \<Rightarrow> 32 word \<Rightarrow> 32 word \<Rightarrow> 32 word" where
  "sha_maj x y z = (x AND y) XOR (x AND z) XOR (y AND z)"

section \<open>Big-endian bytes\<close>

fun be_bytes :: "nat \<Rightarrow> int \<Rightarrow> bytes" where
  "be_bytes 0 n = []"
| "be_bytes (Suc k) n = word_of_int (n div 256 ^ k) # be_bytes k n"

definition be_int :: "bytes \<Rightarrow> int" where
  "be_int bs = foldl (\<lambda>acc b. acc * 256 + uint b) 0 bs"

fun words32 :: "nat \<Rightarrow> bytes \<Rightarrow> 32 word list" where
  "words32 0 bs = []"
| "words32 (Suc k) bs = word_of_int (be_int (take 4 bs)) # words32 k (drop 4 bs)"

section \<open>Padding, schedule, compression\<close>

definition sha_pad :: "bytes \<Rightarrow> bytes" where
  "sha_pad m = (let n = length m in
     m @ [0x80] @ replicate ((119 - n mod 64) mod 64) 0 @ be_bytes 8 ((8 * int n) mod 2 ^ 64))"

text \<open>The message schedule is extended word by word, newest first.\<close>

fun sha_schedule :: "nat \<Rightarrow> 32 word list \<Rightarrow> 32 word list" where
  "sha_schedule 0 w = w"
| "sha_schedule (Suc k) w =
     sha_schedule k ((small_sigma1 (w ! 1) + w ! 6 + small_sigma0 (w ! 14) + w ! 15) # w)"

type_synonym sha_state = "32 word \<times> 32 word \<times> 32 word \<times> 32 word \<times> 32 word \<times> 32 word \<times> 32 word \<times> 32 word"

fun sha_round :: "sha_state \<Rightarrow> 32 word \<times> 32 word \<Rightarrow> sha_state" where
  "sha_round (a, b, c, d, e, f, g, h) (k, w) =
     (let t1 = h + big_sigma1 e + sha_ch e f g + k + w; t2 = big_sigma0 a + sha_maj a b c
      in (t1 + t2, a, b, c, d + t1, e, f, g))"

fun state_words :: "sha_state \<Rightarrow> 32 word list" where
  "state_words (a, b, c, d, e, f, g, h) = [a, b, c, d, e, f, g, h]"

definition words_state :: "32 word list \<Rightarrow> sha_state" where
  "words_state s = (s ! 0, s ! 1, s ! 2, s ! 3, s ! 4, s ! 5, s ! 6, s ! 7)"

definition sha_block :: "32 word list \<Rightarrow> bytes \<Rightarrow> 32 word list" where
  "sha_block hs blk = (let ws = rev (sha_schedule 48 (rev (words32 16 blk)))
     in map2 (+) hs (state_words (foldl sha_round (words_state hs) (zip sha_K ws))))"

fun sha_blocks :: "nat \<Rightarrow> 32 word list \<Rightarrow> bytes \<Rightarrow> 32 word list" where
  "sha_blocks 0 hs bs = hs"
| "sha_blocks (Suc k) hs bs = sha_blocks k (sha_block hs (take 64 bs)) (drop 64 bs)"

definition Sum256 :: "bytes \<Rightarrow> bytes" where
  "Sum256 m = (let p = sha_pad m
     in concat (map (\<lambda>w. be_bytes 4 (uint w)) (sha_blocks (length p div 64) sha_H0 p)))"

section \<open>Shape\<close>

lemma length_be_bytes [simp]: "length (be_bytes k n) = k"
  by (induction k) auto

lemma length_state_words [simp]: "length (state_words s) = 8"
  by (cases s rule: state_words.cases) simp

lemma length_sha_blocks: "length hs = 8 \<Longrightarrow> length (sha_blocks k hs bs) = 8"
  by (induction k arbitrary: hs bs) (simp_all add: sha_block_def Let_def)

lemma length_sha_H0: "length sha_H0 = 8"
proof -
  have "length (primes_upto 19) = 8" by code_simp
  then show ?thesis by (simp add: sha_H0_def)
qed

lemma length_Sum256: "length (Sum256 m) = 32"
proof -
  have "length (concat (map (\<lambda>w. be_bytes 4 (uint (w :: 32 word))) ws)) = 4 * length ws" for ws
    by (induction ws) auto
  then show ?thesis by (simp add: Sum256_def Let_def length_sha_blocks length_sha_H0)
qed

lemma sha_pad_zeros: "r < 64 \<Longrightarrow> (119 - r) mod 64 = (if r \<le> 55 then 55 - r else 119 - (r :: nat))"
  using mod_mult_self2 [of "55 - r" 1 64] by (simp add: mod_if)

lemma sha_pad_blocks: "64 dvd length (sha_pad m)"
proof -
  define q r where "q = length m div 64" and "r = length m mod 64"
  have n: "length m = 64 * q + r" "r < 64" by (simp_all add: q_def r_def)
  have "length (sha_pad m) = 64 * q + r + 9 + (119 - r) mod 64"
    using n by (simp add: sha_pad_def Let_def flip: r_def)
  also have "\<dots> = 64 * (q + (if r \<le> 55 then 1 else 2))"
    using n by (simp add: sha_pad_zeros)
  finally show ?thesis by (metis dvd_triv_left)
qed

end
