(* ===== verification/Protocol.thy ===== *)
theory Protocol
  imports Placement Sha256
begin

text \<open>
  The wire contract: \<open>internal/protocol\<close> (\<open>base.go\<close>, \<open>contract.go\<close>, \<open>release.go\<close>, \<open>feedback.go\<close>,
  \<open>lease.go\<close>, \<open>tunnel.go\<close>, \<open>targets.go\<close>, \<open>terminal.go\<close>).  Each validator returns the first violation,
  and \<open>None\<close> for nil.  The protobuf well-known types are the parameter \<open>W\<close>.
\<close>

section \<open>Shared vocabulary\<close>

definition Terminal :: "ExecutionPhase \<Rightarrow> bool" where
  "Terminal phase \<longleftrightarrow> phase = EXECUTION_PHASE_CANCELLED \<or> phase = EXECUTION_PHASE_COMPLETED
     \<or> phase = EXECUTION_PHASE_FAILED"

lemma Terminal_simps [simp]:
  "Terminal EXECUTION_PHASE_CANCELLED" "Terminal EXECUTION_PHASE_COMPLETED" "Terminal EXECUTION_PHASE_FAILED"
  "\<not> Terminal EXECUTION_PHASE_UNSPECIFIED" "\<not> Terminal EXECUTION_PHASE_STARTING" "\<not> Terminal EXECUTION_PHASE_RUNNING"
  "\<not> Terminal EXECUTION_PHASE_CANCELLING" "\<not> Terminal (EXECUTION_PHASE_UNKNOWN n)"
  by (simp_all add: Terminal_def)

definition DefaultLease :: duration where "DefaultLease = 10 * minute"
definition LeaseExpiredDetail :: string where "LeaseExpiredDetail = ''execution lease expired''"
definition MaxLogBytes :: nat where "MaxLogBytes = 65536"
definition runIDBytes :: nat where "runIDBytes = 16"

definition ErrorCodes :: "string list" where
  "ErrorCodes = [''INVALID_REQUEST'', ''CAPACITY'', ''NOT_FOUND'', ''CONFLICT'', ''EXPIRED'', ''UNAVAILABLE'',
     ''DENIED'', ''INTERNAL'', ''OUTCOME_UNKNOWN'', ''INCOMPATIBLE'']"

section \<open>Hexadecimal strings\<close>

definition hex_digit :: "char \<Rightarrow> nat option" where
  "hex_digit c = (let n = of_char c :: nat in
     if 48 \<le> n \<and> n \<le> 57 then Some (n - 48)
     else if 97 \<le> n \<and> n \<le> 102 then Some (n - 87)
     else if 65 \<le> n \<and> n \<le> 70 then Some (n - 55) else None)"

text \<open>\<open>hex.DecodeString\<close>: pairs of digits of either case; \<open>None\<close> for an odd length or another byte.\<close>

fun hex_DecodeString :: "string \<Rightarrow> bytes option" where
  "hex_DecodeString [] = Some []"
| "hex_DecodeString [c] = None"
| "hex_DecodeString (c # d # cs) =
     (case (hex_digit c, hex_digit d, hex_DecodeString cs) of
        (Some h, Some l, Some bs) \<Rightarrow> Some (word_of_nat (16 * h + l) # bs)
      | _ \<Rightarrow> None)"

text \<open>\<open>strings.ToLower\<close> on ASCII.  A byte above 127 is left alone here; the only caller also decodes
  the string as hexadecimal, which rejects such a byte whatever its lower-case form is.\<close>

definition ToLower :: "string \<Rightarrow> string" where
  "ToLower s = map (\<lambda>c. let n = of_char c :: nat in if 65 \<le> n \<and> n \<le> 90 then char_of (n + 32) else c) s"

definition validRunID :: "string \<Rightarrow> bool" where
  "validRunID val =
     (if length val \<noteq> runIDBytes * 2 \<or> ToLower val \<noteq> val then False
      else (case hex_DecodeString val of None \<Rightarrow> False | Some decoded \<Rightarrow> length decoded = runIDBytes))"

section \<open>Validators of the messages\<close>

definition validTimestamp :: "pblib \<Rightarrow> string \<Rightarrow> timestamp option \<Rightarrow> ValidationError option" where
  "validTimestamp W field val = (case val of None \<Rightarrow> invalid field ''is required''
     | Some t \<Rightarrow> (case ts_CheckValid W t of Some err \<Rightarrow> invalid field err | None \<Rightarrow> None))"

definition validateRequest :: "ExecutionRequest option \<Rightarrow> ValidationError option" where
  "validateRequest r = (case r of None \<Rightarrow> invalid ''execution_request'' ''is required'' | Some request \<Rightarrow>
     if blank (rq_request_id request) then invalid ''execution_request.request_id'' ''is required''
     else if \<not> validRunID (rq_run_id request)
     then invalid ''execution_request.run_id'' ''must be 32 lowercase hexadecimal characters''
     else if rq_attempt request = 0 then invalid ''execution_request.attempt'' ''must be positive''
     else if blank (rq_resource_class request) then invalid ''execution_request.resource_class'' ''is required''
     else and_then (ValidateConstraints (rq_constraints request))
    (case rq_workload request of None \<Rightarrow> invalid ''execution_request.workload'' ''is required'' | Some workload \<Rightarrow>
     if blank (wl_image workload) then invalid ''execution_request.workload.image'' ''is required''
     else and_then (first_error (\<lambda>kv. if blank (fst kv)
        then invalid ''execution_request.workload.environment'' ''contains an empty key'' else None) (wl_environment workload))
    (if rq_policy request = None then invalid ''execution_request.policy'' ''is required'' else None)))"

definition validateOffer :: "pblib \<Rightarrow> Envelope \<Rightarrow> ExecutionOffer option \<Rightarrow> ValidationError option" where
  "validateOffer W envelope ofr = (case ofr of None \<Rightarrow> invalid ''execution_offer'' ''is required'' | Some offer \<Rightarrow>
     if blank (of_offer_id offer) then invalid ''execution_offer.offer_id'' ''is required''
     else if blank (of_request_id offer) then invalid ''execution_offer.request_id'' ''is required''
     else if blank (of_resource_class offer) then invalid ''execution_offer.resource_class'' ''is required''
     else and_then (validTimestamp W ''execution_offer.expires_at'' (of_expires_at offer))
    (if \<not> AsTime W (of_expires_at offer) > AsTime W (sent_at envelope)
     then invalid ''execution_offer.expires_at'' ''must be after sent_at''
     else ValidateCapabilities (of_node offer)))"

definition validateAssign :: "ExecutionAssign option \<Rightarrow> ValidationError option" where
  "validateAssign a = (case a of None \<Rightarrow> invalid ''execution_assign'' ''is required'' | Some assign \<Rightarrow>
     if blank (as_request_id assign) then invalid ''execution_assign.request_id'' ''is required''
     else if blank (as_offer_id assign) then invalid ''execution_assign.offer_id'' ''is required''
     else if blank (as_execution_id assign) then invalid ''execution_assign.execution_id'' ''is required''
     else None)"

definition validateCancel :: "ExecutionCancel option \<Rightarrow> ValidationError option" where
  "validateCancel c = (case c of None \<Rightarrow> invalid ''execution_cancel'' ''is required'' | Some cancel \<Rightarrow>
     if blank (ca_execution_id cancel) then invalid ''execution_cancel.execution_id'' ''is required'' else None)"

definition validateInspect :: "ExecutionInspect option \<Rightarrow> ValidationError option" where
  "validateInspect i = (case i of None \<Rightarrow> invalid ''execution_inspect'' ''is required'' | Some inspect \<Rightarrow>
     if blank (in_execution_id inspect) then invalid ''execution_inspect.execution_id'' ''is required'' else None)"

definition validateState :: "pblib \<Rightarrow> ExecutionState option \<Rightarrow> ValidationError option" where
  "validateState W s = (case s of None \<Rightarrow> invalid ''execution_state'' ''is required'' | Some state \<Rightarrow>
     if blank (st_execution_id state) then invalid ''execution_state.execution_id'' ''is required''
     else if st_phase state \<in> {EXECUTION_PHASE_STARTING, EXECUTION_PHASE_RUNNING, EXECUTION_PHASE_CANCELLING,
        EXECUTION_PHASE_CANCELLED, EXECUTION_PHASE_COMPLETED, EXECUTION_PHASE_FAILED}
     then validTimestamp W ''execution_state.occurred_at'' (st_occurred_at state)
     else invalid ''execution_state.phase'' ''is required and must be known'')"

definition validateOfferRelease :: "ExecutionOfferRelease option \<Rightarrow> ValidationError option" where
  "validateOfferRelease r = (case r of None \<Rightarrow> invalid ''execution_offer_release'' ''is required'' | Some release \<Rightarrow>
     if blank (rl_request_id release) \<or> blank (rl_offer_id release)
     then invalid ''execution_offer_release'' ''request_id and offer_id are required'' else None)"

definition validateOfferReleaseAck :: "Envelope \<Rightarrow> ExecutionOfferReleaseAck option \<Rightarrow> ValidationError option" where
  "validateOfferReleaseAck envelope a =
    (case a of None \<Rightarrow> invalid ''execution_offer_release_ack'' ''is required'' | Some ack \<Rightarrow>
     if blank (correlation_id envelope)
     then invalid ''correlation_id'' ''is required for offer release acknowledgement''
     else if blank (ra_request_id ack) \<or> blank (ra_offer_id ack)
     then invalid ''execution_offer_release_ack'' ''request_id and offer_id are required''
     else if ra_outcome ack < OFFER_RELEASE_OUTCOME_RELEASED \<or> ra_outcome ack > OFFER_RELEASE_OUTCOME_ASSIGNED
     then invalid ''execution_offer_release_ack.outcome'' ''is not supported'' else None)"

definition validateError :: "Envelope \<Rightarrow> CommandError option \<Rightarrow> ValidationError option" where
  "validateError e f = (case f of
     None \<Rightarrow> invalid ''command_error'' ''requires a known code, correlation, and bounded detail''
   | Some failure \<Rightarrow>
     if ce_code failure \<notin> set ErrorCodes \<or> blank (correlation_id e) \<or> length (ce_detail failure) > 256
     then invalid ''command_error'' ''requires a known code, correlation, and bounded detail'' else None)"

definition validateLogsRequest :: "ExecutionLogsRequest option \<Rightarrow> ValidationError option" where
  "validateLogsRequest r = (case r of
     None \<Rightarrow> invalid ''execution_logs_request'' ''requires execution, stdout/stderr, and 1..65536 bytes''
   | Some q \<Rightarrow>
     if blank (lq_execution_id q) \<or> (lq_stream q \<noteq> ''stdout'' \<and> lq_stream q \<noteq> ''stderr'') \<or> lq_max_bytes q = 0
        \<or> unat (lq_max_bytes q) > MaxLogBytes
     then invalid ''execution_logs_request'' ''requires execution, stdout/stderr, and 1..65536 bytes'' else None)"

definition validateLogsResponse :: "Envelope \<Rightarrow> ExecutionLogsResponse option \<Rightarrow> ValidationError option" where
  "validateLogsResponse e lr = (case lr of
     None \<Rightarrow> invalid ''execution_logs_response'' ''invalid range or correlation''
   | Some r \<Rightarrow>
     if correlation_id e = [] \<or> lr_execution_id r = [] \<or> (lr_stream r \<noteq> ''stdout'' \<and> lr_stream r \<noteq> ''stderr'')
        \<or> length (lr_data r) > MaxLogBytes \<or> lr_next_offset r < lr_offset r
        \<or> lr_next_offset r - lr_offset r \<noteq> word_of_nat (length (lr_data r))
     then invalid ''execution_logs_response'' ''invalid range or correlation''
     else if Sum256 (lr_data r) \<noteq> lr_sha256 r then invalid ''execution_logs_response.sha256'' ''checksum mismatch''
     else None)"

definition validateLeaseRenew :: "pblib \<Rightarrow> ExecutionLeaseRenew option \<Rightarrow> ValidationError option" where
  "validateLeaseRenew W r = (case r of None \<Rightarrow> invalid ''execution_lease_renew'' ''is required'' | Some renew \<Rightarrow>
     if blank (rn_execution_id renew) then invalid ''execution_lease_renew.execution_id'' ''is required''
     else (case rn_lease_duration renew of None \<Rightarrow> invalid ''execution_lease_renew.lease_duration'' ''is required''
      | Some d \<Rightarrow> (case pd_CheckValid W d of Some err \<Rightarrow> invalid ''execution_lease_renew.lease_duration'' err
      | None \<Rightarrow> if pd_AsDuration W d \<le> 0
                then invalid ''execution_lease_renew.lease_duration'' ''must be positive'' else None)))"

definition validateLeaseRenewAck :: "pblib \<Rightarrow> ExecutionLeaseRenewAck option \<Rightarrow> ValidationError option" where
  "validateLeaseRenewAck W a = (case a of None \<Rightarrow> invalid ''execution_lease_renew_ack'' ''is required'' | Some ack \<Rightarrow>
     if blank (na_execution_id ack) then invalid ''execution_lease_renew_ack.execution_id'' ''is required''
     else validTimestamp W ''execution_lease_renew_ack.expires_at'' (na_expires_at ack))"

section \<open>Tunnel targets\<close>

record Target =
  tg_Port :: "16 word"

definition MaxPeerKeySize :: nat where "MaxPeerKeySize = 64"

text \<open>The loop over the proto targets; the index is only part of the error text.\<close>

fun convert_targets :: "nat \<Rightarrow> TunnelTarget list \<Rightarrow> ValidationError + Target list" where
  "convert_targets i [] = Inr []"
| "convert_targets i (pt # pts) =
     (if tt_port pt = 0 then Inl (TunnelTargetError (Some i) ''port must be positive'')
      else if tt_port pt > 0xFFFF then Inl (TunnelTargetError (Some i) ''port too large'')
      else (case convert_targets (Suc i) pts of Inl e \<Rightarrow> Inl e
            | Inr ts \<Rightarrow> Inr (\<lparr>tg_Port = ucast (tt_port pt)\<rparr> # ts)))"

definition ValidateTunnelTargets :: "TunnelTarget list \<Rightarrow> ValidationError + Target list" where
  "ValidateTunnelTargets pts =
     (if length pts = 0 then Inl (TunnelTargetError None ''no tunnel targets supplied'') else convert_targets 0 pts)"

definition TargetsToProto :: "Target list \<Rightarrow> TunnelTarget list" where
  "TargetsToProto ts = map (\<lambda>t. \<lparr>tt_port = ucast (tg_Port t)\<rparr>) ts"

definition validateTunnelOpen :: "ExecutionTunnelOpen option \<Rightarrow> ValidationError option" where
  "validateTunnelOpen t = (case t of None \<Rightarrow> invalid ''execution_tunnel_open'' ''is required'' | Some open \<Rightarrow>
     if blank (to_execution_id open) then invalid ''execution_tunnel_open.execution_id'' ''is required''
     else if length (to_ygg_peer_pubkey open) = 0 then invalid ''execution_tunnel_open.ygg_peer_pubkey'' ''is required''
     else if length (to_ygg_peer_pubkey open) > MaxPeerKeySize
     then invalid ''execution_tunnel_open.ygg_peer_pubkey'' ''is too large''
     else if length (to_targets open) = 0 then invalid ''execution_tunnel_open.targets'' ''is required''
     else (case ValidateTunnelTargets (to_targets open) of Inl e \<Rightarrow> Some e | Inr _ \<Rightarrow> None))"

definition validateTunnelOpenAck :: "ExecutionTunnelOpenAck option \<Rightarrow> ValidationError option" where
  "validateTunnelOpenAck a = (case a of None \<Rightarrow> invalid ''execution_tunnel_open_ack'' ''is required'' | Some ack \<Rightarrow>
     if blank (ta_execution_id ack) then invalid ''execution_tunnel_open_ack.execution_id'' ''is required'' else None)"

section \<open>The envelope\<close>

definition ValidateEnvelope :: "pblib \<Rightarrow> Envelope option \<Rightarrow> ValidationError option" where
  "ValidateEnvelope W env = (case env of None \<Rightarrow> invalid ''envelope'' ''is required'' | Some envelope \<Rightarrow>
     if blank (message_id envelope) then invalid ''message_id'' ''is required''
     else if length (sender envelope) = 0 then invalid ''sender'' ''is required''
     else and_then (validTimestamp W ''sent_at'' (sent_at envelope))
    (case payload envelope of
       Some (Envelope_CommandError p) \<Rightarrow> validateError envelope p
     | Some (Envelope_ExecutionLogsRequest p) \<Rightarrow> validateLogsRequest p
     | Some (Envelope_ExecutionLogsResponse p) \<Rightarrow> validateLogsResponse envelope p
     | Some (Envelope_ExecutionRequest p) \<Rightarrow> validateRequest p
     | Some (Envelope_ExecutionOffer p) \<Rightarrow> validateOffer W envelope p
     | Some (Envelope_ExecutionAssign p) \<Rightarrow> validateAssign p
     | Some (Envelope_ExecutionCancel p) \<Rightarrow> validateCancel p
     | Some (Envelope_ExecutionState p) \<Rightarrow> validateState W p
     | Some (Envelope_ExecutionInspect p) \<Rightarrow> validateInspect p
     | Some (Envelope_ExecutionOfferRelease p) \<Rightarrow> validateOfferRelease p
     | Some (Envelope_ExecutionLeaseRenew p) \<Rightarrow> validateLeaseRenew W p
     | Some (Envelope_ExecutionLeaseRenewAck p) \<Rightarrow> validateLeaseRenewAck W p
     | Some (Envelope_ExecutionTunnelOpen p) \<Rightarrow> validateTunnelOpen p
     | Some (Envelope_ExecutionTunnelOpenAck p) \<Rightarrow> validateTunnelOpenAck p
     | Some (Envelope_ExecutionOfferReleaseAck p) \<Rightarrow> validateOfferReleaseAck envelope p
     | None \<Rightarrow> invalid ''payload'' ''is required''))"

section \<open>Lemmas\<close>

lemma hex_decode_digits: "hex_DecodeString s = Some bs \<Longrightarrow> c \<in> set s \<Longrightarrow> hex_digit c \<noteq> None"
  by (induction s arbitrary: bs rule: hex_DecodeString.induct) (auto split: option.splits)

lemma hex_decode_length: "hex_DecodeString s = Some bs \<Longrightarrow> length s = 2 * length bs"
  by (induction s arbitrary: bs rule: hex_DecodeString.induct) (auto split: option.splits)

lemma hex_decode_total:
  "even (length s) \<Longrightarrow> \<forall>c\<in>set s. hex_digit c \<noteq> None \<Longrightarrow> hex_DecodeString s \<noteq> None"
  by (induction s rule: hex_DecodeString.induct) (auto split: option.splits)

definition lower_hex :: "char \<Rightarrow> bool" where
  "lower_hex c \<longleftrightarrow> (48 \<le> (of_char c :: nat) \<and> (of_char c :: nat) \<le> 57) \<or> (97 \<le> (of_char c :: nat) \<and> (of_char c :: nat) \<le> 102)"

lemma lower_char_id:
  "(let n = of_char c :: nat in if 65 \<le> n \<and> n \<le> 90 then char_of (n + 32) else c) = c
     \<longleftrightarrow> \<not> (65 \<le> (of_char c :: nat) \<and> (of_char c :: nat) \<le> 90)"
proof -
  have "char_of (n + 32) \<noteq> c" if "of_char c = n" "n \<le> 90" for n :: nat
  proof
    assume "char_of (n + 32) = c"
    then have "(n + 32) mod 256 = n" using that(1) by (metis of_char_of)
    with that(2) show False by simp
  qed
  then show ?thesis by (auto simp: Let_def)
qed

lemma hex_lower: "hex_digit c \<noteq> None \<and> \<not> (65 \<le> (of_char c :: nat) \<and> (of_char c :: nat) \<le> 90) \<longleftrightarrow> lower_hex c"
  by (auto simp: hex_digit_def lower_hex_def Let_def)

lemma ToLower_id: "ToLower s = s \<longleftrightarrow> (\<forall>c\<in>set s. \<not> (65 \<le> (of_char c :: nat) \<and> (of_char c :: nat) \<le> 90))"
  by (induction s) (simp_all add: ToLower_def lower_char_id del: Let_def)

lemma ucast_port: "(p :: 32 word) \<le> 0xFFFF \<Longrightarrow> ucast (ucast p :: 16 word) = p"
  by transfer (simp add: take_bit_eq_mod)

lemma ucast_port_back: "ucast (ucast (p :: 16 word) :: 32 word) = p"
  by transfer (simp add: take_bit_eq_mod)

lemma ucast_port_le: "(ucast (p :: 16 word) :: 32 word) \<le> 0xFFFF"
  by transfer (simp add: take_bit_eq_mod)

lemma ucast_port_zero: "(ucast (p :: 16 word) :: 32 word) = 0 \<longleftrightarrow> p = 0"
  by (metis ucast_port_back unsigned_0)

lemma convert_targets_back: "convert_targets i pts = Inr ts \<Longrightarrow> TargetsToProto ts = pts"
  by (induction pts arbitrary: i ts)
    (auto simp: TargetsToProto_def ucast_port not_less split: if_splits sum.splits)

lemma convert_targets_proto:
  "\<forall>t\<in>set ts. tg_Port t \<noteq> 0 \<Longrightarrow> convert_targets i (TargetsToProto ts) = Inr ts"
  by (induction ts arbitrary: i)
    (auto simp: TargetsToProto_def ucast_port_zero ucast_port_back ucast_port_le not_less)

lemma convert_targets_positive: "convert_targets i pts = Inr ts \<Longrightarrow> t \<in> set ts \<Longrightarrow> tg_Port t \<noteq> 0"
proof (induction pts arbitrary: i ts)
  case (Cons pt pts)
  have "ucast (tt_port pt) \<noteq> (0 :: 16 word)" if "tt_port pt \<noteq> 0" "tt_port pt \<le> 0xFFFF"
    using that ucast_port [of "tt_port pt"] by (metis unsigned_0)
  with Cons show ?case by (auto simp: not_less split: if_splits sum.splits)
qed simp

section \<open>Properties\<close>

text \<open>C34: a run identifier is accepted exactly when it consists of 32 lowercase hexadecimal digits,
  as the schema says.\<close>

theorem validRunID_correct:
  "validRunID s \<longleftrightarrow> length s = 32 \<and> list_all lower_hex s"
proof -
  have "list_all lower_hex s \<longleftrightarrow> ToLower s = s \<and> (\<forall>c\<in>set s. hex_digit c \<noteq> None)"
    by (auto simp: list_all_iff ToLower_id simp flip: hex_lower)
  moreover have "hex_DecodeString s \<noteq> None \<longleftrightarrow> (\<forall>c\<in>set s. hex_digit c \<noteq> None)" if "length s = 32"
    using hex_decode_digits hex_decode_total that by (metis not_None_eq even_numeral)
  moreover have "length bs = 16" if "length s = 32" "hex_DecodeString s = Some bs" for bs
    using hex_decode_length[OF that(2)] that(1) by simp
  ultimately show ?thesis by (auto simp: validRunID_def runIDBytes_def split: option.splits)
qed

text \<open>C35: the target list of a tunnel survives the trip through the wire representation in both
  directions.  What \<open>ValidateTunnelTargets\<close> accepts is a non-empty list of positive ports whose
  wire form is the received one, and the wire form of any such list is accepted unchanged: the
  narrowing to 16 bits loses nothing.\<close>

theorem tunnel_targets_roundtrip:
  "ValidateTunnelTargets pts = Inr ts \<longleftrightarrow>
     TargetsToProto ts = pts \<and> ts \<noteq> [] \<and> list_all (\<lambda>t. tg_Port t \<noteq> 0) ts"
proof
  assume ok: "ValidateTunnelTargets pts = Inr ts"
  then have conv: "convert_targets 0 pts = Inr ts" "pts \<noteq> []"
    by (auto simp: ValidateTunnelTargets_def split: if_splits)
  then show "TargetsToProto ts = pts \<and> ts \<noteq> [] \<and> list_all (\<lambda>t. tg_Port t \<noteq> 0) ts"
    using convert_targets_back convert_targets_positive by (auto simp: list_all_iff TargetsToProto_def)
next
  assume "TargetsToProto ts = pts \<and> ts \<noteq> [] \<and> list_all (\<lambda>t. tg_Port t \<noteq> 0) ts"
  then show "ValidateTunnelTargets pts = Inr ts"
    using convert_targets_proto [of ts 0]
    by (auto simp: ValidateTunnelTargets_def list_all_iff TargetsToProto_def)
qed



end
