(* ===== verification/Errors.thy ===== *)
theory Errors
  imports Protocol
begin

text \<open>
  Errors of the allocator (\<open>internal/allocator/errors.go\<close>, \<open>durable_errors.go\<close>, \<open>feedback.go\<close>).
  A Go error is the list of the sentinels that \<open>errors.Is\<close> finds in it together with its text.
  The quoted identifiers that some call sites append to the text are diagnostics that nothing
  reads back and are left out; the one text that reaches a client, the detail of \<open>ErrIncompatible\<close>,
  is kept exactly.
\<close>

section \<open>Sentinels and errors\<close>

datatype sentinel =
    ErrOfferReleased | ErrInvalidConfig | ErrUnsupportedMessage | ErrCapacityExhausted | ErrOfferNotFound
  | ErrOfferExpired | ErrOfferAlreadyAssigned | ErrExecutionNotFound | ErrExecutionConflict | ErrUnauthorized
  | ErrInvalidTransition | ErrRuntimeStart | ErrRuntimeStop | ErrIDCollision | ErrReplayCapacity
  | ErrReplayConflict | ErrLeaseTooLong | ErrStore | ErrRecoveryUnsupported | ErrIncompatible
  | ErrAdmission | ErrResultExpired | ErrCommandExpired | ErrTunnelDisabled | ErrTunnelNoEndpoint
  | ErrInvalidEnvelope
  | RuntimeErrExecutionMissing | RuntimeErrExecutionConflict | ErrLogsMissing | ErrLogOffset
  | ErrTunnelNotBound | ErrPeerKeyMismatch | ErrSessionBusy | ErrTunnelUnsupported

datatype go_error = GoError (err_kinds: "sentinel list") (Error: string)

definition errors_Is :: "go_error \<Rightarrow> sentinel \<Rightarrow> bool" where
  "errors_Is e s \<longleftrightarrow> s \<in> set (err_kinds e)"

fun sentinel_text :: "sentinel \<Rightarrow> string" where
  "sentinel_text ErrOfferReleased = ''offer was released''"
| "sentinel_text ErrInvalidConfig = ''invalid allocator configuration''"
| "sentinel_text ErrUnsupportedMessage = ''unsupported allocator message''"
| "sentinel_text ErrCapacityExhausted = ''allocator capacity exhausted''"
| "sentinel_text ErrOfferNotFound = ''offer not found''"
| "sentinel_text ErrOfferExpired = ''offer expired''"
| "sentinel_text ErrOfferAlreadyAssigned = ''offer already assigned''"
| "sentinel_text ErrExecutionNotFound = ''execution not found''"
| "sentinel_text ErrExecutionConflict = ''execution conflicts with existing execution''"
| "sentinel_text ErrUnauthorized = ''sender is not authorized''"
| "sentinel_text ErrInvalidTransition = ''invalid execution transition''"
| "sentinel_text ErrRuntimeStart = ''runtime start failed''"
| "sentinel_text ErrRuntimeStop = ''runtime stop failed''"
| "sentinel_text ErrIDCollision = ''generated identifier already exists''"
| "sentinel_text ErrReplayCapacity = ''replay capacity exhausted''"
| "sentinel_text ErrReplayConflict = ''message ID reused with different content''"
| "sentinel_text ErrLeaseTooLong = ''lease duration exceeds the allocator bound''"
| "sentinel_text ErrStore = ''allocator state store failed''"
| "sentinel_text ErrRecoveryUnsupported = ''runtime does not support recovery''"
| "sentinel_text ErrIncompatible = ''node does not satisfy placement constraints''"
| "sentinel_text ErrAdmission = ''client admission denied''"
| "sentinel_text ErrResultExpired = ''retained result expired''"
| "sentinel_text ErrCommandExpired = ''command outside replay horizon''"
| "sentinel_text ErrTunnelDisabled = ''direct-access tunnels are disabled on this allocator''"
| "sentinel_text ErrTunnelNoEndpoint = ''tunnel endpoint is not ready''"
| "sentinel_text ErrInvalidEnvelope = ''invalid envelope''"
| "sentinel_text RuntimeErrExecutionMissing = ''runtime execution is missing''"
| "sentinel_text RuntimeErrExecutionConflict = ''runtime execution conflicts with durable state''"
| "sentinel_text ErrLogsMissing = ''logs are missing or expired''"
| "sentinel_text ErrLogOffset = ''log offset is outside retained data''"
| "sentinel_text ErrTunnelNotBound = ''execution has no tunnel binding''"
| "sentinel_text ErrPeerKeyMismatch = ''tunnel peer key does not match the execution's bound key''"
| "sentinel_text ErrSessionBusy = ''execution already has a live tunnel session''"
| "sentinel_text ErrTunnelUnsupported = ''runtime cannot dial execution ports''"

definition err :: "sentinel \<Rightarrow> go_error" where
  "err s = GoError [s] (sentinel_text s)"

text \<open>\<open>fmt.Errorf("%w: %s", sentinel, text)\<close>.\<close>

definition wrap :: "sentinel \<Rightarrow> string \<Rightarrow> go_error" where
  "wrap s txt = GoError [s] (sentinel_text s @ '': '' @ txt)"

fun validation_error :: "ValidationError \<Rightarrow> go_error" where
  "validation_error (ValidationError field problem) = wrap ErrInvalidEnvelope (field @ '': '' @ problem)"
| "validation_error (TunnelTargetError i problem) = wrap ErrInvalidEnvelope problem"

text \<open>\<open>errors.Join\<close> drops nil and is nil when nothing is left.\<close>

definition Join :: "go_error option list \<Rightarrow> go_error option" where
  "Join es = (let xs = map the (filter (\<lambda>e. e \<noteq> None) es) in
     if xs = [] then None
     else Some (GoError (concat (map err_kinds xs)) (join [CHR 0x0A] (map Error xs))))"

lemma errors_Is_err [simp]: "errors_Is (err s) t \<longleftrightarrow> t = s"
  by (simp add: errors_Is_def err_def)

lemma errors_Is_wrap [simp]: "errors_Is (wrap s x) t \<longleftrightarrow> t = s"
  by (simp add: errors_Is_def wrap_def)

lemma Join_None [simp]: "Join es = None \<longleftrightarrow> (\<forall>e\<in>set es. e = None)"
  by (auto simp: Join_def Let_def filter_empty_conv)

section \<open>Durable error codes\<close>

text \<open>
  The code table of \<open>durableErrors\<close>.  \<open>classifyError\<close> ranges over the map, so for an error that
  carries several sentinels the chosen code depends on the iteration order; the table is a parameter
  there, any permutation of \<open>durableErrors\<close>.
\<close>

definition durableErrors :: "(string \<times> sentinel) list" where
  "durableErrors =
     [(''result_expired'', ErrResultExpired), (''command_expired'', ErrCommandExpired),
      (''admission'', ErrAdmission), (''offer_released'', ErrOfferReleased),
      (''unsupported_message'', ErrUnsupportedMessage), (''capacity_exhausted'', ErrCapacityExhausted),
      (''offer_not_found'', ErrOfferNotFound), (''offer_expired'', ErrOfferExpired),
      (''offer_assigned'', ErrOfferAlreadyAssigned), (''execution_not_found'', ErrExecutionNotFound),
      (''execution_conflict'', ErrExecutionConflict), (''unauthorized'', ErrUnauthorized),
      (''invalid_transition'', ErrInvalidTransition), (''runtime_start'', ErrRuntimeStart),
      (''runtime_stop'', ErrRuntimeStop), (''id_collision'', ErrIDCollision),
      (''replay_capacity'', ErrReplayCapacity), (''replay_conflict'', ErrReplayConflict),
      (''store'', ErrStore)]"

fun classifyError :: "(string \<times> sentinel) list \<Rightarrow> go_error \<Rightarrow> string" where
  "classifyError [] e = []"
| "classifyError ((code, s) # table) e = (if errors_Is e s then code else classifyError table e)"

definition restoreError :: "string \<Rightarrow> string \<Rightarrow> go_error" where
  "restoreError code message = (case map_of durableErrors code of
     Some s \<Rightarrow> wrap s message | None \<Rightarrow> GoError [] message)"

section \<open>Error responses\<close>

text \<open>The code, detail and retry flag of the \<open>CommandError\<close> for an error; the cases are tried in order.\<close>

definition error_code :: "go_error \<Rightarrow> string \<times> string \<times> bool" where
  "error_code e =
     (if errors_Is e ErrAdmission then (''DENIED'', ''identity is not admitted by local policy'', False)
      else if errors_Is e ErrStore then (''OUTCOME_UNKNOWN'', ''state commit failed; inspect the same allocator'', True)
      else if errors_Is e ErrUnauthorized \<or> errors_Is e ErrOfferNotFound \<or> errors_Is e ErrExecutionNotFound
      then (''NOT_FOUND'', ''resource unavailable to this identity'', False)
      else if errors_Is e ErrCapacityExhausted \<or> errors_Is e ErrReplayCapacity
      then (''CAPACITY'', ''allocator capacity or command queue exhausted'', True)
      else if errors_Is e ErrIncompatible then (''INCOMPATIBLE'', Error e, False)
      else if errors_Is e ErrOfferExpired \<or> errors_Is e ErrOfferReleased \<or> errors_Is e ErrResultExpired
         \<or> errors_Is e ErrCommandExpired
      then (''EXPIRED'', ''reservation or retained result expired'', False)
      else if errors_Is e ErrExecutionConflict \<or> errors_Is e ErrReplayConflict \<or> errors_Is e ErrOfferAlreadyAssigned
      then (''CONFLICT'', ''command conflicts with durable state'', False)
      else if errors_Is e ErrTunnelDisabled
      then (''TUNNEL'', ''direct-access tunnels are disabled on this allocator'', False)
      else if errors_Is e ErrTunnelNoEndpoint
      then (''TUNNEL'', ''tunnel endpoint is not ready on this allocator'', True)
      else if errors_Is e ErrInvalidTransition
      then (''CONFLICT'', ''command conflicts with the current execution phase'', False)
      else if errors_Is e ErrInvalidEnvelope \<or> errors_Is e ErrUnsupportedMessage \<or> errors_Is e ErrLeaseTooLong
      then (''INVALID_REQUEST'', ''invalid or unsupported command'', False)
      else if errors_Is e ErrRuntimeStart \<or> errors_Is e ErrRuntimeStop
      then (''UNAVAILABLE'', ''runtime operation failed; inspect the same allocator'', True)
      else (''INTERNAL'', ''allocator could not process command'', False))"

definition error_envelope ::
  "pblib \<Rightarrow> bytes \<Rightarrow> string \<Rightarrow> gotime \<Rightarrow> Envelope \<Rightarrow> go_error \<Rightarrow> Envelope" where
  "error_envelope W identity rid now command e =
     (let (code, detail, retry) = error_code e in
      \<lparr>message_id = rid, sender = identity, correlation_id = message_id command,
       sent_at = Some (ts_New W now),
       payload = Some (Envelope_CommandError (Some \<lparr>ce_code = code, ce_detail = detail, ce_retryable = retry\<rparr>))\<rparr>)"

section \<open>Lemmas\<close>

lemma classify_hit:
  "(c, s) \<in> set table \<Longrightarrow> errors_Is e s \<Longrightarrow> \<exists>s'. (classifyError table e, s') \<in> set table \<and> errors_Is e s'"
  by (induction table) auto

lemma classify_miss: "(\<forall>(c, s)\<in>set table. \<not> errors_Is e s) \<Longrightarrow> classifyError table e = []"
  by (induction table) auto

lemma durable_lookup: "(c, s) \<in> set durableErrors \<Longrightarrow> map_of durableErrors c = Some s"
  by (rule map_of_is_SomeI) (simp_all add: durableErrors_def)

lemma error_code_known: "fst (error_code e) \<in> set ErrorCodes \<or> fst (error_code e) = ''TUNNEL''"
  by (simp add: error_code_def ErrorCodes_def)

section \<open>Properties\<close>

text \<open>C37: an error that a restart restores from its durable code has the sentinel the code stands for,
  whatever order the table was searched in: a persisted failure with a listed sentinel is restored as an
  error that still carries one of its sentinels, and with a single one exactly that sentinel.\<close>

theorem durable_error_roundtrip:
  assumes "mset table = mset durableErrors" and "(c, s) \<in> set durableErrors" and "errors_Is e s"
  shows "\<exists>s'. err_kinds (restoreError (classifyError table e) (Error e)) = [s'] \<and> errors_Is e s'"
proof -
  have "set table = set durableErrors" using assms(1) by (rule mset_eq_setD)
  then obtain s' where hit: "(classifyError table e, s') \<in> set durableErrors" "errors_Is e s'"
    using classify_hit[of c s table e] assms(2,3) by metis
  from durable_lookup[OF hit(1)] hit(2) show ?thesis by (simp add: restoreError_def wrap_def)
qed

theorem durable_error_roundtrip_witness:
  "\<exists>s'. err_kinds (restoreError (classifyError (rev durableErrors) (err ErrOfferExpired)) (sentinel_text ErrOfferExpired)) = [s']
     \<and> errors_Is (err ErrOfferExpired) s'"
proof -
  have "(''offer_expired'', ErrOfferExpired) \<in> set durableErrors" by (simp add: durableErrors_def)
  then have "\<exists>s'. err_kinds (restoreError (classifyError (rev durableErrors) (err ErrOfferExpired))
      (Error (err ErrOfferExpired))) = [s'] \<and> errors_Is (err ErrOfferExpired) s'"
    by (intro durable_error_roundtrip) simp_all
  moreover have "Error (err ErrOfferExpired) = sentinel_text ErrOfferExpired" by (simp add: err_def)
  ultimately show ?thesis by simp
qed



text \<open>C39: the error message the allocator sends when tunnels are disabled, or not ready, carries the code
  TUNNEL, which the wire contract does not list: the receiving client rejects the envelope instead
  of reporting the failure.\<close>

theorem tunnel_error_rejected:
  "e \<in> {err ErrTunnelDisabled, err ErrTunnelNoEndpoint} \<Longrightarrow>
     ValidateEnvelope W (Some (error_envelope W identity rid now command e)) \<noteq> None"
proof -
  assume e: "e \<in> {err ErrTunnelDisabled, err ErrTunnelNoEndpoint}"
  have "fst (error_code (err ErrTunnelDisabled)) = ''TUNNEL''" "fst (error_code (err ErrTunnelNoEndpoint)) = ''TUNNEL''"
    by (simp_all add: error_code_def)
  with e have "fst (error_code e) = ''TUNNEL''" by blast
  then obtain d r where "error_code e = (''TUNNEL'', d, r)" by (cases "error_code e") auto
  then show ?thesis
    by (simp add: ValidateEnvelope_def error_envelope_def validateError_def ErrorCodes_def del: not_None_eq)
qed

theorem tunnel_error_rejected_witness:
  "ValidateEnvelope pb_doc (Some (error_envelope pb_doc [7] ''r'' 0
     \<lparr>message_id = ''m'', sender = [1], correlation_id = '''', sent_at = None, payload = None\<rparr>
     (err ErrTunnelDisabled))) \<noteq> None"
  by (rule tunnel_error_rejected) simp



end
