(* ===== verification/Capacity.thy ===== *)
theory Capacity
  imports Errors
begin

text \<open>
  The slot accounting of the allocator: \<open>internal/allocator/capacity.go\<close>.  Slots are counted in
  32-bit words per resource class.  The interface the rest of the allocator relies on is the locale
  \<open>slot_pool\<close>: it relates a ledger to the multiset of the classes of those who hold a slot, and the
  ledger of the code is an interpretation of it.
\<close>

section \<open>The ledger\<close>

record capacityLedger =
  limits :: "(string, 32 word) gomap"
  used :: "(string, 32 word) gomap"

text \<open>An index expression on a map of numbers gives zero for a missing key.\<close>

definition get_num :: "('k, 32 word) gomap \<Rightarrow> 'k \<Rightarrow> 32 word" where
  "get_num m k = (case map_of m k of None \<Rightarrow> 0 | Some v \<Rightarrow> v)"

definition newCapacityLedger :: "(string, 32 word) gomap \<Rightarrow> go_error + capacityLedger" where
  "newCapacityLedger configured =
     (if length configured = 0 then Inl (wrap ErrInvalidConfig ''capacity is required'')
      else if list_ex (\<lambda>(class, slots). blank class \<or> slots = 0) configured
      then Inl (wrap ErrInvalidConfig ''capacity classes and slots must be non-zero'')
      else Inr \<lparr>limits = configured, used = []\<rparr>)"

definition reserve :: "string \<Rightarrow> capacityLedger \<Rightarrow> go_error option \<times> capacityLedger" where
  "reserve class l = (case map_of (limits l) class of
     None \<Rightarrow> (Some (err ErrCapacityExhausted), l)
   | Some limit \<Rightarrow>
       if get_num (used l) class \<ge> limit then (Some (err ErrCapacityExhausted), l)
       else (None, l\<lparr>used := map_put class (get_num (used l) class + 1) (used l)\<rparr>))"

definition release :: "string \<Rightarrow> capacityLedger \<Rightarrow> capacityLedger" where
  "release class l = (if get_num (used l) class > 0
     then l\<lparr>used := map_put class (get_num (used l) class - 1) (used l)\<rparr> else l)"

definition available :: "string \<Rightarrow> capacityLedger \<Rightarrow> 32 word" where
  "available class l = (let limit = get_num (limits l) class in
     if get_num (used l) class \<ge> limit then 0 else limit - get_num (used l) class)"

definition snapshot :: "capacityLedger \<Rightarrow> (string, 32 word) gomap" where
  "snapshot l = used l"

definition restore :: "(string, 32 word) gomap \<Rightarrow> capacityLedger \<Rightarrow> capacityLedger" where
  "restore u l = l\<lparr>used := u\<rparr>"

section \<open>The interface of a slot pool\<close>

locale slot_pool =
  fixes invar :: "'l \<Rightarrow> bool"
    and in_use :: "'l \<Rightarrow> 'c \<Rightarrow> nat"
    and bound :: "'l \<Rightarrow> 'c \<Rightarrow> nat"
    and take_slot :: "'c \<Rightarrow> 'l \<Rightarrow> 'e option \<times> 'l"
    and give_slot :: "'c \<Rightarrow> 'l \<Rightarrow> 'l"
  assumes bounded: "invar l \<Longrightarrow> in_use l c \<le> bound l c"
    and take_ok: "invar l \<Longrightarrow> fst (take_slot c l) = None \<longleftrightarrow> in_use l c < bound l c"
    and take_use: "invar l \<Longrightarrow> fst (take_slot c l) = None \<Longrightarrow>
      in_use (snd (take_slot c l)) = (in_use l)(c := Suc (in_use l c))"
    and take_fail: "fst (take_slot c l) \<noteq> None \<Longrightarrow> snd (take_slot c l) = l"
    and take_invar: "invar l \<Longrightarrow> invar (snd (take_slot c l))"
    and take_bound: "bound (snd (take_slot c l)) = bound l"
    and give_use: "in_use (give_slot c l) = (in_use l)(c := in_use l c - 1)"
    and give_invar: "invar l \<Longrightarrow> invar (give_slot c l)"
    and give_bound: "bound (give_slot c l) = bound l"
begin

definition tracks :: "'l \<Rightarrow> 'c multiset \<Rightarrow> bool" where
  "tracks l H \<longleftrightarrow> invar l \<and> (\<forall>c. in_use l c = count H c)"

lemma tracks_take:
  "tracks l H \<Longrightarrow> fst (take_slot c l) = None \<Longrightarrow> tracks (snd (take_slot c l)) (add_mset c H)"
  by (simp add: tracks_def take_use take_invar)

lemma tracks_give: "tracks l (add_mset c H) \<Longrightarrow> tracks (give_slot c l) H"
  by (auto simp: tracks_def give_use give_invar)

lemma tracks_free: "tracks l H \<Longrightarrow> count H c < bound l c \<Longrightarrow> fst (take_slot c l) = None"
  by (simp add: tracks_def take_ok)

lemma tracks_bounded: "tracks l H \<Longrightarrow> count H c \<le> bound l c"
  by (metis bounded tracks_def)

text \<open>Taking a slot for every element of a list, as the restart does.\<close>

fun take_all :: "'c list \<Rightarrow> 'l \<Rightarrow> 'e option \<times> 'l" where
  "take_all [] l = (None, l)"
| "take_all (c # cs) l = (case take_slot c l of (None, l') \<Rightarrow> take_all cs l' | (Some e, l') \<Rightarrow> (Some e, l'))"

lemma take_all_tracks:
  "tracks l H \<Longrightarrow> (\<And>c. count (H + mset cs) c \<le> bound l c) \<Longrightarrow>
     \<exists>l'. take_all cs l = (None, l') \<and> tracks l' (H + mset cs) \<and> bound l' = bound l"
proof (induction cs arbitrary: l H)
  case (Cons c cs)
  have "count H c < bound l c" using Cons.prems(2)[of c] by simp
  then have ok: "fst (take_slot c l) = None" using Cons.prems(1) tracks_free by blast
  obtain l1 where l1: "take_slot c l = (None, l1)" using ok by (cases "take_slot c l") auto
  have "tracks l1 (add_mset c H)" "bound l1 = bound l"
    using tracks_take[OF Cons.prems(1) ok] take_bound[of c l] l1 by auto
  with Cons.IH[of l1 "add_mset c H"] Cons.prems(2) l1 show ?case by simp
qed simp

end

section \<open>The ledger is a slot pool\<close>

definition slots_in_use :: "capacityLedger \<Rightarrow> string \<Rightarrow> nat" where
  "slots_in_use l c = unat (get_num (used l) c)"

definition slot_limit :: "capacityLedger \<Rightarrow> string \<Rightarrow> nat" where
  "slot_limit l c = unat (get_num (limits l) c)"

definition ledger_invar :: "capacityLedger \<Rightarrow> bool" where
  "ledger_invar l \<longleftrightarrow> (\<forall>c. get_num (used l) c \<le> get_num (limits l) c)"

lemma get_num_put [simp]: "get_num (map_put k v m) k' = (if k' = k then v else get_num m k')"
  by (simp add: get_num_def)

lemma unat_Suc_less: "(x :: 32 word) < y \<Longrightarrow> unat (x + 1) = Suc (unat x)"
proof -
  assume "x < y"
  then have "unat x < unat y" by (simp add: word_less_nat_alt)
  moreover have "unat y < 2 ^ 32" using unsigned_less [of y, where ?'a = nat] by simp
  ultimately show ?thesis by (simp add: unat_word_ariths)
qed

lemma unat_pred: "(x :: 32 word) > 0 \<Longrightarrow> unat (x - 1) = unat x - 1"
  by (simp add: unat_sub word_le_nat_alt word_less_nat_alt)

lemma reserve_None:
  "fst (reserve c l) = None \<longleftrightarrow> get_num (used l) c < get_num (limits l) c"
  by (auto simp: reserve_def get_num_def not_le split: option.splits)

lemma reserve_used:
  "fst (reserve c l) = None \<Longrightarrow>
     snd (reserve c l) = l\<lparr>used := map_put c (get_num (used l) c + 1) (used l)\<rparr>"
  by (auto simp: reserve_def split: option.splits if_splits)

lemma reserve_fail: "fst (reserve c l) \<noteq> None \<Longrightarrow> snd (reserve c l) = l"
  by (auto simp: reserve_def split: option.splits if_splits)

lemma reserve_limits [simp]: "limits (snd (reserve c l)) = limits l"
  by (auto simp: reserve_def split: option.splits)

lemma release_limits [simp]: "limits (release c l) = limits l"
  by (simp add: release_def)

lemma reserve_invar: "ledger_invar l \<Longrightarrow> ledger_invar (snd (reserve c l))"
proof (cases "fst (reserve c l) = None")
  case True
  then have "get_num (used l) c < get_num (limits l) c" by (simp add: reserve_None)
  then have "get_num (used l) c + 1 \<le> get_num (limits l) c" by (rule inc_le)
  with True show "ledger_invar l \<Longrightarrow> ?thesis" by (simp add: ledger_invar_def reserve_used)
qed (simp add: reserve_fail)

lemma release_invar: "ledger_invar l \<Longrightarrow> ledger_invar (release c l)"
  by (auto simp: ledger_invar_def release_def word_le_nat_alt unat_pred intro: diff_le_self le_trans)

interpretation ledger: slot_pool ledger_invar slots_in_use slot_limit reserve release
proof
  show "slots_in_use l c \<le> slot_limit l c" if "ledger_invar l" for l c
    using that by (simp add: slots_in_use_def slot_limit_def ledger_invar_def word_le_nat_alt)
  show "fst (reserve c l) = None \<longleftrightarrow> slots_in_use l c < slot_limit l c" for l c
    by (simp add: reserve_None slots_in_use_def slot_limit_def word_less_nat_alt)
  show "slots_in_use (snd (reserve c l)) = (slots_in_use l)(c := Suc (slots_in_use l c))"
    if "fst (reserve c l) = None" for l c
    using that by (auto simp: slots_in_use_def reserve_used reserve_None unat_Suc_less)
  show "slots_in_use (release c l) = (slots_in_use l)(c := slots_in_use l c - 1)" for l c
    by (auto simp: slots_in_use_def release_def unat_pred word_gt_0)
qed (simp_all add: reserve_fail reserve_invar release_invar slot_limit_def fun_eq_iff)

lemma available_zero: "available c l = 0 \<longleftrightarrow> fst (reserve c l) \<noteq> None"
  by (auto simp: available_def reserve_None Let_def not_less)

lemma new_ledger_tracks: "newCapacityLedger cfg = Inr l \<Longrightarrow> ledger.tracks l {#}"
  by (auto simp: newCapacityLedger_def ledger.tracks_def ledger_invar_def slots_in_use_def get_num_def
      split: if_splits)

section \<open>Properties\<close>

text \<open>A script of reservations and releases beside the multiset of the classes that hold a slot.\<close>

fun run_ledger :: "(bool \<times> string) list \<Rightarrow> capacityLedger \<times> string multiset \<Rightarrow> capacityLedger \<times> string multiset" where
  "run_ledger [] s = s"
| "run_ledger ((True, c) # ops) (l, H) = run_ledger ops
     (case reserve c l of (None, l') \<Rightarrow> (l', add_mset c H) | (Some _, l') \<Rightarrow> (l', H))"
| "run_ledger ((False, c) # ops) (l, H) = run_ledger ops
     (if c \<in># H then (release c l, H - {#c#}) else (l, H))"

lemma run_ledger_tracks:
  "ledger.tracks (fst s) (snd s) \<Longrightarrow> ledger.tracks (fst (run_ledger ops s)) (snd (run_ledger ops s))
     \<and> limits (fst (run_ledger ops s)) = limits (fst s)"
proof (induction ops s rule: run_ledger.induct)
  case (2 c ops l H)
  obtain r l' where r: "reserve c l = (r, l')" by force
  have "ledger.tracks l' (if r = None then add_mset c H else H)" "limits l' = limits l"
    using ledger.tracks_take[of l H c] 2(2) reserve_fail[of c l] reserve_limits[of c l] r by auto
  with 2 r show ?case by (cases r) auto
next
  case (3 c ops l H)
  show ?case
  proof (cases "c \<in># H")
    case True
    then have "ledger.tracks (release c l) (H - {#c#})"
      using ledger.tracks_give[of l c "H - {#c#}"] 3(2) by simp
    with 3(1) True show ?thesis by simp
  qed (use 3 in simp)
qed simp



end
