(* ===== verification/Replay.thy ===== *)
theory Replay
  imports Errors
begin

text \<open>
  The replay cache: \<open>internal/allocator/replay.go\<close>.  An entry is in flight until its done channel
  is closed (\<open>re_done\<close>).  The code hands out pointers to entries; the model names an entry by its key,
  which is the same thing because an entry in flight never leaves the cache.
\<close>

section \<open>Entries and the cache\<close>

record replayEntry =
  re_seenAt :: gotime
  re_done :: bool
  re_envelope :: Envelope
  re_responses :: "Envelope list"
  re_err :: "go_error option"

record replayCache =
  rc_ttl :: duration
  rc_capacity :: int
  rc_entries :: "(string, replayEntry) gomap"

definition newReplayCache :: "duration \<Rightarrow> int \<Rightarrow> replayCache" where
  "newReplayCache ttl cap = \<lparr>rc_ttl = ttl, rc_capacity = cap, rc_entries = []\<rparr>"

definition replayDone :: "replayEntry \<Rightarrow> bool" where
  "replayDone entry = re_done entry"

definition prune :: "gotime \<Rightarrow> replayCache \<Rightarrow> replayCache" where
  "prune now c = (let cutoff = now + (- rc_ttl c) in
     c\<lparr>rc_entries := filter (\<lambda>(key, entry). \<not> (\<not> re_seenAt entry > cutoff \<and> replayDone entry)) (rc_entries c)\<rparr>)"

text \<open>One pass of the inner loop of \<open>evict\<close>: the oldest completed entry so far; the empty key means none.\<close>

fun scan_oldest :: "(string, replayEntry) gomap \<Rightarrow> string \<times> gotime \<Rightarrow> string \<times> gotime" where
  "scan_oldest [] best = best"
| "scan_oldest ((candidate, entry) # m) (oldestKey, oldest) =
     scan_oldest m (if replayDone entry \<and> (oldestKey = [] \<or> re_seenAt entry < oldest)
       then (candidate, re_seenAt entry) else (oldestKey, oldest))"

lemma scan_oldest_key: "fst (scan_oldest m (k, t)) = k \<or> fst (scan_oldest m (k, t)) \<in> fst ` set m"
proof (induction m arbitrary: k t)
  case (Cons ce m)
  obtain c e where ce: "ce = (c, e)" by force
  show ?case
  proof (cases "replayDone e \<and> (k = [] \<or> re_seenAt e < t)")
    case True
    with Cons[of c "re_seenAt e"] ce show ?thesis by auto
  next
    case False
    then have "scan_oldest (ce # m) (k, t) = scan_oldest m (k, t)" using ce by (simp only: scan_oldest.simps if_False)
    with Cons[of k t] show ?thesis by auto
  qed
qed simp

lemma delete_shorter: "k \<in> fst ` set m \<Longrightarrow> length (map_delete k m) < length m"
proof (induction m)
  case (Cons kv m)
  have "length (map_delete k m) \<le> length m" by (simp add: length_delete_le)
  with Cons show ?case by (cases kv) auto
qed simp

function evict_entries :: "int \<Rightarrow> (string, replayEntry) gomap \<Rightarrow> (string, replayEntry) gomap" where
  "evict_entries limit m =
     (if int (length m) > limit
      then (let oldestKey = fst (scan_oldest m ([], zero_time)) in
            if oldestKey = [] then m else evict_entries limit (map_delete oldestKey m))
      else m)"
  by pat_completeness auto
termination
proof (relation "measure (\<lambda>(limit, m). length m)")
  fix limit :: int and m :: "(string, replayEntry) gomap" and k
  assume "k = fst (scan_oldest m ([], zero_time))" "k \<noteq> []"
  then have "k \<in> fst ` set m" using scan_oldest_key[of m "[]" zero_time] by auto
  then show "((limit, map_delete k m), limit, m) \<in> measure (\<lambda>(limit, m). length m)"
    by (simp add: delete_shorter)
qed simp

declare evict_entries.simps [simp del]

definition evict :: "int \<Rightarrow> replayCache \<Rightarrow> replayCache" where
  "evict limit c = c\<lparr>rc_entries := evict_entries limit (rc_entries c)\<rparr>"

text \<open>
  \<open>begin\<close> returns the cache, the error and whether the key was present; the entry is the one under the key.
\<close>

definition begin_replay ::
  "pblib \<Rightarrow> string \<Rightarrow> Envelope \<Rightarrow> gotime \<Rightarrow> replayCache \<Rightarrow> replayCache \<times> go_error option \<times> bool" where
  "begin_replay W key envelope now c0 =
     (let c = prune now c0 in
      case map_of (rc_entries c) key of
        Some entry \<Rightarrow> if \<not> Equal_envelope W (re_envelope entry) envelope
                      then (c, Some (err ErrReplayConflict), False) else (c, None, True)
      | None \<Rightarrow>
          let c1 = evict (rc_capacity c - 1) c in
          if int (length (rc_entries c1)) \<ge> rc_capacity c1 then (c1, Some (err ErrReplayCapacity), False)
          else (c1\<lparr>rc_entries := map_put key \<lparr>re_seenAt = now, re_done = False, re_envelope = envelope,
                   re_responses = [], re_err = None\<rparr> (rc_entries c1)\<rparr>, None, False))"

definition finish_replay ::
  "string \<Rightarrow> Envelope list \<Rightarrow> go_error option \<Rightarrow> replayCache \<Rightarrow> replayCache" where
  "finish_replay key responses e c = (case map_of (rc_entries c) key of
     None \<Rightarrow> evict (rc_capacity c) c
   | Some entry \<Rightarrow> evict (rc_capacity c) (c\<lparr>rc_entries :=
       map_put key (entry\<lparr>re_responses := responses, re_err := e, re_done := True\<rparr>) (rc_entries c)\<rparr>))"

section \<open>Lemmas\<close>

definition in_flight :: "replayCache \<Rightarrow> string \<Rightarrow> Envelope \<Rightarrow> bool" where
  "in_flight c k e \<longleftrightarrow> (\<exists>entry. map_of (rc_entries c) k = Some entry \<and> \<not> re_done entry \<and> re_envelope entry = e)"

definition completed :: "replayCache \<Rightarrow> string \<Rightarrow> replayEntry \<Rightarrow> bool" where
  "completed c k entry \<longleftrightarrow> map_of (rc_entries c) k = Some entry \<and> re_done entry"

definition cache_ok :: "replayCache \<Rightarrow> bool" where
  "cache_ok c \<longleftrightarrow> wf_map (rc_entries c) \<and> [] \<notin> fst ` set (rc_entries c) \<and> int (length (rc_entries c)) \<le> rc_capacity c"

lemma prune_simps [simp]: "rc_ttl (prune now c) = rc_ttl c" "rc_capacity (prune now c) = rc_capacity c"
  by (simp_all add: prune_def Let_def)

lemma evict_simps [simp]: "rc_ttl (evict n c) = rc_ttl c" "rc_capacity (evict n c) = rc_capacity c"
  by (simp_all add: evict_def)

text \<open>The pass of the inner loop finds a completed entry with the least time, and none only if there is none.\<close>

lemma scan_oldest_inv:
  "wf_map m \<Longrightarrow> [] \<notin> fst ` set m \<Longrightarrow> scan_oldest m (k0, t0) = (k, t) \<Longrightarrow>
     (k = [] \<longrightarrow> k0 = [] \<and> (\<forall>(c, e)\<in>set m. \<not> re_done e))
     \<and> (k \<noteq> [] \<longrightarrow> ((k, t) = (k0, t0) \<or> (\<exists>e. (k, e) \<in> set m \<and> re_done e \<and> re_seenAt e = t))
         \<and> (\<forall>(c, e)\<in>set m. re_done e \<longrightarrow> t \<le> re_seenAt e) \<and> (k0 \<noteq> [] \<longrightarrow> t \<le> t0))"
proof (induction m arbitrary: k0 t0)
  case (Cons ce m)
  obtain c e where ce: "ce = (c, e)" by force
  let ?b = "if re_done e \<and> (k0 = [] \<or> re_seenAt e < t0) then (c, re_seenAt e) else (k0, t0)"
  obtain k1 t1 where b: "?b = (k1, t1)" by force
  have c: "c \<noteq> []" using Cons.prems(2) ce by auto
  have s: "scan_oldest m (k1, t1) = (k, t)"
    using Cons.prems(3) ce b by (simp add: replayDone_def)
  have wf: "wf_map m" "[] \<notin> fst ` set m" using Cons.prems ce by auto
  show ?case using Cons.IH[OF wf s] b c ce by (auto split: if_splits)
qed auto

lemma scan_oldest_none:
  "wf_map m \<Longrightarrow> [] \<notin> fst ` set m \<Longrightarrow> fst (scan_oldest m ([], t)) = [] \<Longrightarrow> (k, e) \<in> set m \<Longrightarrow> \<not> re_done e"
  using scan_oldest_inv[of m "[]" t "[]" "snd (scan_oldest m ([], t))"] by (cases "scan_oldest m ([], t)") auto

lemma scan_oldest_some:
  assumes "wf_map m" "[] \<notin> fst ` set m" "fst (scan_oldest m ([], t)) = k" "k \<noteq> []"
  shows "\<exists>e. map_of m k = Some e \<and> re_done e \<and> (\<forall>(c, e')\<in>set m. re_done e' \<longrightarrow> re_seenAt e \<le> re_seenAt e')"
proof -
  obtain u where u: "scan_oldest m ([], t) = (k, u)" using assms(3) by (cases "scan_oldest m ([], t)") auto
  from scan_oldest_inv[OF assms(1,2) u] assms(1,4) show ?thesis by (auto simp: map_of_in)
qed

lemma evict_entries_wf: "wf_map m \<Longrightarrow> wf_map (evict_entries n m)"
  by (induction n m rule: evict_entries.induct) (subst evict_entries.simps, auto simp: Let_def)

lemma evict_entries_subset: "set (evict_entries n m) \<subseteq> set m"
proof (induction n m rule: evict_entries.induct)
  case (1 n m)
  have "set (map_delete k m) \<subseteq> set m" for k by (auto simp: AList.delete_eq)
  with 1 show ?case by (subst evict_entries.simps) (auto simp: Let_def)
qed

lemma evict_entries_keeps:
  "wf_map m \<Longrightarrow> [] \<notin> fst ` set m \<Longrightarrow> map_of m k = Some e \<Longrightarrow> \<not> re_done e \<Longrightarrow> map_of (evict_entries n m) k = Some e"
proof (induction n m rule: evict_entries.induct)
  case (1 n m)
  let ?o = "fst (scan_oldest m ([], zero_time))"
  show ?case
  proof (cases "int (length m) > n \<and> ?o \<noteq> []")
    case True
    then have "?o \<noteq> k" using scan_oldest_some[OF 1(2,3), of zero_time ?o] 1(4,5) by auto
    moreover have "[] \<notin> fst ` set (map_delete ?o m)" using 1(3) by (auto simp: AList.delete_eq)
    ultimately have "map_of (evict_entries n (map_delete ?o m)) k = Some e" using 1 True by auto
    with True show ?thesis by (subst evict_entries.simps) (auto simp: Let_def)
  qed (subst evict_entries.simps, use 1(4) in \<open>auto simp: Let_def\<close>)
qed

text \<open>What is evicted is completed and not younger than any completed entry that stays.\<close>

lemma evict_entries_oldest:
  "wf_map m \<Longrightarrow> [] \<notin> fst ` set m \<Longrightarrow> map_of m k = Some e \<Longrightarrow> map_of (evict_entries n m) k = None \<Longrightarrow>
     re_done e \<and> (\<forall>(c, e')\<in>set (evict_entries n m). re_done e' \<longrightarrow> re_seenAt e \<le> re_seenAt e')"
proof (induction n m rule: evict_entries.induct)
  case (1 n m)
  let ?o = "fst (scan_oldest m ([], zero_time))"
  have go: "int (length m) > n \<and> ?o \<noteq> []"
    using 1(4,5) evict_entries.simps[of n m] by (auto simp: Let_def split: if_splits)
  then have ev: "evict_entries n m = evict_entries n (map_delete ?o m)"
    by (subst evict_entries.simps) (simp add: Let_def)
  show ?case
  proof (cases "?o = k")
    case True
    have "set (evict_entries n m) \<subseteq> set m" by (rule evict_entries_subset)
    with scan_oldest_some[OF 1(2,3) True] go True 1(4) show ?thesis by fastforce
  next
    case False
    moreover have "[] \<notin> fst ` set (map_delete ?o m)" using 1(3) by (auto simp: AList.delete_eq)
    ultimately show ?thesis using 1 go ev by auto
  qed
qed

text \<open>Eviction stops only at the limit or when nothing completed is left.\<close>

lemma evict_entries_stop:
  "wf_map m \<Longrightarrow> [] \<notin> fst ` set m \<Longrightarrow>
     int (length (evict_entries n m)) \<le> n \<or> (\<forall>(k, e)\<in>set (evict_entries n m). \<not> re_done e)"
proof (induction n m rule: evict_entries.induct)
  case (1 n m)
  let ?o = "fst (scan_oldest m ([], zero_time))"
  show ?case
  proof (cases "int (length m) > n \<and> ?o \<noteq> []")
    case True
    then have "evict_entries n m = evict_entries n (map_delete ?o m)"
      by (subst evict_entries.simps) (simp add: Let_def)
    moreover have "[] \<notin> fst ` set (map_delete ?o m)" using 1(3) by (auto simp: AList.delete_eq)
    ultimately show ?thesis using 1 True by auto
  next
    case False
    then have "evict_entries n m = m" by (subst evict_entries.simps) (auto simp: Let_def)
    with False scan_oldest_none[OF 1(2,3)] show ?thesis by auto
  qed
qed

lemma prune_lookup:
  "cache_ok c \<Longrightarrow> map_of (rc_entries (prune now c)) k =
     (case map_of (rc_entries c) k of None \<Rightarrow> None
      | Some e \<Rightarrow> if re_seenAt e > now - rc_ttl c \<or> \<not> re_done e then Some e else None)"
  by (auto simp: prune_def Let_def map_of_filter_key cache_ok_def replayDone_def split: option.splits)

lemma prune_ok [simp, intro]: "cache_ok c \<Longrightarrow> cache_ok (prune now c)"
  using length_filter_le[of _ "rc_entries c"]
  by (fastforce simp: cache_ok_def prune_def Let_def intro: order_trans [rotated])

lemma evict_ok [simp, intro]: "cache_ok c \<Longrightarrow> cache_ok (evict n c)"
proof -
  assume c: "cache_ok c"
  have "length (evict_entries n m) \<le> length m" for m
  proof (induction n m rule: evict_entries.induct)
    case (1 n m)
    have "length (map_delete k m) \<le> length m" for k by (rule length_delete_le)
    with 1 show ?case by (subst evict_entries.simps) (auto simp: Let_def intro: order_trans)
  qed
  with c evict_entries_subset[of n "rc_entries c"] evict_entries_wf show "cache_ok (evict n c)"
    by (force simp: cache_ok_def evict_def intro: order_trans [rotated])
qed

lemma in_flight_prune [intro]: "cache_ok c \<Longrightarrow> in_flight c k e \<Longrightarrow> in_flight (prune now c) k e"
  by (auto simp: in_flight_def prune_lookup)

lemma in_flight_evict [intro]: "cache_ok c \<Longrightarrow> in_flight c k e \<Longrightarrow> in_flight (evict n c) k e"
  by (auto simp: in_flight_def evict_def cache_ok_def evict_entries_keeps)

lemma cache_ok_put:
  "cache_ok c \<Longrightarrow> key \<noteq> [] \<Longrightarrow> map_of (rc_entries c) key \<noteq> None \<or> int (length (rc_entries c)) < rc_capacity c
     \<Longrightarrow> cache_ok (c\<lparr>rc_entries := map_put key v (rc_entries c)\<rparr>)"
  by (auto simp: cache_ok_def length_put map_of_None_keys[symmetric] simp del: not_None_eq)

lemma begin_replay_ok: "cache_ok c \<Longrightarrow> key \<noteq> [] \<Longrightarrow> cache_ok (fst (begin_replay W key env now c))"
  by (auto simp: begin_replay_def Let_def split: option.splits intro!: cache_ok_put)

lemma begin_replay_keeps:
  "cache_ok c \<Longrightarrow> in_flight c k e \<Longrightarrow> in_flight (fst (begin_replay W key env now c)) k e"
proof -
  assume ok: "cache_ok c" and fl: "in_flight c k e"
  let ?c = "prune now c"
  let ?c1 = "evict (rc_capacity ?c - 1) ?c"
  have p: "cache_ok ?c" "in_flight ?c k e" using ok fl by auto
  have e: "in_flight ?c1 k e" using p by (rule in_flight_evict)
  have "in_flight (?c1\<lparr>rc_entries := map_put key v (rc_entries ?c1)\<rparr>) k e" if "map_of (rc_entries ?c) key = None" for v
    using e p(2) that by (auto simp: in_flight_def)
  with p e show ?thesis by (auto simp: begin_replay_def Let_def split: option.splits)
qed

lemma begin_replay_new:
  "begin_replay W key env now c = (c', None, False) \<Longrightarrow> in_flight c' key env"
  by (auto simp: begin_replay_def in_flight_def Let_def split: option.splits if_splits)

lemma begin_replay_caps [simp]:
  "rc_capacity (fst (begin_replay W key env now c)) = rc_capacity c"
  "rc_ttl (fst (begin_replay W key env now c)) = rc_ttl c"
  by (auto simp: begin_replay_def Let_def split: option.splits)

lemma finish_replay_ok: "cache_ok c \<Longrightarrow> key \<noteq> [] \<Longrightarrow> cache_ok (finish_replay key rs e c)"
  by (auto simp: finish_replay_def split: option.splits intro!: cache_ok_put)

lemma finish_replay_keeps:
  "cache_ok c \<Longrightarrow> key \<noteq> [] \<Longrightarrow> in_flight c k env \<Longrightarrow> k \<noteq> key \<Longrightarrow> in_flight (finish_replay key rs e c) k env"
  by (auto simp: finish_replay_def split: option.splits intro!: in_flight_evict cache_ok_put) (auto simp: in_flight_def)

section \<open>Properties\<close>



text \<open>C27: a redelivered command is answered from the cache.  While a completed entry is younger than
  the retention time, starting the same envelope again reports a duplicate and leaves the recorded
  responses and error in place, and reusing the message identifier with other content is a conflict;
  in both cases no entry is added.\<close>

theorem replay_duplicate:
  assumes "cache_ok c" "pb_laws W" "completed c key entry" "re_seenAt entry > now - rc_ttl c"
  shows "begin_replay W key (re_envelope entry) now c = (prune now c, None, True)
     \<and> completed (prune now c) key entry
     \<and> (\<not> Equal_envelope W (re_envelope entry) other \<longrightarrow>
          begin_replay W key other now c = (prune now c, Some (err ErrReplayConflict), False))"
proof -
  have "map_of (rc_entries (prune now c)) key = Some entry" "re_done entry"
    using assms by (auto simp: completed_def prune_lookup)
  then show ?thesis using assms(2) by (auto simp: begin_replay_def Let_def completed_def pb_laws_def)
qed

theorem replay_duplicate_witness:
  "let env = \<lparr>message_id = ''m'', sender = [1], correlation_id = [], sent_at = None, payload = None\<rparr>;
       entry = \<lparr>re_seenAt = 5, re_done = True, re_envelope = env, re_responses = [env], re_err = None\<rparr>;
       c = \<lparr>rc_ttl = 10, rc_capacity = 1, rc_entries = [(''k'', entry)]\<rparr>
   in fst (snd (begin_replay pb_doc ''k'' env 14 c)) = None \<and> snd (snd (begin_replay pb_doc ''k'' env 14 c))"
proof -
  let ?env = "\<lparr>message_id = ''m'', sender = [1], correlation_id = [], sent_at = None, payload = None\<rparr>"
  let ?entry = "\<lparr>re_seenAt = 5, re_done = True, re_envelope = ?env, re_responses = [?env], re_err = None\<rparr>"
  let ?c = "\<lparr>rc_ttl = 10, rc_capacity = 1, rc_entries = [(''k'', ?entry)]\<rparr>"
  have "cache_ok ?c" "completed ?c ''k'' ?entry" by (auto simp: cache_ok_def completed_def)
  from replay_duplicate[OF this(1) pb_doc_laws this(2), of 14] show ?thesis by (simp add: Let_def)
qed

end
