(* ===== verification/Tunnel_Registry.thy ===== *)
theory Tunnel_Registry
  imports Errors
begin

text \<open>
  The registry of tunnel bindings and sessions: \<open>internal/tunnel/registry.go\<close>, \<open>grants.go\<close> and
  \<open>session.go\<close>.  The code compares sessions by pointer; the model numbers them as they are opened.
  Closing the done channel of a session adds its number to \<open>reg_closed\<close>.  Closing a closed channel
  panics in Go; the list \<open>reg_closed\<close> having no repetition says that this never happens.
\<close>

section \<open>State\<close>

record Endpoint =
  ep_Address :: bytes
  ep_PubKey :: bytes

record Session =
  ss_id :: nat
  ss_ExecutionID :: string
  ss_PeerKey :: bytes
  ss_Targets :: "Target list"
  ss_Endpoint :: Endpoint

record tunnel_record =
  tr_executionID :: string
  tr_peerKey :: bytes
  tr_targets :: "Target list"
  tr_endpoint :: Endpoint
  tr_session :: "Session option"

record Registry =
  reg_records :: "(string, tunnel_record) gomap"
  reg_next :: nat
  reg_closed :: "nat list"

definition NewRegistry :: Registry where
  "NewRegistry = \<lparr>reg_records = [], reg_next = 0, reg_closed = []\<rparr>"

section \<open>Operations\<close>

definition Bind :: "string \<Rightarrow> bytes \<Rightarrow> Target list \<Rightarrow> Endpoint \<Rightarrow> Registry \<Rightarrow> go_error option \<times> Registry" where
  "Bind executionID peerKey targets endpoint r =
     (if executionID = [] then (Some (GoError [] ''tunnel binding: execution ID is required''), r)
      else if length peerKey = 0 then (Some (GoError [] ''tunnel binding: peer key is required''), r)
      else if length targets = 0 then (Some (GoError [] ''tunnel binding: at least one target port is required''), r)
      else let rec = (case map_of (reg_records r) executionID of
               None \<Rightarrow> \<lparr>tr_executionID = executionID, tr_peerKey = [], tr_targets = [],
                 tr_endpoint = \<lparr>ep_Address = [], ep_PubKey = []\<rparr>, tr_session = None\<rparr>
             | Some rec \<Rightarrow> rec)
           in (None, r\<lparr>reg_records := map_put executionID
                (rec\<lparr>tr_peerKey := peerKey, tr_targets := targets, tr_endpoint := endpoint\<rparr>) (reg_records r)\<rparr>))"

definition Open :: "string \<Rightarrow> bytes \<Rightarrow> Registry \<Rightarrow> (go_error + Session) \<times> Registry" where
  "Open executionID peerKey r =
     (if executionID = [] then (Inl (GoError [] ''invalid tunnel open: execution ID is required''), r)
      else (case map_of (reg_records r) executionID of
        None \<Rightarrow> (Inl (err ErrTunnelNotBound), r)
      | Some rec \<Rightarrow>
          if tr_peerKey rec \<noteq> peerKey then (Inl (err ErrPeerKeyMismatch), r)
          else if tr_session rec \<noteq> None then (Inl (err ErrSessionBusy), r)
          else let session = \<lparr>ss_id = reg_next r, ss_ExecutionID = executionID, ss_PeerKey = peerKey,
                     ss_Targets = tr_targets rec, ss_Endpoint = tr_endpoint rec\<rparr>
               in (Inr session, r\<lparr>reg_records := map_put executionID (rec\<lparr>tr_session := Some session\<rparr>) (reg_records r),
                     reg_next := Suc (reg_next r)\<rparr>)))"

definition get_Session :: "string \<Rightarrow> Registry \<Rightarrow> Session option" where
  "get_Session executionID r = (case map_of (reg_records r) executionID of
     None \<Rightarrow> None | Some rec \<Rightarrow> tr_session rec)"

definition close_done :: "Session \<Rightarrow> Registry \<Rightarrow> Registry" where
  "close_done s r = r\<lparr>reg_closed := ss_id s # reg_closed r\<rparr>"

definition CloseSession :: "string \<Rightarrow> Registry \<Rightarrow> Registry" where
  "CloseSession executionID r = (case map_of (reg_records r) executionID of
     None \<Rightarrow> r
   | Some rec \<Rightarrow> (case tr_session rec of None \<Rightarrow> r
       | Some s \<Rightarrow> (close_done s r)\<lparr>reg_records := map_put executionID (rec\<lparr>tr_session := None\<rparr>) (reg_records r)\<rparr>))"

definition Invalidate :: "string \<Rightarrow> Registry \<Rightarrow> Registry" where
  "Invalidate executionID r =
     (let r1 = (case get_Session executionID r of None \<Rightarrow> r | Some s \<Rightarrow> close_done s r)
      in r1\<lparr>reg_records := map_delete executionID (reg_records r)\<rparr>)"

definition Release_session :: "Session \<Rightarrow> Registry \<Rightarrow> Registry" where
  "Release_session session r = (case map_of (reg_records r) (ss_ExecutionID session) of
     None \<Rightarrow> r
   | Some rec \<Rightarrow> (case tr_session rec of None \<Rightarrow> r
       | Some s \<Rightarrow> if ss_id s = ss_id session
           then (close_done session r)\<lparr>reg_records :=
             map_put (ss_ExecutionID session) (rec\<lparr>tr_session := None\<rparr>) (reg_records r)\<rparr>
           else r))"

definition Active :: "Session option \<Rightarrow> Registry \<Rightarrow> bool" where
  "Active s r = (case s of None \<Rightarrow> False | Some session \<Rightarrow>
     (case map_of (reg_records r) (ss_ExecutionID session) of None \<Rightarrow> False
      | Some rec \<Rightarrow> (case tr_session rec of None \<Rightarrow> False | Some t \<Rightarrow> ss_id t = ss_id session)))"

definition ResolveTarget :: "16 word \<Rightarrow> Session \<Rightarrow> Registry \<Rightarrow> Target option" where
  "ResolveTarget port s r =
     (if ss_id s \<in> set (reg_closed r) then None else List.find (\<lambda>t. tg_Port t = port) (ss_Targets s))"

section \<open>Invariant\<close>

text \<open>
  A recorded session belongs to its execution, was handed out, is recorded once and its channel is open,
  so closing it does not panic; no channel has been closed twice.
\<close>

definition registry_ok :: "Registry \<Rightarrow> bool" where
  "registry_ok r \<longleftrightarrow> wf_map (reg_records r) \<and> distinct (reg_closed r) \<and> (\<forall>i\<in>set (reg_closed r). i < reg_next r)
     \<and> (\<forall>x s. get_Session x r = Some s \<longrightarrow>
          ss_ExecutionID s = x \<and> ss_id s < reg_next r \<and> ss_id s \<notin> set (reg_closed r))
     \<and> (\<forall>x y s t. get_Session x r = Some s \<longrightarrow> get_Session y r = Some t \<longrightarrow> ss_id s = ss_id t \<longrightarrow> x = y)"

lemma registry_ok_new: "registry_ok NewRegistry"
  by (simp add: registry_ok_def NewRegistry_def get_Session_def)

lemma registry_ok_session:
  "registry_ok r \<Longrightarrow> get_Session x r = Some s \<Longrightarrow>
     ss_ExecutionID s = x \<and> ss_id s < reg_next r \<and> ss_id s \<notin> set (reg_closed r)"
  by (simp add: registry_ok_def)

lemma registry_ok_unique:
  "registry_ok r \<Longrightarrow> get_Session x r = Some s \<Longrightarrow> get_Session y r = Some t \<Longrightarrow> ss_id s = ss_id t \<Longrightarrow> x = y"
  unfolding registry_ok_def by blast

text \<open>The effect of each operation on the sessions.\<close>

lemma Bind_session [simp]: "get_Session y (snd (Bind x k ts ep r)) = get_Session y r"
  by (auto simp: Bind_def get_Session_def Let_def split: option.split)

lemma Bind_fields [simp]:
  "reg_next (snd (Bind x k ts ep r)) = reg_next r" "reg_closed (snd (Bind x k ts ep r)) = reg_closed r"
  "wf_map (reg_records r) \<Longrightarrow> wf_map (reg_records (snd (Bind x k ts ep r)))"
  by (auto simp: Bind_def Let_def)

lemma Open_fail: "fst (Open x k r) = Inl e \<Longrightarrow> snd (Open x k r) = r"
  by (auto simp: Open_def Let_def split: option.splits if_splits)

lemma Open_ok:
  assumes "Open x k r = (Inr s, r')"
  shows "get_Session y r' = (if y = x then Some s else get_Session y r)" "get_Session x r = None"
    "ss_ExecutionID s = x" "ss_id s = reg_next r" "reg_next r' = Suc (reg_next r)" "reg_closed r' = reg_closed r"
    "wf_map (reg_records r) \<Longrightarrow> wf_map (reg_records r')"
    "\<exists>rec. map_of (reg_records r) x = Some rec \<and> tr_peerKey rec = k \<and> ss_Targets s = tr_targets rec"
    "ss_PeerKey s = k"
  using assms by (auto simp: Open_def get_Session_def Let_def split: option.splits if_splits)

lemma CloseSession_session: "get_Session y (CloseSession x r) = (if y = x then None else get_Session y r)"
  by (auto simp: CloseSession_def get_Session_def close_done_def split: option.split)

lemma CloseSession_fields:
  "reg_closed (CloseSession x r) = (case get_Session x r of None \<Rightarrow> reg_closed r | Some s \<Rightarrow> ss_id s # reg_closed r)"
  "reg_next (CloseSession x r) = reg_next r"
  "wf_map (reg_records r) \<Longrightarrow> wf_map (reg_records (CloseSession x r))"
  by (auto simp: CloseSession_def get_Session_def close_done_def split: option.split)

lemma Invalidate_session: "get_Session y (Invalidate x r) = (if y = x then None else get_Session y r)"
  by (auto simp: Invalidate_def get_Session_def close_done_def Let_def split: option.split)

lemma Invalidate_fields:
  "reg_closed (Invalidate x r) = (case get_Session x r of None \<Rightarrow> reg_closed r | Some s \<Rightarrow> ss_id s # reg_closed r)"
  "reg_next (Invalidate x r) = reg_next r"
  "wf_map (reg_records r) \<Longrightarrow> wf_map (reg_records (Invalidate x r))"
  "map_of (reg_records (Invalidate x r)) y = (if y = x then None else map_of (reg_records r) y)"
  by (auto simp: Invalidate_def get_Session_def close_done_def Let_def split: option.split)

lemma Release_session_cases:
  "Release_session s r = r \<or>
     (\<exists>t. get_Session (ss_ExecutionID s) r = Some t \<and> ss_id t = ss_id s \<and> Release_session s r = CloseSession (ss_ExecutionID s) r)"
  by (auto simp: Release_session_def CloseSession_def get_Session_def close_done_def split: option.split)

text \<open>Closing the session of one execution, which both \<open>CloseSession\<close> and \<open>Invalidate\<close> do.\<close>

lemma registry_ok_close:
  assumes "registry_ok r" "wf_map (reg_records r')" "reg_next r' = reg_next r"
    and "\<And>y. get_Session y r' = (if y = x then None else get_Session y r)"
    and "reg_closed r' = (case get_Session x r of None \<Rightarrow> reg_closed r | Some s \<Rightarrow> ss_id s # reg_closed r)"
  shows "registry_ok r'"
proof (cases "get_Session x r")
  case None
  with assms show ?thesis by (auto simp: registry_ok_def split: if_splits)
next
  case (Some s)
  have "ss_id t \<noteq> ss_id s" if "get_Session y r = Some t" "y \<noteq> x" for y t
    using registry_ok_unique[OF assms(1) Some that(1)] that(2) by auto
  with Some assms show ?thesis by (auto simp: registry_ok_def split: if_splits)
qed

lemma registry_ok_CloseSession: "registry_ok r \<Longrightarrow> registry_ok (CloseSession x r)"
  by (rule registry_ok_close) (auto simp: CloseSession_fields CloseSession_session registry_ok_def)

lemma registry_ok_Invalidate: "registry_ok r \<Longrightarrow> registry_ok (Invalidate x r)"
  by (rule registry_ok_close) (auto simp: Invalidate_fields Invalidate_session registry_ok_def)

lemma registry_ok_Release: "registry_ok r \<Longrightarrow> registry_ok (Release_session s r)"
  using Release_session_cases[of s r] registry_ok_CloseSession by metis

lemma registry_ok_Bind: "registry_ok r \<Longrightarrow> registry_ok (snd (Bind x k ts ep r))"
  by (simp add: registry_ok_def)

lemma registry_ok_Open:
  assumes "registry_ok r"
  shows "registry_ok (snd (Open x k r))"
proof (cases "Open x k r")
  case (Pair res r')
  show ?thesis
  proof (cases res)
    case (Inl e)
    with Pair Open_fail[of x k r e] assms show ?thesis by simp
  next
    case (Inr s)
    note o = Open_ok[OF Pair[unfolded Inr]]
    have "ss_id t < reg_next r" if "get_Session y r = Some t" for y t
      using registry_ok_session[OF assms that] by simp
    then have fresh: "\<And>y t. get_Session y r = Some t \<Longrightarrow> ss_id t \<noteq> reg_next r" by (metis less_irrefl)
    show ?thesis
      using assms o fresh Pair registry_ok_unique[OF assms]
      by (auto simp: registry_ok_def less_Suc_eq dest: fresh)
  qed
qed

lemmas registry_ok_ops [intro] = registry_ok_Bind registry_ok_Open registry_ok_CloseSession registry_ok_Release
  registry_ok_Invalidate

lemma Active_iff:
  "Active (Some s) r \<longleftrightarrow> (\<exists>t. get_Session (ss_ExecutionID s) r = Some t \<and> ss_id t = ss_id s)"
  by (auto simp: Active_def get_Session_def split: option.splits)

section \<open>Properties\<close>

datatype registry_op =
    OpBind string bytes "Target list" Endpoint
  | OpOpen string bytes
  | OpCloseSession string
  | OpRelease Session
  | OpInvalidate string

fun apply_op :: "Registry \<Rightarrow> registry_op \<Rightarrow> Registry" where
  "apply_op r (OpBind x k ts ep) = snd (Bind x k ts ep r)"
| "apply_op r (OpOpen x k) = snd (Open x k r)"
| "apply_op r (OpCloseSession x) = CloseSession x r"
| "apply_op r (OpRelease s) = Release_session s r"
| "apply_op r (OpInvalidate x) = Invalidate x r"

lemma apply_ops_ok: "registry_ok r \<Longrightarrow> registry_ok (foldl apply_op r ops)"
proof (induction ops arbitrary: r)
  case (Cons op ops)
  have "registry_ok (apply_op r op)" using Cons.prems by (cases op) auto
  with Cons.IH show ?case by simp
qed simp



text \<open>C29: a session is opened exactly for a bound execution without a live session, to a peer that
  presents the bound key, and it carries the targets bound at that moment.  A peer with another key
  gets the same answer whether or not a session is live, so it cannot probe for one.\<close>

theorem Open_authorized:
  "((\<exists>s r'. Open x k r = (Inr s, r')) \<longleftrightarrow>
      x \<noteq> [] \<and> (\<exists>rec. map_of (reg_records r) x = Some rec \<and> tr_peerKey rec = k \<and> tr_session rec = None))
   \<and> (\<forall>s r'. Open x k r = (Inr s, r') \<longrightarrow> get_Session x r' = Some s \<and> ss_PeerKey s = k
        \<and> map_option tr_targets (map_of (reg_records r) x) = Some (ss_Targets s))
   \<and> (\<forall>rec. x \<noteq> [] \<longrightarrow> map_of (reg_records r) x = Some rec \<longrightarrow> tr_peerKey rec \<noteq> k \<longrightarrow>
        Open x k r = (Inl (err ErrPeerKeyMismatch), r))"
  by (auto simp: Open_def get_Session_def Let_def split: option.splits)

theorem Open_authorized_witness:
  "let r = snd (Bind ''e'' [1] [\<lparr>tg_Port = 80\<rparr>] \<lparr>ep_Address = [2], ep_PubKey = [3]\<rparr> NewRegistry) in
     (\<exists>s r'. Open ''e'' [1] r = (Inr s, r')) \<and> Open ''e'' [9] r = (Inl (err ErrPeerKeyMismatch), r)"
proof -
  let ?r = "snd (Bind ''e'' [1] [\<lparr>tg_Port = 80\<rparr>] \<lparr>ep_Address = [2], ep_PubKey = [3]\<rparr> NewRegistry)"
  have "map_of (reg_records ?r) ''e'' = Some \<lparr>tr_executionID = ''e'', tr_peerKey = [1], tr_targets = [\<lparr>tg_Port = 80\<rparr>],
      tr_endpoint = \<lparr>ep_Address = [2], ep_PubKey = [3]\<rparr>, tr_session = None\<rparr>"
    by (simp add: Bind_def NewRegistry_def Let_def)
  then show ?thesis using Open_authorized[of "''e''" "[1]" ?r] Open_authorized[of "''e''" "[9]" ?r]
    by (simp add: Let_def)
qed

text \<open>C30: revocation is final and releases are exact.  After \<open>Invalidate\<close> the execution has no binding and
  no active session, its former session resolves no target any more, and other executions keep theirs;
  releasing an old session never ends a newer one.\<close>

theorem registry_revocation:
  assumes "registry_ok r"
  shows "(\<forall>k. Open x k (Invalidate x r) = (Inl (if x = [] then GoError [] ''invalid tunnel open: execution ID is required''
            else err ErrTunnelNotBound), Invalidate x r))
     \<and> (\<forall>s port. get_Session x r = Some s \<longrightarrow> \<not> Active (Some s) (Invalidate x r) \<and> ResolveTarget port s (Invalidate x r) = None)
     \<and> (\<forall>s. ss_ExecutionID s \<noteq> x \<longrightarrow> Active (Some s) (Invalidate x r) = Active (Some s) r)
     \<and> (\<forall>s t. Active (Some t) r \<longrightarrow> ss_id s \<noteq> ss_id t \<longrightarrow> Active (Some t) (Release_session s r))"
proof -
  have "Active (Some t) (Release_session s r)" if "Active (Some t) r" "ss_id s \<noteq> ss_id t" for s t
    using Release_session_cases[of s r] that by (auto simp: Active_iff CloseSession_session)
  then show ?thesis
    using registry_ok_session[OF assms]
    by (auto simp: Open_def Invalidate_fields Active_iff Invalidate_session ResolveTarget_def)
qed

theorem registry_revocation_witness:
  "fst (Open ''e'' [1] (Invalidate ''e'' NewRegistry)) = Inl (err ErrTunnelNotBound)"
  using registry_revocation[OF registry_ok_new, of "''e''"] by simp

end
