(* ===== verification/Json_Text.thy ===== *)
theory Json_Text
  imports Prelude
begin

text \<open>
  Strings through \<open>encoding/json\<close> and \<open>unicode/utf8\<close> of the Go standard library.  A Go string may hold any
  bytes; \<open>json.Marshal\<close> coerces it to valid UTF-8 by replacing every byte that does not start a valid rune
  by the replacement character, so what \<open>json.Unmarshal\<close> gives back is \<open>json_string\<close> of the original.
\<close>

section \<open>Runes\<close>

definition byte_in :: "nat \<Rightarrow> nat \<Rightarrow> char \<Rightarrow> bool" where
  "byte_in lo hi c \<longleftrightarrow> lo \<le> of_char c \<and> of_char c \<le> hi"

text \<open>The ranges of the bytes that follow a first byte, \<open>None\<close> if no rune starts with it.\<close>

definition rune_ranges :: "nat \<Rightarrow> (nat \<times> nat) list option" where
  "rune_ranges b =
     (if b < 128 then Some []
      else if 194 \<le> b \<and> b \<le> 223 then Some [(128, 191)]
      else if 224 \<le> b \<and> b \<le> 239 then Some [(if b = 224 then 160 else 128, if b = 237 then 159 else 191), (128, 191)]
      else if 240 \<le> b \<and> b \<le> 244
      then Some [(if b = 240 then 144 else 128, if b = 244 then 143 else 191), (128, 191), (128, 191)]
      else None)"

fun follows :: "(nat \<times> nat) list \<Rightarrow> string \<Rightarrow> bool" where
  "follows [] s = True"
| "follows (r # rs) [] = False"
| "follows (r # rs) (c # s) = (byte_in (fst r) (snd r) c \<and> follows rs s)"

text \<open>The length of the valid encoding a string starts with, 0 if there is none (\<open>utf8.DecodeRuneInString\<close>).\<close>

fun rune_width :: "string \<Rightarrow> nat" where
  "rune_width [] = 0"
| "rune_width (c # s) = (case rune_ranges (of_char c) of None \<Rightarrow> 0
     | Some rs \<Rightarrow> if follows rs s then Suc (length rs) else 0)"

definition rune_error :: string where
  "rune_error = [CHR 0xEF, CHR 0xBF, CHR 0xBD]"

function json_string :: "string \<Rightarrow> string" where
  "json_string s = (case s of [] \<Rightarrow> []
     | c # r \<Rightarrow> (let n = rune_width s in
         if n = 0 then rune_error @ json_string r else take n s @ json_string (drop n s)))"
  by pat_completeness auto
termination by (relation "measure length") auto

function valid_utf8 :: "string \<Rightarrow> bool" where
  "valid_utf8 s = (if s = [] then True else if rune_width s = 0 then False else valid_utf8 (drop (rune_width s) s))"
  by pat_completeness auto
termination by (relation "measure length") auto

declare json_string.simps [simp del] valid_utf8.simps [simp del]

section \<open>Lemmas\<close>

lemma json_string_Nil [simp]: "json_string [] = []"
  by (subst json_string.simps) simp

lemma valid_utf8_Nil [simp]: "valid_utf8 []"
  by (subst valid_utf8.simps) simp

lemma follows_length: "follows rs s \<Longrightarrow> length rs \<le> length s"
  by (induction rs s rule: follows.induct) auto

lemma follows_append: "follows rs s \<Longrightarrow> follows rs (s @ t)"
  by (induction rs s rule: follows.induct) auto

lemma follows_take: "follows rs s \<Longrightarrow> follows rs (take (length rs) s @ t)"
  by (induction rs s rule: follows.induct) auto

lemma rune_width_le: "rune_width s \<le> length s"
  by (cases s) (auto dest: follows_length split: option.split)

lemma rune_width_append: "rune_width s \<noteq> 0 \<Longrightarrow> rune_width (s @ t) = rune_width s"
  by (cases s) (auto dest: follows_append split: option.splits if_splits)

lemma rune_width_take: "rune_width s \<noteq> 0 \<Longrightarrow> rune_width (take (rune_width s) s @ t) = rune_width s"
  by (cases s) (auto dest: follows_take split: option.splits if_splits)

lemma rune_width_error: "rune_width (rune_error @ t) = 3"
  by (simp add: rune_error_def byte_in_def rune_ranges_def)

lemma valid_utf8_step: "rune_width s \<noteq> 0 \<Longrightarrow> valid_utf8 s = valid_utf8 (drop (rune_width s) s)"
  by (subst valid_utf8.simps) auto

lemma valid_utf8_append: "valid_utf8 s \<Longrightarrow> valid_utf8 t \<Longrightarrow> valid_utf8 (s @ t)"
proof (induction s rule: valid_utf8.induct)
  case (1 s)
  show ?case
  proof (cases "s = []")
    case False
    then have w: "rune_width s \<noteq> 0" using 1(2) by (subst (asm) valid_utf8.simps) (auto split: if_splits)
    then have "valid_utf8 (drop (rune_width s) s @ t)"
      using 1 False by (subst (asm) valid_utf8_step) auto
    then show ?thesis
      using w rune_width_le[of s] by (subst valid_utf8_step) (auto simp: rune_width_append)
  qed (use 1 in simp)
qed

lemma json_string_valid_id: "valid_utf8 s \<Longrightarrow> json_string s = s"
proof (induction s rule: valid_utf8.induct)
  case (1 s)
  then show ?case
    by (subst json_string.simps) (auto simp: valid_utf8.simps [of s] Let_def split: list.split)
qed

lemma valid_rune: "rune_width s \<noteq> 0 \<Longrightarrow> valid_utf8 t \<Longrightarrow> valid_utf8 (take (rune_width s) s @ t)"
  using rune_width_take[of s t] rune_width_le[of s] by (subst valid_utf8_step) auto

lemma valid_json_string [simp]: "valid_utf8 (json_string s)"
proof (induction s rule: json_string.induct)
  case (1 s)
  show ?case
  proof (cases s)
    case (Cons c r)
    have e: "valid_utf8 (rune_error @ json_string r)" if "rune_width s = 0"
      using 1(1)[OF Cons refl that] rune_width_error[of "json_string r"]
      by (subst valid_utf8_step) (simp_all add: rune_error_def)
    have t: "valid_utf8 (take (rune_width s) s @ json_string (drop (rune_width s) s))" if "rune_width s \<noteq> 0"
      using 1(2)[OF Cons refl that] valid_rune[OF that] by simp
    show ?thesis using e t Cons by (subst json_string.simps) (auto simp: Let_def)
  qed simp
qed

text \<open>A string survives exactly when it is valid UTF-8.\<close>

lemma json_string_id_iff: "json_string s = s \<longleftrightarrow> valid_utf8 s"
  using valid_json_string[of s] json_string_valid_id[of s] by metis

text \<open>A NUL byte is a rune boundary.\<close>

lemma follows_zero:
  "follows rs (s @ CHR 0x00 # t) \<Longrightarrow> \<forall>r\<in>set rs. 0 < fst r \<Longrightarrow> follows rs s"
proof (induction rs s rule: follows.induct)
  case (2 r rs)
  then show ?case by (simp add: byte_in_def)
qed auto

lemma rune_ranges_pos: "rune_ranges b = Some rs \<Longrightarrow> \<forall>r\<in>set rs. 0 < fst r"
  by (auto simp: rune_ranges_def split: if_splits)

lemma rune_width_zero: "rune_width (s @ CHR 0x00 # t) \<noteq> 0 \<Longrightarrow> s \<noteq> [] \<Longrightarrow> rune_width s = rune_width (s @ CHR 0x00 # t)"
  by (cases s) (auto dest: follows_zero rune_ranges_pos follows_append split: option.splits if_splits)

lemma valid_utf8_before_zero: "valid_utf8 (s @ CHR 0x00 # t) \<Longrightarrow> valid_utf8 s"
proof (induction s rule: valid_utf8.induct)
  case (1 s)
  show ?case
  proof (cases "s = []")
    case False
    have w: "rune_width (s @ CHR 0x00 # t) \<noteq> 0" using 1(2) by (subst (asm) valid_utf8.simps) (auto split: if_splits)
    note e = rune_width_zero[OF w False]
    have "valid_utf8 (drop (rune_width s) (s @ CHR 0x00 # t))" using 1(2) w e valid_utf8_step by metis
    then have "valid_utf8 (drop (rune_width s) s)"
      using 1(1)[OF False] w e rune_width_le[of s] by simp
    then show ?thesis using w e by (subst valid_utf8_step) auto
  qed simp
qed

end
