(* ===== verification/Alloc_State.thy ===== *)
theory Alloc_State
  imports Capacity Replay Tunnel_Registry Json_Text
begin

text \<open>
  The state of the allocator and the operations its handlers share: \<open>internal/allocator/config.go\<close>,
  \<open>allocator.go\<close>, \<open>admission.go\<close>, \<open>views.go\<close>, \<open>retention_policy.go\<close>, \<open>runtime_bridge.go\<close>, the schema
  \<open>state_schema.go\<close> and \<open>persistLocked\<close> of \<open>state.go\<close>.  Every operation is a function of the state it finds
  under the allocator's lock; clock readings, generated identifiers and the outcome of a save are
  arguments.  Telemetry is left out: it reads the state and never changes it.  A protobuf message
  inside a durable record is stored as the message, \<open>None\<close> standing for bytes that do not decode.
\<close>

section \<open>Records\<close>

record Resources =
  rs_MemoryBytes :: int
  rs_CPUMilli :: int
  rs_Pids :: int

definition no_resources :: Resources where
  "no_resources = \<lparr>rs_MemoryBytes = 0, rs_CPUMilli = 0, rs_Pids = 0\<rparr>"

definition Resources_Validate :: "Resources \<Rightarrow> bool" where
  "Resources_Validate r = (if r = no_resources then True
     else \<not> (rs_MemoryBytes r < 1048576 \<or> rs_CPUMilli r \<le> 0 \<or> rs_CPUMilli r > 1000000
             \<or> rs_Pids r \<le> 0 \<or> rs_Pids r > 1000000))"

record Quota =
  q_Offers :: "32 word"
  q_Executions :: "32 word"

record AdmissionPolicy =
  ap_Profiles :: "(string, Resources) gomap"
  ap_AllowedClients :: "string list option"
  ap_DefaultQuota :: Quota
  ap_ClientQuotas :: "(string, Quota) gomap"

datatype offerStatus = offerOutstanding | offerAssigned | offerExpired | offerReleased

record offerRecord =
  or_offer :: ExecutionOffer
  or_request :: ExecutionRequest
  or_client :: bytes
  or_status :: offerStatus
  or_execution :: string
  or_resources :: Resources

record executionRecord =
  er_id :: string
  er_offerID :: string
  er_client :: bytes
  er_resourceClass :: string
  er_request :: ExecutionRequest
  er_phase :: ExecutionPhase
  er_detail :: string
  er_exitCode :: "int option"
  er_occurredAt :: gotime
  er_startedAt :: gotime
  er_released :: bool
  er_retainUntil :: gotime
  er_leaseUntil :: gotime
  er_revision :: "64 word"
  er_resources :: Resources

record tombstone =
  td_Client :: bytes
  td_RequestID :: string
  td_OfferID :: string
  td_ExecutionID :: string
  td_ExpiresAt :: gotime
  td_CleanupPending :: bool

record TunnelConfig =
  tc_Enabled :: bool
  tc_Endpoint :: Endpoint

section \<open>The durable schema\<close>

definition stateVersion :: int where "stateVersion = 2"

record persistedOffer =
  po_Resources :: Resources
  po_Offer :: "ExecutionOffer option"
  po_Request :: "ExecutionRequest option"
  po_Client :: bytes
  po_LegacySender :: bytes
  po_Status :: nat
  po_Execution :: string

record persistedExecution =
  pe_RetainUntil :: gotime
  pe_LeaseUntil :: gotime
  pe_Resources :: Resources
  pe_ID :: string
  pe_OfferID :: string
  pe_Client :: bytes
  pe_LegacySender :: bytes
  pe_ResourceClass :: string
  pe_Request :: "ExecutionRequest option"
  pe_Phase :: ExecutionPhase
  pe_Detail :: string
  pe_ExitCode :: "int option"
  pe_OccurredAt :: gotime
  pe_StartedAt :: gotime
  pe_Released :: bool
  pe_Revision :: "64 word"

record persistedReplay =
  pr_Key :: string
  pr_SeenAt :: gotime
  pr_Envelope :: "Envelope option"
  pr_Responses :: "Envelope option list"
  pr_Error :: string
  pr_ErrorCode :: string
  pr_Complete :: bool

record persistedState =
  ps_HighWater :: gotime
  ps_Tombstones :: "(string, tombstone) gomap"
  ps_Version :: int
  ps_Identity :: bytes
  ps_Offers :: "persistedOffer list"
  ps_Executions :: "persistedExecution list"
  ps_Replay :: "persistedReplay list"

section \<open>The allocator\<close>

text \<open>\<open>al_store\<close> is \<open>None\<close> without a state store, and otherwise what the store holds.\<close>

record Allocator =
  al_maxRecords :: int
  al_highWater :: gotime
  al_tombstones :: "(string, tombstone) gomap"
  al_identity :: bytes
  al_capacity :: capacityLedger
  al_offerTTL :: duration
  al_leaseTTL :: duration
  al_retention :: duration
  al_store :: "persistedState option option"
  al_admission :: AdmissionPolicy
  al_node :: "NodeCapabilities option"
  al_offers :: "(string, offerRecord) gomap"
  al_requests :: "(string, string) gomap"
  al_executions :: "(string, executionRecord) gomap"
  al_replay :: replayCache
  al_tunnels :: Registry
  al_tunnelConfig :: TunnelConfig

section \<open>Policy constants and the clock\<close>

definition CommandHorizon :: duration where "CommandHorizon = 7 * 24 * hour"
definition DefaultRetention :: duration where "DefaultRetention = 24 * hour"
definition DefaultMaxRecords :: int where "DefaultMaxRecords = 10000"
definition maxLeaseTTL :: duration where "maxLeaseTTL = CommandHorizon"
definition defaultOfferTTL :: duration where "defaultOfferTTL = 30 * second"
definition defaultReplayTTL :: duration where "defaultReplayTTL = 10 * minute"
definition defaultReplayCapacity :: int where "defaultReplayCapacity = 4096"
definition defaultLeaseTTL :: duration where "defaultLeaseTTL = DefaultLease"

definition retention :: "duration \<Rightarrow> duration" where
  "retention configured = min configured CommandHorizon"

definition effectiveNowLocked :: "gotime \<Rightarrow> Allocator \<Rightarrow> Allocator \<times> gotime" where
  "effectiveNowLocked now a =
     (let a' = (if now > al_highWater a then a\<lparr>al_highWater := now\<rparr> else a) in (a', al_highWater a'))"

section \<open>Keys and envelopes\<close>

definition string_of_bytes :: "bytes \<Rightarrow> string" where
  "string_of_bytes bs = map (\<lambda>b. char_of (unat b)) bs"

definition authorityKey :: "bytes \<Rightarrow> string \<Rightarrow> string" where
  "authorityKey identity i = string_of_bytes identity @ [CHR 0x00] @ i"

definition stateFromRecord :: "pblib \<Rightarrow> executionRecord \<Rightarrow> ExecutionState" where
  "stateFromRecord W r = \<lparr>st_execution_id = er_id r, st_phase = er_phase r,
     st_occurred_at = Some (ts_New W (er_occurredAt r)), st_detail = er_detail r,
     st_exit_code = er_exitCode r, st_revision = er_revision r\<rparr>"

definition offerEnvelopeLocked ::
  "pblib \<Rightarrow> string \<Rightarrow> ExecutionOffer \<Rightarrow> string \<Rightarrow> gotime \<Rightarrow> Allocator \<Rightarrow> go_error + Envelope" where
  "offerEnvelopeLocked W messageID offer correlationID now a =
     (if messageID = [] then Inl (wrap ErrInvalidConfig ''empty message ID'')
      else Inr \<lparr>message_id = messageID, sender = al_identity a, correlation_id = correlationID,
             sent_at = Some (ts_New W now), payload = Some (Envelope_ExecutionOffer (Some offer))\<rparr>)"

definition stateEnvelopeLocked ::
  "pblib \<Rightarrow> string \<Rightarrow> executionRecord option \<Rightarrow> string \<Rightarrow> gotime \<Rightarrow> Allocator \<Rightarrow> go_error + Envelope" where
  "stateEnvelopeLocked W messageID rec correlationID now a = (case rec of
     None \<Rightarrow> Inl (wrap ErrExecutionNotFound ''missing execution record'')
   | Some r \<Rightarrow>
      if messageID = [] then Inl (wrap ErrInvalidConfig ''empty message ID'')
      else Inr \<lparr>message_id = messageID, sender = al_identity a, correlation_id = correlationID,
             sent_at = Some (ts_New W now), payload = Some (Envelope_ExecutionState (Some (stateFromRecord W r)))\<rparr>)"

definition errorResponse :: "pblib \<Rightarrow> string \<Rightarrow> gotime \<Rightarrow> Envelope \<Rightarrow> go_error \<Rightarrow> Allocator \<Rightarrow> Envelope list" where
  "errorResponse W rid now command e a = [error_envelope W (al_identity a) rid now command e]"

section \<open>Admission\<close>

definition hex_digit_char :: "nat \<Rightarrow> char" where
  "hex_digit_char n = (if n < 10 then char_of (n + 48) else char_of (n + 87))"

definition hex_EncodeToString :: "bytes \<Rightarrow> string" where
  "hex_EncodeToString bs = concat (map (\<lambda>b. [hex_digit_char (unat b div 16), hex_digit_char (unat b mod 16)]) bs)"

definition validIdentity :: "string \<Rightarrow> bool" where
  "validIdentity i = (case hex_DecodeString i of None \<Rightarrow> False
     | Some b \<Rightarrow> length b = 16 \<and> hex_EncodeToString b = i)"

definition admission_validate :: "AdmissionPolicy \<Rightarrow> (string, 32 word) gomap \<Rightarrow> bool" where
  "admission_validate p cap \<longleftrightarrow>
     list_all (\<lambda>(class, r). get_num cap class \<noteq> 0 \<and> Resources_Validate r) (ap_Profiles p)
     \<and> list_all validIdentity (case ap_AllowedClients p of None \<Rightarrow> [] | Some ids \<Rightarrow> ids)
     \<and> list_all (\<lambda>(i, q). validIdentity i) (ap_ClientQuotas p)"

definition client_offers :: "bytes \<Rightarrow> Allocator \<Rightarrow> 32 word" where
  "client_offers owner a = word_of_nat (length (filter (\<lambda>(i, offer).
     or_status offer = offerOutstanding \<and> or_client offer = owner) (al_offers a)))"

definition client_executions :: "bytes \<Rightarrow> Allocator \<Rightarrow> 32 word" where
  "client_executions owner a = word_of_nat (length (filter (\<lambda>(i, execution).
     \<not> Terminal (er_phase execution) \<and> er_client execution = owner) (al_executions a)))"

definition admitLocked :: "bytes \<Rightarrow> bool \<Rightarrow> Allocator \<Rightarrow> go_error option" where
  "admitLocked owner assigning a =
     (let p = al_admission a; i = hex_EncodeToString owner in
      if (case ap_AllowedClients p of None \<Rightarrow> False | Some ids \<Rightarrow> \<not> list_ex (\<lambda>c. c = i) ids)
      then Some (err ErrAdmission)
      else let quota = (case map_of (ap_ClientQuotas p) i of Some specific \<Rightarrow> specific | None \<Rightarrow> ap_DefaultQuota p)
      in if assigning \<and> q_Executions quota > 0 \<and> client_executions owner a \<ge> q_Executions quota
         then Some (err ErrCapacityExhausted)
         else if \<not> assigning \<and> q_Offers quota > 0 \<and> client_offers owner a \<ge> q_Offers quota
         then Some (err ErrCapacityExhausted) else None)"

section \<open>Expiry and completion\<close>

fun expire_loop ::
  "pblib \<Rightarrow> gotime \<Rightarrow> (string, offerRecord) gomap \<Rightarrow> capacityLedger \<Rightarrow> (string, offerRecord) gomap \<times> capacityLedger \<times> nat" where
  "expire_loop W now [] l = ([], l, 0)"
| "expire_loop W now ((i, offer) # m) l =
     (if or_status offer = offerOutstanding \<and> \<not> AsTime W (of_expires_at (or_offer offer)) > now
      then (case expire_loop W now m (release (of_resource_class (or_offer offer)) l) of
              (m', l', n) \<Rightarrow> ((i, offer\<lparr>or_status := offerExpired\<rparr>) # m', l', Suc n))
      else (case expire_loop W now m l of (m', l', n) \<Rightarrow> ((i, offer) # m', l', n)))"

definition expireOffersLocked :: "pblib \<Rightarrow> gotime \<Rightarrow> Allocator \<Rightarrow> Allocator \<times> nat" where
  "expireOffersLocked W now a = (case expire_loop W now (al_offers a) (al_capacity a) of
     (m, l, n) \<Rightarrow> (a\<lparr>al_offers := m, al_capacity := l\<rparr>, n))"

text \<open>\<open>finishLocked\<close> on the execution with key \<open>x\<close>, which the callers have looked up.\<close>

definition finishLocked ::
  "string \<Rightarrow> executionRecord \<Rightarrow> ExecutionPhase \<Rightarrow> string \<Rightarrow> int option \<Rightarrow> gotime \<Rightarrow> Allocator \<Rightarrow> Allocator" where
  "finishLocked x r phase detail exitCode now a =
     (let endAt = (if al_highWater a > now then al_highWater a else now);
          r1 = r\<lparr>er_phase := phase, er_detail := detail, er_exitCode := exitCode, er_occurredAt := now,
                 er_revision := er_revision r + 1, er_retainUntil := endAt + al_retention a\<rparr>;
          cap = (if \<not> er_released r then release (er_resourceClass r) (al_capacity a) else al_capacity a)
      in a\<lparr>al_executions := map_put x (r1\<lparr>er_released := True\<rparr>) (al_executions a), al_capacity := cap,
           al_tunnels := Invalidate (er_id r) (al_tunnels a)\<rparr>)"

section \<open>Persistence\<close>

fun status_num :: "offerStatus \<Rightarrow> nat" where
  "status_num offerOutstanding = 1"
| "status_num offerAssigned = 2"
| "status_num offerExpired = 3"
| "status_num offerReleased = 4"

definition persist_offer :: "offerRecord \<Rightarrow> persistedOffer" where
  "persist_offer r = \<lparr>po_Resources = or_resources r, po_Offer = Some (or_offer r), po_Request = Some (or_request r),
     po_Client = or_client r, po_LegacySender = [], po_Status = status_num (or_status r), po_Execution = or_execution r\<rparr>"

definition persist_execution :: "executionRecord \<Rightarrow> persistedExecution" where
  "persist_execution r = \<lparr>pe_RetainUntil = er_retainUntil r, pe_LeaseUntil = er_leaseUntil r,
     pe_Resources = er_resources r, pe_ID = er_id r, pe_OfferID = er_offerID r, pe_Client = er_client r,
     pe_LegacySender = [], pe_ResourceClass = er_resourceClass r, pe_Request = Some (er_request r),
     pe_Phase = er_phase r, pe_Detail = er_detail r, pe_ExitCode = er_exitCode r, pe_OccurredAt = er_occurredAt r,
     pe_StartedAt = er_startedAt r, pe_Released = er_released r, pe_Revision = er_revision r\<rparr>"

definition persist_replay :: "string \<times> replayEntry \<Rightarrow> persistedReplay" where
  "persist_replay ke = (case ke of (key, entry) \<Rightarrow>
     \<lparr>pr_Key = key, pr_SeenAt = re_seenAt entry, pr_Envelope = Some (re_envelope entry),
      pr_Responses = (if replayDone entry then map Some (re_responses entry) else []),
      pr_Error = (if replayDone entry then case re_err entry of None \<Rightarrow> [] | Some e \<Rightarrow> Error e else []),
      pr_ErrorCode = (if replayDone entry then case re_err entry of None \<Rightarrow> []
        | Some e \<Rightarrow> classifyError durableErrors e else []),
      pr_Complete = replayDone entry\<rparr>)"

definition persisted_snapshot :: "Allocator \<Rightarrow> persistedState" where
  "persisted_snapshot a = \<lparr>ps_HighWater = al_highWater a, ps_Tombstones = al_tombstones a,
     ps_Version = stateVersion, ps_Identity = al_identity a,
     ps_Offers = map (\<lambda>(i, r). persist_offer r) (al_offers a),
     ps_Executions = map (\<lambda>(i, r). persist_execution r) (al_executions a),
     ps_Replay = map persist_replay (rc_entries (al_replay a))\<rparr>"

text \<open>\<open>save\<close> is the error of encoding the state or of the store's \<open>Save\<close>, \<open>None\<close> when it commits.\<close>

definition persistLocked :: "go_error option \<Rightarrow> Allocator \<Rightarrow> Allocator \<times> go_error option" where
  "persistLocked save a = (case al_store a of
     None \<Rightarrow> (a, None)
   | Some _ \<Rightarrow> (case save of
        None \<Rightarrow> (a\<lparr>al_store := Some (Some (persisted_snapshot a))\<rparr>, None)
      | Some e \<Rightarrow> (a, Join [Some (err ErrStore), Some e])))"

section \<open>Elementary lemmas\<close>

lemma persistLocked_fail: "persistLocked sv a = (a', Some e) \<Longrightarrow> a' = a \<and> errors_Is e ErrStore"
  by (auto simp: persistLocked_def Join_def err_def errors_Is_def split: option.splits)

lemma persistLocked_ok:
  "persistLocked sv a = (a', None) \<Longrightarrow>
     a' = (if al_store a = None then a else a\<lparr>al_store := Some (Some (persisted_snapshot a))\<rparr>)"
  by (auto simp: persistLocked_def Join_def split: option.splits)

lemma effectiveNow_fst [simp]:
  "fst (effectiveNowLocked now a) = a\<lparr>al_highWater := max now (al_highWater a)\<rparr>"
  "snd (effectiveNowLocked now a) = max now (al_highWater a)"
  by (auto simp: effectiveNowLocked_def Let_def max_def)

lemma string_of_bytes_inject: "string_of_bytes x = string_of_bytes y \<longleftrightarrow> x = y"
proof -
  have "inj (\<lambda>b :: byte. char_of (unat b) :: char)"
  proof (rule injI)
    fix b c :: byte
    assume "(char_of (unat b) :: char) = char_of (unat c)"
    then have "unat b mod 256 = unat c mod 256" by (metis of_char_of)
    moreover have "unat b < 256" "unat c < 256"
      using unsigned_less [of b, where ?'a = nat] unsigned_less [of c, where ?'a = nat] by simp_all
    ultimately show "b = c" by (simp add: word_unat_eq_iff)
  qed
  then show ?thesis by (simp add: string_of_bytes_def inj_map_eq_map)
qed

lemma authorityKey_nonempty [simp]: "authorityKey c i \<noteq> []"
  by (simp add: authorityKey_def)

lemma authorityKey_same_client [simp]: "authorityKey c i = authorityKey c j \<longleftrightarrow> i = j"
  by (simp add: authorityKey_def)

lemma authorityKey_inject:
  "length c = length d \<Longrightarrow> authorityKey c i = authorityKey d j \<longleftrightarrow> c = d \<and> i = j"
proof -
  assume "length c = length d"
  then have "length (string_of_bytes c) = length (string_of_bytes d)" by (simp add: string_of_bytes_def)
  then show ?thesis by (auto simp: authorityKey_def string_of_bytes_inject)
qed

end
