(* ===== verification/Alloc_Handlers.thy ===== *)
theory Alloc_Handlers
  imports Alloc_State
begin

text \<open>
  The command handlers of the allocator, one definition per section that runs under its lock:
  \<open>offers.go\<close>, \<open>assign.go\<close>, \<open>cancel.go\<close>, \<open>lease.go\<close>, \<open>release.go\<close>, \<open>logs.go\<close>, \<open>tunnel.go\<close>,
  \<open>runtime_bridge.go\<close>, and the replay and freshness sections of \<open>dispatch.go\<close>, \<open>replay.go\<close> and
  \<open>retention_policy.go\<close>.  A handler that gives up the lock around a runtime call is split there:
  its first part returns what it waits for, its second part takes the runtime's answer.  Where the
  code would dereference a nil record the second part is \<open>None\<close>; the invariant of the system shows
  that this never happens.
\<close>

type_synonym reply = "Envelope list \<times> go_error option"

definition fail :: "sentinel \<Rightarrow> reply" where
  "fail s = ([], Some (err s))"

fun reply_of :: "go_error + Envelope \<Rightarrow> reply" where
  "reply_of (Inl e) = ([], Some e)"
| "reply_of (Inr v) = ([v], None)"

section \<open>Inspect\<close>

definition handleInspect :: "pblib \<Rightarrow> gotime \<Rightarrow> string \<Rightarrow> Envelope \<Rightarrow> ExecutionInspect \<Rightarrow> Allocator \<Rightarrow> reply" where
  "handleInspect W now mid envelope inspect a =
     (case map_of (al_executions a) (in_execution_id inspect) of
        None \<Rightarrow> fail ErrExecutionNotFound
      | Some rec \<Rightarrow>
          if er_client rec \<noteq> sender envelope then fail ErrUnauthorized
          else reply_of (stateEnvelopeLocked W mid (Some rec) (message_id envelope) now a))"

section \<open>Request\<close>

text \<open>The part of \<open>handleRequest\<close> after the checks: the offer is recorded, its slot reserved and the state
  saved; a failure takes both back.  \<open>id1\<close> is the offer identifier, \<open>id2\<close> the message identifier.\<close>

definition new_offer :: "pblib \<Rightarrow> gotime \<Rightarrow> string \<Rightarrow> Envelope \<Rightarrow> ExecutionRequest \<Rightarrow> Allocator \<Rightarrow> offerRecord" where
  "new_offer W now id1 envelope request a =
     \<lparr>or_offer = \<lparr>of_offer_id = id1, of_request_id = rq_request_id request, of_resource_class = rq_resource_class request,
        of_expires_at = Some (ts_New W (now + al_offerTTL a)), of_node = al_node a\<rparr>,
      or_request = request, or_client = sender envelope, or_status = offerOutstanding, or_execution = [],
      or_resources = (case map_of (ap_Profiles (al_admission a)) (rq_resource_class request) of
        None \<Rightarrow> no_resources | Some r \<Rightarrow> r)\<rparr>"

definition issueOffer ::
  "pblib \<Rightarrow> gotime \<Rightarrow> string \<Rightarrow> string \<Rightarrow> go_error option \<Rightarrow> Envelope \<Rightarrow> ExecutionRequest \<Rightarrow> Allocator \<Rightarrow> Allocator \<times> reply" where
  "issueOffer W now id1 id2 sv envelope request a =
     (let class = rq_resource_class request;
          requestKey = authorityKey (sender envelope) (rq_request_id request);
          rec = new_offer W now id1 envelope request a
      in case offerEnvelopeLocked W id2 (or_offer rec) (message_id envelope) now a of
           Inl e \<Rightarrow> (a, [], Some e)
         | Inr response \<Rightarrow>
             let a1 = a\<lparr>al_offers := map_put id1 rec (al_offers a), al_requests := map_put requestKey id1 (al_requests a)\<rparr>
             in case reserve class (al_capacity a1) of
                  (Some e, _) \<Rightarrow> (a1\<lparr>al_requests := map_delete requestKey (al_requests a1),
                                     al_offers := map_delete id1 (al_offers a1)\<rparr>, [], Some e)
                | (None, l) \<Rightarrow>
                    let a2 = a1\<lparr>al_capacity := l\<rparr> in
                    case persistLocked sv a2 of
                      (a3, None) \<Rightarrow> (a3, [response], None)
                    | (a3, Some e) \<Rightarrow>
                        (a3\<lparr>al_requests := map_delete requestKey (al_requests a3),
                            al_offers := map_delete id1 (al_offers a3),
                            al_capacity := release class (al_capacity a3)\<rparr>, [], Some e))"

text \<open>The branch for a request that has an offer already, and the checks for a new one.\<close>

definition repeatRequest ::
  "pblib \<Rightarrow> gotime \<Rightarrow> string \<Rightarrow> Envelope \<Rightarrow> ExecutionRequest \<Rightarrow> offerRecord \<Rightarrow> Allocator \<Rightarrow> reply" where
  "repeatRequest W now id1 envelope request rec a =
     (if or_status rec = offerExpired then fail ErrOfferExpired
      else if \<not> Equal_request W (or_request rec) request then fail ErrExecutionConflict
      else if or_status rec = offerReleased then fail ErrOfferReleased
      else reply_of (offerEnvelopeLocked W id1 (or_offer rec) (message_id envelope) now a))"

definition requestRefused :: "string \<Rightarrow> Envelope \<Rightarrow> ExecutionRequest \<Rightarrow> Allocator \<Rightarrow> go_error option" where
  "requestRefused id1 envelope request a =
     (let class = rq_resource_class request in
      if list_ex (\<lambda>(i, dead). td_Client dead = sender envelope \<and> td_RequestID dead = rq_request_id request) (al_tombstones a)
      then Some (err ErrResultExpired)
      else if int (length (al_offers a)) * 2 + int (length (al_tombstones a)) + 2 > al_maxRecords a
      then Some (err ErrCapacityExhausted)
      else and_then (admitLocked (sender envelope) False a)
     (if available class (al_capacity a) = 0 then Some (err ErrCapacityExhausted)
      else if \<not> PlacementMatches (rq_constraints request) (al_node a)
      then Some (wrap ErrIncompatible (PlacementConflictDetails (rq_constraints request) (al_node a)))
      else if (case al_node a of None \<Rightarrow> False | Some n \<Rightarrow> \<not> contains (nc_resource_profiles n) class)
      then Some (err ErrAdmission)
      else if id1 = [] then Some (wrap ErrInvalidConfig ''empty offer ID'')
      else if map_of (al_offers a) id1 \<noteq> None then Some (err ErrIDCollision)
      else None))"

definition handleRequest ::
  "pblib \<Rightarrow> gotime \<Rightarrow> string \<Rightarrow> string \<Rightarrow> go_error option \<Rightarrow> Envelope \<Rightarrow> ExecutionRequest \<Rightarrow> Allocator \<Rightarrow> Allocator \<times> reply" where
  "handleRequest W now id1 id2 sv envelope request a0 =
     (let a = fst (expireOffersLocked W now a0);
          fresh = (case requestRefused id1 envelope request a of
             Some e \<Rightarrow> (a, [], Some e)
           | None \<Rightarrow> issueOffer W now id1 id2 sv envelope request a)
      in case map_of (al_requests a) (authorityKey (sender envelope) (rq_request_id request)) of
           None \<Rightarrow> fresh
         | Some offerID \<Rightarrow> (case map_of (al_offers a) offerID of
             None \<Rightarrow> fresh
           | Some rec \<Rightarrow> (a, repeatRequest W now id1 envelope request rec a)))"

section \<open>Assign\<close>

record StartRequest =
  sr_ExecutionID :: string
  sr_RunID :: string
  sr_Attempt :: "64 word"
  sr_Client :: bytes
  sr_Workload :: "Workload option"
  sr_Policy :: "ExecutionPolicy option"
  sr_Resources :: Resources
  sr_StartedAt :: gotime

definition startRequestLocked :: "executionRecord \<Rightarrow> StartRequest" where
  "startRequestLocked r = \<lparr>sr_ExecutionID = er_id r, sr_RunID = rq_run_id (er_request r),
     sr_Attempt = rq_attempt (er_request r), sr_Client = er_client r, sr_Workload = rq_workload (er_request r),
     sr_Policy = rq_policy (er_request r), sr_Resources = er_resources r, sr_StartedAt = er_startedAt r\<rparr>"

datatype assign_step = AssignReply reply | AssignStart StartRequest

definition new_execution :: "gotime \<Rightarrow> string \<Rightarrow> offerRecord \<Rightarrow> Allocator \<Rightarrow> executionRecord" where
  "new_execution now x offer a = \<lparr>er_id = x, er_offerID = of_offer_id (or_offer offer), er_client = or_client offer,
     er_resourceClass = of_resource_class (or_offer offer), er_request = or_request offer,
     er_phase = EXECUTION_PHASE_STARTING, er_detail = [], er_exitCode = None, er_occurredAt = now, er_startedAt = now,
     er_released = False, er_retainUntil = zero_time, er_leaseUntil = now + al_leaseTTL a, er_revision = 1,
     er_resources = or_resources offer\<rparr>"

text \<open>The part of \<open>handleAssign\<close> after the checks: the offer is assigned, the execution recorded and the
  state saved; a failure takes both back.\<close>

definition assignOffer ::
  "gotime \<Rightarrow> go_error option \<Rightarrow> string \<Rightarrow> string \<Rightarrow> offerRecord \<Rightarrow> Allocator \<Rightarrow> Allocator \<times> assign_step" where
  "assignOffer now sv x offerID offer a =
     (let rec = new_execution now x offer a;
          a1 = a\<lparr>al_offers := map_put offerID (offer\<lparr>or_status := offerAssigned, or_execution := x\<rparr>) (al_offers a),
                 al_executions := map_put x rec (al_executions a)\<rparr>
      in case persistLocked sv a1 of
           (a2, None) \<Rightarrow> (a2, AssignStart (startRequestLocked rec))
         | (a2, Some e) \<Rightarrow>
             (a2\<lparr>al_executions := map_delete x (al_executions a2),
                 al_offers := map_put offerID (offer\<lparr>or_status := offerOutstanding, or_execution := []\<rparr>) (al_offers a2)\<rparr>,
              AssignReply ([], Some e)))"

definition handleAssign_begin ::
  "pblib \<Rightarrow> gotime \<Rightarrow> string \<Rightarrow> go_error option \<Rightarrow> Envelope \<Rightarrow> ExecutionAssign \<Rightarrow> Allocator \<Rightarrow> Allocator \<times> assign_step" where
  "handleAssign_begin W now mid sv envelope assign a0 =
     (let a = fst (expireOffersLocked W now a0); x = as_execution_id assign in
      case map_of (al_offers a) (as_offer_id assign) of
        None \<Rightarrow> (a, AssignReply (fail ErrOfferNotFound))
      | Some offer \<Rightarrow>
          if or_client offer \<noteq> sender envelope then (a, AssignReply (fail ErrUnauthorized))
          else if of_request_id (or_offer offer) \<noteq> as_request_id assign then (a, AssignReply (fail ErrExecutionConflict))
          else if or_status offer = offerReleased then (a, AssignReply (fail ErrOfferReleased))
          else if or_status offer = offerExpired then (a, AssignReply (fail ErrOfferExpired))
          else if or_status offer = offerAssigned then
            (if or_execution offer \<noteq> x then (a, AssignReply (fail ErrOfferAlreadyAssigned))
             else (a, AssignReply (reply_of (stateEnvelopeLocked W mid (map_of (al_executions a) (or_execution offer))
                     (message_id envelope) now a))))
          else (case map_of (al_executions a) x of
             Some existing \<Rightarrow>
               if er_offerID existing = of_offer_id (or_offer offer) \<and> er_client existing = sender envelope
               then (a, AssignReply ([], None)) else (a, AssignReply (fail ErrExecutionConflict))
           | None \<Rightarrow>
               if \<not> PlacementMatches (rq_constraints (or_request offer)) (al_node a)
               then (a, AssignReply ([], Some (wrap ErrIncompatible
                       (PlacementConflictDetails (rq_constraints (or_request offer)) (al_node a)))))
               else (case admitLocked (sender envelope) True a of
                  Some e \<Rightarrow> (a, AssignReply ([], Some e))
                | None \<Rightarrow>
                    assignOffer now sv x (as_offer_id assign) offer a)))"

text \<open>\<open>t1\<close> is read for the transition, \<open>t2\<close> for the response.\<close>

definition handleAssign_finish ::
  "pblib \<Rightarrow> gotime \<Rightarrow> gotime \<Rightarrow> string \<Rightarrow> go_error option \<Rightarrow> Envelope \<Rightarrow> string \<Rightarrow> go_error option \<Rightarrow> Allocator
     \<Rightarrow> (Allocator \<times> reply) option" where
  "handleAssign_finish W t1 t2 mid sv envelope x startErr a =
     (case map_of (al_executions a) x of
        None \<Rightarrow> None
      | Some current \<Rightarrow>
          let a1 = (if er_phase current = EXECUTION_PHASE_STARTING
                    then (case startErr of
                            Some e \<Rightarrow> finishLocked x current EXECUTION_PHASE_FAILED (Error e) None t1 a
                          | None \<Rightarrow> a\<lparr>al_executions := map_put x (current\<lparr>er_phase := EXECUTION_PHASE_RUNNING,
                                er_occurredAt := t1, er_revision := er_revision current + 1\<rparr>) (al_executions a)\<rparr>)
                    else a);
              response = stateEnvelopeLocked W mid (map_of (al_executions a1) x) (message_id envelope) t2 a1;
              (a2, persistErr) = persistLocked sv a1
          in Some (a2, case response of
               Inl e \<Rightarrow> ([], Some e)
             | Inr r \<Rightarrow> (case persistErr of
                 Some pe \<Rightarrow> ([r], Join [startErr, Some pe])
               | None \<Rightarrow> (case startErr of
                   Some se \<Rightarrow> ([r], Join [Some (err ErrRuntimeStart), Some se])
                 | None \<Rightarrow> ([r], None)))))"

section \<open>Cancel\<close>

datatype cancel_step = CancelReply reply | CancelStop string ExecutionPhase string

definition mark_cancelling :: "string \<Rightarrow> gotime \<Rightarrow> executionRecord \<Rightarrow> executionRecord" where
  "mark_cancelling reason now r = r\<lparr>er_phase := EXECUTION_PHASE_CANCELLING, er_detail := reason,
     er_occurredAt := now, er_revision := er_revision r + 1\<rparr>"

definition handleCancel_begin ::
  "pblib \<Rightarrow> gotime \<Rightarrow> string \<Rightarrow> go_error option \<Rightarrow> Envelope \<Rightarrow> ExecutionCancel \<Rightarrow> Allocator \<Rightarrow> Allocator \<times> cancel_step" where
  "handleCancel_begin W now mid sv envelope cancel a =
     (let x = ca_execution_id cancel in
      case map_of (al_executions a) x of
        None \<Rightarrow> (a, CancelReply (fail ErrExecutionNotFound))
      | Some rec \<Rightarrow>
          if er_client rec \<noteq> sender envelope then (a, CancelReply (fail ErrUnauthorized))
          else if Terminal (er_phase rec) \<or> er_phase rec = EXECUTION_PHASE_CANCELLING
          then (a, CancelReply (reply_of (stateEnvelopeLocked W mid (Some rec) (message_id envelope) now a)))
          else let a1 = a\<lparr>al_executions := map_put x (mark_cancelling (ca_reason cancel) now rec) (al_executions a)\<rparr>
               in case persistLocked sv a1 of
                    (a2, Some e) \<Rightarrow> (a2\<lparr>al_executions := map_put x rec (al_executions a2)\<rparr>, CancelReply ([], Some e))
                  | (a2, None) \<Rightarrow> (a2, CancelStop (er_id rec) (er_phase rec) (er_detail rec)))"

definition restore_phase :: "ExecutionPhase \<Rightarrow> string \<Rightarrow> gotime \<Rightarrow> executionRecord \<Rightarrow> executionRecord" where
  "restore_phase phase detail now r = r\<lparr>er_phase := phase, er_detail := detail, er_occurredAt := now,
     er_revision := er_revision r + 1\<rparr>"

definition handleCancel_finish ::
  "pblib \<Rightarrow> gotime \<Rightarrow> gotime \<Rightarrow> string \<Rightarrow> go_error option \<Rightarrow> Envelope \<Rightarrow> string \<Rightarrow> ExecutionPhase \<Rightarrow> string \<Rightarrow> string
     \<Rightarrow> go_error option \<Rightarrow> Allocator \<Rightarrow> (Allocator \<times> reply) option" where
  "handleCancel_finish W t1 t2 mid sv envelope x previousPhase previousDetail reason stopErr a =
     (case map_of (al_executions a) x of
        None \<Rightarrow> None
      | Some current \<Rightarrow> (case stopErr of
          Some e \<Rightarrow>
            let a1 = (if er_phase current = EXECUTION_PHASE_CANCELLING
                      then a\<lparr>al_executions := map_put x (restore_phase previousPhase previousDetail t1 current) (al_executions a)\<rparr>
                      else a);
                (a2, persistErr) = persistLocked sv a1
            in Some (a2, [], Join [Some (err ErrRuntimeStop), Some e, persistErr])
        | None \<Rightarrow>
            let a1 = (if \<not> Terminal (er_phase current)
                      then finishLocked x current EXECUTION_PHASE_CANCELLED reason None t1 a else a);
                response = stateEnvelopeLocked W mid (map_of (al_executions a1) x) (message_id envelope) t2 a1;
                (a2, persistErr) = persistLocked sv a1
            in Some (a2, case response of
                 Inl e \<Rightarrow> ([], Some e)
               | Inr r \<Rightarrow> ([r], persistErr))))"

section \<open>Lease renewal\<close>

definition handleLeaseRenew ::
  "pblib \<Rightarrow> gotime \<Rightarrow> string \<Rightarrow> go_error option \<Rightarrow> Envelope \<Rightarrow> ExecutionLeaseRenew \<Rightarrow> Allocator \<Rightarrow> Allocator \<times> reply" where
  "handleLeaseRenew W now mid sv envelope renew a =
     (let x = rn_execution_id renew in
      case map_of (al_executions a) x of
        None \<Rightarrow> (a, fail ErrExecutionNotFound)
      | Some rec \<Rightarrow>
          if er_client rec \<noteq> sender envelope then (a, fail ErrUnauthorized)
          else if Terminal (er_phase rec) then (a, fail ErrInvalidTransition)
          else if er_phase rec = EXECUTION_PHASE_CANCELLING then (a, fail ErrInvalidTransition)
          else let duration = (case rn_lease_duration renew of
                     None \<Rightarrow> pd_AsDuration W \<lparr>pd_seconds = 0, pd_nanos = 0\<rparr> | Some d \<Rightarrow> pd_AsDuration W d)
          in if duration > maxLeaseTTL then (a, fail ErrLeaseTooLong)
             else let a1 = a\<lparr>al_executions := map_put x (rec\<lparr>er_leaseUntil := now + duration\<rparr>) (al_executions a)\<rparr>
             in case persistLocked sv a1 of
                  (a2, Some e) \<Rightarrow> (a2\<lparr>al_executions := map_put x rec (al_executions a2)\<rparr>, [], Some e)
                | (a2, None) \<Rightarrow>
                    if mid = [] then (a2, [], Some (wrap ErrInvalidConfig ''empty message ID''))
                    else (a2, [\<lparr>message_id = mid, sender = al_identity a2, correlation_id = message_id envelope,
                            sent_at = Some (ts_New W now),
                            payload = Some (Envelope_ExecutionLeaseRenewAck (Some \<lparr>na_execution_id = er_id rec,
                              na_expires_at = Some (ts_New W (now + duration))\<rparr>))\<rparr>], None))"

section \<open>Offer release\<close>

definition released_status :: "pblib \<Rightarrow> gotime \<Rightarrow> offerRecord \<Rightarrow> offerStatus" where
  "released_status W now rec = (if or_status rec = offerOutstanding
     then (if \<not> AsTime W (of_expires_at (or_offer rec)) > now then offerExpired else offerReleased)
     else or_status rec)"

definition release_outcome :: "offerStatus \<Rightarrow> OfferReleaseOutcome" where
  "release_outcome s = (if s = offerExpired then OFFER_RELEASE_OUTCOME_EXPIRED
     else if s = offerAssigned then OFFER_RELEASE_OUTCOME_ASSIGNED else OFFER_RELEASE_OUTCOME_RELEASED)"

definition release_ack :: "pblib \<Rightarrow> gotime \<Rightarrow> string \<Rightarrow> Envelope \<Rightarrow> ExecutionOfferRelease \<Rightarrow> offerStatus \<Rightarrow> Allocator \<Rightarrow> Envelope" where
  "release_ack W now mid envelope rel st a = \<lparr>message_id = mid, sender = al_identity a,
     correlation_id = message_id envelope, sent_at = Some (ts_New W now),
     payload = Some (Envelope_ExecutionOfferReleaseAck (Some \<lparr>ra_request_id = rl_request_id rel,
       ra_offer_id = rl_offer_id rel, ra_outcome = release_outcome st\<rparr>))\<rparr>"

definition handleOfferRelease ::
  "pblib \<Rightarrow> gotime \<Rightarrow> string \<Rightarrow> go_error option \<Rightarrow> Envelope \<Rightarrow> ExecutionOfferRelease \<Rightarrow> Allocator \<Rightarrow> Allocator \<times> reply" where
  "handleOfferRelease W now mid sv envelope rel a =
     (case map_of (al_offers a) (rl_offer_id rel) of
        None \<Rightarrow> (case map_of (al_tombstones a) (rl_offer_id rel) of
            None \<Rightarrow> (a, fail ErrOfferNotFound)
          | Some dead \<Rightarrow>
              if td_Client dead \<noteq> sender envelope then (a, fail ErrUnauthorized)
              else if td_RequestID dead \<noteq> rl_request_id rel then (a, fail ErrExecutionConflict)
              else if mid = [] then (a, [], Some (wrap ErrInvalidConfig ''empty message ID''))
              else (a, [release_ack W now mid envelope rel offerExpired a], None))
      | Some rec \<Rightarrow>
          if or_client rec \<noteq> sender envelope then (a, fail ErrUnauthorized)
          else if of_request_id (or_offer rec) \<noteq> rl_request_id rel then (a, fail ErrExecutionConflict)
          else if mid = [] then (a, [], Some (wrap ErrInvalidConfig ''empty message ID''))
          else let st = released_status W now rec in
            if st = or_status rec then (a, [release_ack W now mid envelope rel st a], None)
            else let class = of_resource_class (or_offer rec);
                     a1 = a\<lparr>al_offers := map_put (rl_offer_id rel) (rec\<lparr>or_status := st\<rparr>) (al_offers a),
                            al_capacity := release class (al_capacity a)\<rparr>
              in case persistLocked sv a1 of
                   (a2, None) \<Rightarrow> (a2, [release_ack W now mid envelope rel st a2], None)
                 | (a2, Some e) \<Rightarrow> (a2\<lparr>al_offers := map_put (rl_offer_id rel) rec (al_offers a2),
                        al_capacity := snd (reserve class (al_capacity a2))\<rparr>, [], Some e))"

section \<open>Logs\<close>

record LogChunk =
  lc_Data :: bytes
  lc_NextOffset :: "64 word"
  lc_EOF :: bool
  lc_Truncated :: bool

text \<open>\<open>logs\<close> is \<open>None\<close> without a log store and otherwise the result of its \<open>Read\<close>.\<close>

definition handleLogs ::
  "pblib \<Rightarrow> gotime \<Rightarrow> string \<Rightarrow> (go_error + LogChunk) option \<Rightarrow> Envelope \<Rightarrow> ExecutionLogsRequest \<Rightarrow> Allocator \<Rightarrow> reply" where
  "handleLogs W now rid logs e q a =
     (let refused = (\<lambda>x. (errorResponse W rid now e x a, Some x));
          authorized = (case map_of (al_executions a) (lq_execution_id q) of None \<Rightarrow> False
             | Some rec \<Rightarrow> er_client rec = sender e)
      in if \<not> authorized then refused (err ErrExecutionNotFound)
         else (case logs of
            None \<Rightarrow> refused (err ErrExecutionNotFound)
          | Some (Inl x) \<Rightarrow>
              let x1 = (if errors_Is x ErrLogsMissing then err ErrExecutionNotFound else x);
                  x2 = (if errors_Is x1 ErrLogOffset then err ErrExecutionConflict else x1)
              in refused x2
          | Some (Inr chunk) \<Rightarrow>
              ([\<lparr>message_id = rid, sender = al_identity a, correlation_id = message_id e, sent_at = Some (ts_New W now),
                 payload = Some (Envelope_ExecutionLogsResponse (Some \<lparr>lr_execution_id = lq_execution_id q,
                   lr_stream = lq_stream q, lr_offset = lq_offset q, lr_data = lc_Data chunk,
                   lr_next_offset = lc_NextOffset chunk, lr_eof = lc_EOF chunk, lr_truncated = lc_Truncated chunk,
                   lr_sha256 = Sum256 (lc_Data chunk)\<rparr>))\<rparr>], None)))"

section \<open>Tunnels\<close>

text \<open>\<open>handleTunnelOpen\<close> checks the execution under the lock and binds the registry after giving it up;
  \<open>None\<close> of the first part means that the second part runs.\<close>

definition handleTunnelOpen_check :: "Envelope \<Rightarrow> ExecutionTunnelOpen \<Rightarrow> Allocator \<Rightarrow> reply option" where
  "handleTunnelOpen_check envelope open a =
     (case map_of (al_executions a) (to_execution_id open) of
        None \<Rightarrow> Some (fail ErrExecutionNotFound)
      | Some rec \<Rightarrow>
          if er_client rec \<noteq> sender envelope then Some (fail ErrUnauthorized)
          else if Terminal (er_phase rec) then Some (fail ErrInvalidTransition) else None)"

definition handleTunnelOpen_bind ::
  "pblib \<Rightarrow> gotime \<Rightarrow> string \<Rightarrow> Envelope \<Rightarrow> ExecutionTunnelOpen \<Rightarrow> Allocator \<Rightarrow> Allocator \<times> reply" where
  "handleTunnelOpen_bind W now mid envelope open a =
     (if \<not> tc_Enabled (al_tunnelConfig a) then (a, fail ErrTunnelDisabled)
      else (case ValidateTunnelTargets (to_targets open) of
         Inl e \<Rightarrow> (a, [], Some (validation_error e))
       | Inr targets \<Rightarrow>
           let endpoint = tc_Endpoint (al_tunnelConfig a) in
           if length (ep_Address endpoint) = 0 \<or> length (ep_PubKey endpoint) = 0 then (a, fail ErrTunnelNoEndpoint)
           else (case Bind (to_execution_id open) (to_ygg_peer_pubkey open) targets endpoint (al_tunnels a) of
               (Some e, _) \<Rightarrow> (a, [], Some e)
             | (None, reg) \<Rightarrow>
                 let a1 = a\<lparr>al_tunnels := reg\<rparr> in
                 if mid = [] then (a1, [], Some (wrap ErrInvalidConfig ''empty message ID''))
                 else (a1, [\<lparr>message_id = mid, sender = al_identity a1, correlation_id = message_id envelope,
                        sent_at = Some (ts_New W now),
                        payload = Some (Envelope_ExecutionTunnelOpenAck (Some \<lparr>ta_execution_id = to_execution_id open,
                          ta_allocator_endpoint = ep_Address endpoint, ta_allocator_endpoint_pubkey = ep_PubKey endpoint,
                          ta_targets = TargetsToProto targets\<rparr>))\<rparr>], None))))"

text \<open>\<open>OpenTunnelSession\<close>: check, open in the registry, check again.\<close>

definition openSession_check :: "string \<Rightarrow> Allocator \<Rightarrow> go_error option" where
  "openSession_check x a = (case map_of (al_executions a) x of
     None \<Rightarrow> Some (err ErrExecutionNotFound)
   | Some rec \<Rightarrow> if Terminal (er_phase rec) then Some (err ErrInvalidTransition) else None)"

definition openSession_open :: "string \<Rightarrow> bytes \<Rightarrow> Allocator \<Rightarrow> Allocator \<times> (go_error + Session)" where
  "openSession_open x peerKey a = (case Open x peerKey (al_tunnels a) of
     (res, reg) \<Rightarrow> (a\<lparr>al_tunnels := reg\<rparr>, res))"

definition openSession_recheck :: "string \<Rightarrow> Session \<Rightarrow> Allocator \<Rightarrow> Allocator \<times> (go_error + Session)" where
  "openSession_recheck x session a =
     (if (case map_of (al_executions a) x of None \<Rightarrow> True | Some rec \<Rightarrow> Terminal (er_phase rec))
      then (a\<lparr>al_tunnels := CloseSession x (al_tunnels a)\<rparr>, Inl (err ErrInvalidTransition))
      else (a, Inr session))"

definition CloseTunnel :: "Session \<Rightarrow> Allocator \<Rightarrow> Allocator" where
  "CloseTunnel session a = a\<lparr>al_tunnels := Release_session session (al_tunnels a)\<rparr>"

text \<open>\<open>DialTunnelTarget\<close> before and after the runtime dials; \<open>None\<close> lets it go on.\<close>

definition dialTarget_check :: "Session \<Rightarrow> 16 word \<Rightarrow> Allocator \<Rightarrow> go_error option" where
  "dialTarget_check session port a =
     (if \<not> Active (Some session) (al_tunnels a) then Some (err ErrUnauthorized)
      else if (case map_of (al_executions a) (ss_ExecutionID session) of None \<Rightarrow> True
         | Some rec \<Rightarrow> Terminal (er_phase rec) \<or> er_phase rec = EXECUTION_PHASE_CANCELLING)
      then Some (err ErrInvalidTransition)
      else if ResolveTarget port session (al_tunnels a) = None then Some (err ErrUnauthorized) else None)"

definition dialTarget_finish :: "Session \<Rightarrow> Allocator \<Rightarrow> go_error option" where
  "dialTarget_finish session a =
     (if \<not> Active (Some session) (al_tunnels a) then Some (err ErrInvalidTransition) else None)"

section \<open>Runtime completions\<close>

record Completion =
  cm_ExecutionID :: string
  cm_Err :: "go_error option"
  cm_Detail :: string
  cm_ExitCode :: "int option"

definition completion_phase :: "Completion \<Rightarrow> ExecutionPhase" where
  "completion_phase c = (case cm_Err c of None \<Rightarrow> EXECUTION_PHASE_COMPLETED | Some _ \<Rightarrow> EXECUTION_PHASE_FAILED)"

definition completion_detail :: "Completion \<Rightarrow> string" where
  "completion_detail c = (case cm_Err c of
     Some e \<Rightarrow> if cm_Detail c = [] then Error e else cm_Detail c
   | None \<Rightarrow> cm_Detail c)"

definition RuntimeCompleted :: "gotime \<Rightarrow> go_error option \<Rightarrow> Completion \<Rightarrow> Allocator \<Rightarrow> Allocator \<times> go_error option" where
  "RuntimeCompleted now sv completion a =
     (let x = cm_ExecutionID completion in
      if x = [] then (a, Some (wrap ErrInvalidTransition ''execution ID is required''))
      else (case map_of (al_executions a) x of
         None \<Rightarrow> (a, Some (err ErrExecutionNotFound))
       | Some rec \<Rightarrow>
           let phase = completion_phase completion
           in if Terminal (er_phase rec)
              then (if er_phase rec = phase then (a, None) else (a, Some (err ErrInvalidTransition)))
              else let usedBefore = snapshot (al_capacity a);
                       a1 = finishLocked x rec phase (completion_detail completion) (cm_ExitCode completion) now a
              in case persistLocked sv a1 of
                   (a2, None) \<Rightarrow> (a2, None)
                 | (a2, Some e) \<Rightarrow> (a2\<lparr>al_executions := map_put x rec (al_executions a2),
                        al_capacity := restore usedBefore (al_capacity a2)\<rparr>, Some e)))"

definition completionReporter ::
  "string \<Rightarrow> gotime \<Rightarrow> go_error option \<Rightarrow> Completion \<Rightarrow> Allocator \<Rightarrow> Allocator \<times> go_error option" where
  "completionReporter executionID now sv completion a =
     (let c = (if cm_ExecutionID completion = [] then completion\<lparr>cm_ExecutionID := executionID\<rparr> else completion)
      in if cm_ExecutionID c \<noteq> executionID then (a, Some (err ErrExecutionConflict))
         else RuntimeCompleted now sv c a)"

section \<open>Freshness and replay\<close>

text \<open>The execution a command names, the empty string for the other commands.\<close>

definition named_execution :: "Envelope \<Rightarrow> string" where
  "named_execution e = (case payload e of
     Some (Envelope_ExecutionInspect (Some q)) \<Rightarrow> in_execution_id q
   | Some (Envelope_ExecutionCancel (Some q)) \<Rightarrow> ca_execution_id q
   | Some (Envelope_ExecutionAssign (Some q)) \<Rightarrow> as_execution_id q
   | Some (Envelope_ExecutionLogsRequest (Some q)) \<Rightarrow> lq_execution_id q
   | Some (Envelope_ExecutionLeaseRenew (Some q)) \<Rightarrow> rn_execution_id q
   | Some (Envelope_ExecutionTunnelOpen (Some q)) \<Rightarrow> to_execution_id q
   | _ \<Rightarrow> [])"

definition checkFreshness :: "pblib \<Rightarrow> gotime \<Rightarrow> Envelope \<Rightarrow> Allocator \<Rightarrow> Allocator \<times> go_error option" where
  "checkFreshness W t e a0 =
     (let (a, now) = effectiveNowLocked t a0;
          sent = AsTime W (sent_at e);
          i = named_execution e
      in if sent < now + (- CommandHorizon) \<or> sent > now + 2 * minute then (a, Some (err ErrCommandExpired))
         else if (case map_of (al_executions a) i of None \<Rightarrow> False
            | Some rec \<Rightarrow> er_client rec = sender e \<and> Terminal (er_phase rec) \<and> \<not> er_retainUntil rec > now)
         then (a, Some (err ErrResultExpired))
         else if list_ex (\<lambda>(k, dead). td_ExecutionID dead \<noteq> [] \<and> td_ExecutionID dead = i \<and> td_Client dead = sender e)
              (al_tombstones a)
         then (a, Some (err ErrResultExpired)) else (a, None))"

definition beginReplay ::
  "pblib \<Rightarrow> string \<Rightarrow> Envelope \<Rightarrow> gotime \<Rightarrow> go_error option \<Rightarrow> Allocator \<Rightarrow> Allocator \<times> go_error option \<times> bool" where
  "beginReplay W key envelope now sv a0 =
     (let a = fst (expireOffersLocked W now a0) in
      case begin_replay W key envelope now (al_replay a) of
        (c, Some e, dup) \<Rightarrow> (a\<lparr>al_replay := c\<rparr>, Some e, dup)
      | (c, None, True) \<Rightarrow> (a\<lparr>al_replay := c\<rparr>, None, True)
      | (c, None, False) \<Rightarrow>
          (case persistLocked sv (a\<lparr>al_replay := c\<rparr>) of
             (a1, Some e) \<Rightarrow> (a1\<lparr>al_replay := (al_replay a1)\<lparr>rc_entries := map_delete key (rc_entries (al_replay a1))\<rparr>\<rparr>,
                 Some e, False)
           | (a1, None) \<Rightarrow> (a1, None, False)))"

definition finishReplay ::
  "string \<Rightarrow> Envelope list \<Rightarrow> go_error option \<Rightarrow> go_error option \<Rightarrow> Allocator \<Rightarrow> Allocator \<times> go_error option" where
  "finishReplay key responses e sv a = persistLocked sv (a\<lparr>al_replay := finish_replay key responses e (al_replay a)\<rparr>)"

section \<open>Expiry sweep and availability\<close>

definition SweepExpired :: "pblib \<Rightarrow> gotime \<Rightarrow> go_error option \<Rightarrow> Allocator \<Rightarrow> Allocator \<times> nat" where
  "SweepExpired W now sv a = (case expireOffersLocked W now a of
     (a1, n) \<Rightarrow> (if n > 0 then fst (persistLocked sv a1) else a1, n))"

definition Available :: "pblib \<Rightarrow> gotime \<Rightarrow> string \<Rightarrow> Allocator \<Rightarrow> Allocator \<times> 32 word" where
  "Available W now class a = (let a1 = fst (expireOffersLocked W now a) in (a1, available class (al_capacity a1)))"

end
