(* ===== verification/Alloc_Background.thy ===== *)
theory Alloc_Background
  imports Alloc_Handlers
begin

text \<open>
  The background work of the allocator: lease eviction (\<open>eviction.go\<close>), the retention sweep
  (\<open>retention.go\<close>) and recovery after a restart (\<open>recovery.go\<close>), split at the runtime calls made
  outside the lock.
\<close>

section \<open>Lease eviction\<close>

definition lease_expired :: "gotime \<Rightarrow> executionRecord \<Rightarrow> bool" where
  "lease_expired now rec \<longleftrightarrow> \<not> Terminal (er_phase rec) \<and> er_phase rec \<noteq> EXECUTION_PHASE_CANCELLING
     \<and> \<not> IsZero (er_leaseUntil rec) \<and> \<not> er_leaseUntil rec > now"

definition nextExpiredLeaseLocked :: "gotime \<Rightarrow> Allocator \<Rightarrow> string \<times> ExecutionPhase" where
  "nextExpiredLeaseLocked now a = (case List.find (\<lambda>(i, rec). lease_expired now rec) (al_executions a) of
     Some (i, rec) \<Rightarrow> (i, er_phase rec)
   | None \<Rightarrow> ([], EXECUTION_PHASE_UNSPECIFIED))"

text \<open>\<open>None\<close>: the record would be nil.\<close>

definition beginEvictionLocked ::
  "string \<Rightarrow> gotime \<Rightarrow> go_error option \<Rightarrow> Allocator \<Rightarrow> (Allocator \<times> string \<times> go_error option) option" where
  "beginEvictionLocked x now sv a = (case map_of (al_executions a) x of
     None \<Rightarrow> None
   | Some rec \<Rightarrow>
       let a1 = a\<lparr>al_executions := map_put x (mark_cancelling LeaseExpiredDetail now rec) (al_executions a)\<rparr>
       in case persistLocked sv a1 of
            (a2, Some e) \<Rightarrow> Some (a2\<lparr>al_executions := map_put x rec (al_executions a2)\<rparr>, er_detail rec, Some e)
          | (a2, None) \<Rightarrow> Some (a2, er_detail rec, None))"

datatype evict_step = EvictIdle | EvictAbort go_error | EvictStop string ExecutionPhase string

text \<open>One round of the loop of \<open>EvictExpiredLeases\<close> up to the runtime stop; \<open>ctxErr\<close> is the context's error.\<close>

definition evict_round ::
  "gotime \<Rightarrow> go_error option \<Rightarrow> go_error option \<Rightarrow> Allocator \<Rightarrow> (Allocator \<times> evict_step) option" where
  "evict_round t ctxErr sv a0 =
     (let (a, now) = effectiveNowLocked t a0; (x, phase) = nextExpiredLeaseLocked now a in
      if x = [] then Some (a, EvictIdle)
      else (case ctxErr of
         Some e \<Rightarrow> Some (a, EvictAbort e)
       | None \<Rightarrow> (case beginEvictionLocked x now sv a of
           None \<Rightarrow> None
         | Some (a1, detail, Some e) \<Rightarrow> Some (a1, EvictAbort e)
         | Some (a1, detail, None) \<Rightarrow> Some (a1, EvictStop x phase detail))))"

definition completeEviction ::
  "gotime \<Rightarrow> go_error option \<Rightarrow> string \<Rightarrow> ExecutionPhase \<Rightarrow> string \<Rightarrow> go_error option \<Rightarrow> Allocator \<Rightarrow> Allocator \<times> go_error option" where
  "completeEviction now sv x previousPhase previousDetail stopErr a = (case map_of (al_executions a) x of
     None \<Rightarrow> (a, None)
   | Some rec \<Rightarrow>
       (case stopErr of
          Some e \<Rightarrow>
            if \<not> errors_Is e RuntimeErrExecutionMissing
            then (let a1 = (if er_phase rec = EXECUTION_PHASE_CANCELLING
                     then a\<lparr>al_executions := map_put x (restore_phase previousPhase previousDetail now rec) (al_executions a)\<rparr>
                     else a);
                      (a2, persistErr) = persistLocked sv a1
                  in (a2, Join [Some (err ErrRuntimeStop), Some e, persistErr]))
            else persistLocked sv (if \<not> Terminal (er_phase rec)
                   then finishLocked x rec EXECUTION_PHASE_FAILED LeaseExpiredDetail None now a else a)
        | None \<Rightarrow> persistLocked sv (if \<not> Terminal (er_phase rec)
                   then finishLocked x rec EXECUTION_PHASE_FAILED LeaseExpiredDetail None now a else a)))"

text \<open>The whole loop when nothing else runs in between: each element of the list holds what one round reads,
  the clock, the context's error, the outcomes of the two saves, of the stop, and the clock after it.
  \<open>None\<close> when the list ends before the loop does.\<close>

fun EvictExpiredLeases ::
  "(gotime \<times> go_error option \<times> go_error option \<times> go_error option \<times> gotime \<times> go_error option) list
     \<Rightarrow> Allocator \<Rightarrow> (Allocator \<times> go_error option) option" where
  "EvictExpiredLeases [] a = None"
| "EvictExpiredLeases ((t, ctxErr, sv, stopErr, t', sv') # rounds) a = (case evict_round t ctxErr sv a of
     None \<Rightarrow> None
   | Some (a1, EvictIdle) \<Rightarrow> Some (a1, None)
   | Some (a1, EvictAbort e) \<Rightarrow> Some (a1, Some e)
   | Some (a1, EvictStop x phase detail) \<Rightarrow>
       (case completeEviction t' sv' x phase detail stopErr a1 of
          (a2, Some e) \<Rightarrow> Some (a2, Some e)
        | (a2, None) \<Rightarrow> EvictExpiredLeases rounds a2))"

section \<open>The retention sweep\<close>

text \<open>The keys of the records that a command in flight may still touch.\<close>

definition busy_keys :: "Allocator \<Rightarrow> string list" where
  "busy_keys a = concat (map (\<lambda>(k, entry).
     if replayDone entry then [] else
     (case payload (re_envelope entry) of
        Some (Envelope_ExecutionRequest (Some q)) \<Rightarrow> [authorityKey (sender (re_envelope entry)) (rq_request_id q)]
      | Some (Envelope_ExecutionAssign (Some q)) \<Rightarrow> [authorityKey (sender (re_envelope entry)) (as_request_id q)]
      | Some (Envelope_ExecutionCancel (Some q)) \<Rightarrow> (case map_of (al_executions a) (ca_execution_id q) of
            None \<Rightarrow> [] | Some r \<Rightarrow> [authorityKey (er_client r) (rq_request_id (er_request r))])
      | _ \<Rightarrow> [])) (rc_entries (al_replay a)))"

definition collectable :: "gotime \<Rightarrow> offerRecord \<Rightarrow> Allocator \<Rightarrow> bool" where
  "collectable now offer a =
     (if or_status offer = offerAssigned
      then (case map_of (al_executions a) (or_execution offer) of None \<Rightarrow> False
            | Some r \<Rightarrow> Terminal (er_phase r) \<and> \<not> er_retainUntil r > now)
      else or_status offer = offerExpired \<or> or_status offer = offerReleased)"

definition collect_offer :: "gotime \<Rightarrow> string \<Rightarrow> offerRecord \<Rightarrow> Allocator \<Rightarrow> Allocator" where
  "collect_offer now i offer a =
     a\<lparr>al_tombstones := map_put i \<lparr>td_Client = or_client offer, td_RequestID = of_request_id (or_offer offer),
         td_OfferID = i, td_ExecutionID = or_execution offer, td_ExpiresAt = now + CommandHorizon,
         td_CleanupPending = (or_execution offer \<noteq> [])\<rparr> (al_tombstones a),
       al_offers := map_delete i (al_offers a),
       al_requests := map_delete (authorityKey (or_client offer) (of_request_id (or_offer offer))) (al_requests a),
       al_executions := map_delete (or_execution offer) (al_executions a)\<rparr>"

fun collect_loop :: "gotime \<Rightarrow> string list \<Rightarrow> (string, offerRecord) gomap \<Rightarrow> Allocator \<Rightarrow> Allocator" where
  "collect_loop now busy [] a = a"
| "collect_loop now busy ((i, offer) # m) a =
     (if authorityKey (or_client offer) (of_request_id (or_offer offer)) \<in> set busy then collect_loop now busy m a
      else if \<not> collectable now offer a then collect_loop now busy m a
      else collect_loop now busy m (collect_offer now i offer a))"

definition drop_reply :: "string list \<Rightarrow> Allocator \<Rightarrow> Envelope \<Rightarrow> bool" where
  "drop_reply retired a e = (case payload e of
     Some (Envelope_ExecutionRequest (Some q)) \<Rightarrow> authorityKey (sender e) (rq_request_id q) \<in> set retired
   | Some (Envelope_ExecutionAssign (Some q)) \<Rightarrow> authorityKey (sender e) (as_request_id q) \<in> set retired
   | Some (Envelope_ExecutionCancel (Some q)) \<Rightarrow> map_of (al_executions a) (ca_execution_id q) = None
   | Some (Envelope_ExecutionInspect (Some q)) \<Rightarrow> map_of (al_executions a) (in_execution_id q) = None
   | Some (Envelope_ExecutionLeaseRenew (Some q)) \<Rightarrow> map_of (al_executions a) (rn_execution_id q) = None
   | Some (Envelope_ExecutionTunnelOpen (Some q)) \<Rightarrow> map_of (al_executions a) (to_execution_id q) = None
   | _ \<Rightarrow> False)"

definition sweep_tombstones :: "gotime \<Rightarrow> Allocator \<Rightarrow> Allocator" where
  "sweep_tombstones now a = a\<lparr>al_tombstones :=
     filter (\<lambda>(i, dead). \<not> (\<not> td_CleanupPending dead \<and> \<not> td_ExpiresAt dead > now)) (al_tombstones a)\<rparr>"

definition sweep_replies :: "string list \<Rightarrow> Allocator \<Rightarrow> Allocator" where
  "sweep_replies retired a = a\<lparr>al_replay := (al_replay a)\<lparr>rc_entries :=
     filter (\<lambda>(k, entry). \<not> (replayDone entry \<and> drop_reply retired a (re_envelope entry))) (rc_entries (al_replay a))\<rparr>\<rparr>"

text \<open>The metadata pass of \<open>Sweep\<close> up to the save, and the save with its rollback.\<close>

definition sweep_pass :: "pblib \<Rightarrow> gotime \<Rightarrow> Allocator \<Rightarrow> Allocator" where
  "sweep_pass W t a0 =
     (let (a1, now) = effectiveNowLocked t a0;
          a2 = fst (expireOffersLocked W now a1);
          a3 = a2\<lparr>al_replay := prune now (al_replay a2)\<rparr>;
          a4 = collect_loop now (busy_keys a3) (al_offers a3) a3;
          retired = map (\<lambda>(i, dead). authorityKey (td_Client dead) (td_RequestID dead)) (al_tombstones a4)
      in sweep_replies retired (sweep_tombstones now a4))"

definition sweep_collect ::
  "pblib \<Rightarrow> gotime \<Rightarrow> go_error option \<Rightarrow> Allocator \<Rightarrow> Allocator \<times> (go_error + tombstone list)" where
  "sweep_collect W t sv a =
     (case persistLocked sv (sweep_pass W t a) of
        (a2, Some e) \<Rightarrow> (a2\<lparr>al_offers := al_offers a, al_executions := al_executions a, al_requests := al_requests a,
             al_replay := al_replay a, al_tombstones := al_tombstones a, al_highWater := al_highWater a,
             al_capacity := restore (snapshot (al_capacity a)) (al_capacity a2)\<rparr>, Inl e)
      | (a2, None) \<Rightarrow> (a2, Inr (map snd (filter (\<lambda>(i, dead). td_CleanupPending dead) (al_tombstones a2)))))"

text \<open>The cleanup of one collected execution, after the runtime and the log store forgot it (\<open>cleanErr = None\<close>).
  A missing map entry is the zero tombstone.\<close>

definition zero_tombstone :: tombstone where
  "zero_tombstone = \<lparr>td_Client = [], td_RequestID = [], td_OfferID = [], td_ExecutionID = [],
     td_ExpiresAt = zero_time, td_CleanupPending = False\<rparr>"

definition sweep_clean ::
  "go_error option \<Rightarrow> go_error option \<Rightarrow> tombstone \<Rightarrow> Allocator \<Rightarrow> Allocator \<times> go_error option" where
  "sweep_clean cleanErr sv dead a = (case cleanErr of
     Some e \<Rightarrow> (a, Some e)
   | None \<Rightarrow>
       let current = (case map_of (al_tombstones a) (td_OfferID dead) of None \<Rightarrow> zero_tombstone | Some t \<Rightarrow> t);
           a1 = a\<lparr>al_tombstones := map_put (td_OfferID dead) (current\<lparr>td_CleanupPending := False\<rparr>) (al_tombstones a)\<rparr>
       in case persistLocked sv a1 of
            (a2, Some e) \<Rightarrow> (a2\<lparr>al_tombstones := map_put (td_OfferID dead) dead (al_tombstones a2)\<rparr>, Some e)
          | (a2, None) \<Rightarrow> (a2, None))"

section \<open>Recovery\<close>

text \<open>What \<open>Recover\<close> does for one execution before it calls the runtime.\<close>

datatype recover_step = RecoverSkip | RecoverStop ExecutionPhase string | RecoverTask StartRequest

definition recover_begin :: "gotime \<Rightarrow> string \<Rightarrow> Allocator \<Rightarrow> recover_step" where
  "recover_begin now x a = (case map_of (al_executions a) x of
     None \<Rightarrow> RecoverSkip
   | Some rec \<Rightarrow>
       if Terminal (er_phase rec) then RecoverSkip
       else if er_phase rec = EXECUTION_PHASE_CANCELLING
       then RecoverStop (if er_detail rec = LeaseExpiredDetail then EXECUTION_PHASE_FAILED else EXECUTION_PHASE_CANCELLED)
              (er_detail rec)
       else if \<not> IsZero (er_leaseUntil rec) \<and> \<not> er_leaseUntil rec > now
       then RecoverStop EXECUTION_PHASE_FAILED LeaseExpiredDetail
       else RecoverTask (startRequestLocked rec))"

text \<open>After a stop that succeeded or found nothing to stop.\<close>

definition recover_stopped ::
  "gotime \<Rightarrow> go_error option \<Rightarrow> string \<Rightarrow> ExecutionPhase \<Rightarrow> string \<Rightarrow> go_error option \<Rightarrow> Allocator \<Rightarrow> Allocator \<times> go_error option" where
  "recover_stopped now sv x phase reason stopErr a = (case stopErr of
     Some e \<Rightarrow> if \<not> errors_Is e RuntimeErrExecutionMissing then (a, Join [Some (err ErrRuntimeStop), Some e])
       else persistLocked sv (case map_of (al_executions a) x of None \<Rightarrow> a
            | Some current \<Rightarrow> if \<not> Terminal (er_phase current) then finishLocked x current phase reason None now a else a)
   | None \<Rightarrow> persistLocked sv (case map_of (al_executions a) x of None \<Rightarrow> a
            | Some current \<Rightarrow> if \<not> Terminal (er_phase current) then finishLocked x current phase reason None now a else a))"

text \<open>After the runtime's \<open>Recover\<close>.\<close>

definition recover_finish ::
  "gotime \<Rightarrow> go_error option \<Rightarrow> string \<Rightarrow> go_error option \<Rightarrow> Allocator \<Rightarrow> Allocator \<times> go_error option" where
  "recover_finish now sv x recoverErr a = (case recoverErr of
     None \<Rightarrow> persistLocked sv (case map_of (al_executions a) x of None \<Rightarrow> a
       | Some current \<Rightarrow> if er_phase current = EXECUTION_PHASE_STARTING
           then a\<lparr>al_executions := map_put x (current\<lparr>er_phase := EXECUTION_PHASE_RUNNING, er_occurredAt := now,
                    er_revision := er_revision current + 1\<rparr>) (al_executions a)\<rparr> else a)
   | Some e \<Rightarrow>
       if errors_Is e RuntimeErrExecutionMissing \<or> errors_Is e RuntimeErrExecutionConflict
       then persistLocked sv (case map_of (al_executions a) x of None \<Rightarrow> a
            | Some current \<Rightarrow> if \<not> Terminal (er_phase current)
                then finishLocked x current EXECUTION_PHASE_FAILED (Error e) None now a else a)
       else (a, Join [Some (err ErrRuntimeStart), Some e]))"

end
