(* ===== verification/Alloc_Invariant.thy ===== *)
theory Alloc_Invariant
  imports Alloc_Background
begin

text \<open>
  The invariant of the allocator state and its preservation by every section of the handlers and of
  the background work.  \<open>core_ok\<close> ties the three maps together: requests name offers, an assigned
  offer has its execution and the reverse, released is terminal.  \<open>alloc_ok\<close> adds that the capacity
  ledger tracks exactly the classes of outstanding offers and live executions, that the replay cache
  and the tunnel registry are well formed and that the record budget holds.
\<close>

section \<open>The invariant\<close>

definition known_phase :: "ExecutionPhase \<Rightarrow> bool" where
  "known_phase p \<longleftrightarrow> p \<in> {EXECUTION_PHASE_STARTING, EXECUTION_PHASE_RUNNING, EXECUTION_PHASE_CANCELLING,
     EXECUTION_PHASE_CANCELLED, EXECUTION_PHASE_COMPLETED, EXECUTION_PHASE_FAILED}"

lemma known_phase_simps [simp]:
  "known_phase EXECUTION_PHASE_STARTING" "known_phase EXECUTION_PHASE_RUNNING" "known_phase EXECUTION_PHASE_CANCELLING"
  "known_phase EXECUTION_PHASE_CANCELLED" "known_phase EXECUTION_PHASE_COMPLETED" "known_phase EXECUTION_PHASE_FAILED"
  by (simp_all add: known_phase_def)

definition offer_key :: "offerRecord \<Rightarrow> string" where
  "offer_key o1 = authorityKey (or_client o1) (of_request_id (or_offer o1))"

text \<open>What an offer and an execution record satisfy on their own.  The durable state keeps strings only up to
  their coercion to UTF-8, so the identifiers have to be valid.\<close>

definition offer_ok :: "string \<Rightarrow> offerRecord \<Rightarrow> bool" where
  "offer_ok i o1 \<longleftrightarrow> i \<noteq> [] \<and> of_offer_id (or_offer o1) = i \<and> of_request_id (or_offer o1) = rq_request_id (or_request o1)
     \<and> rq_request_id (or_request o1) \<noteq> [] \<and> of_resource_class (or_offer o1) \<noteq> []
     \<and> valid_utf8 i \<and> valid_utf8 (rq_request_id (or_request o1)) \<and> valid_utf8 (of_resource_class (or_offer o1))
     \<and> (or_status o1 \<noteq> offerAssigned \<longrightarrow> or_execution o1 = [])"

definition exec_ok :: "string \<Rightarrow> executionRecord \<Rightarrow> bool" where
  "exec_ok x r \<longleftrightarrow> x \<noteq> [] \<and> valid_utf8 x \<and> er_id r = x \<and> known_phase (er_phase r) \<and> (er_released r \<longleftrightarrow> Terminal (er_phase r))
     \<and> er_startedAt r \<noteq> zero_time \<and> er_occurredAt r \<noteq> zero_time"

text \<open>An offer and the execution it was assigned to agree.\<close>

definition matched :: "string \<Rightarrow> offerRecord \<Rightarrow> string \<Rightarrow> executionRecord \<Rightarrow> bool" where
  "matched i o1 x r \<longleftrightarrow> or_status o1 = offerAssigned \<and> or_execution o1 = x \<and> er_offerID r = i
     \<and> er_resourceClass r = of_resource_class (or_offer o1) \<and> er_client r = or_client o1 \<and> er_request r = or_request o1"

definition core_ok ::
  "(string, offerRecord) gomap \<Rightarrow> (string, string) gomap \<Rightarrow> (string, executionRecord) gomap \<Rightarrow> bool" where
  "core_ok offs reqs exes \<longleftrightarrow> wf_map offs \<and> wf_map reqs \<and> wf_map exes
     \<and> (\<forall>i o1. map_of offs i = Some o1 \<longrightarrow> offer_ok i o1)
     \<and> (\<forall>x r. map_of exes x = Some r \<longrightarrow> exec_ok x r)
     \<and> (\<forall>k i. map_of reqs k = Some i \<longleftrightarrow> (\<exists>o1. map_of offs i = Some o1 \<and> offer_key o1 = k))
     \<and> (\<forall>i o1. map_of offs i = Some o1 \<longrightarrow> or_status o1 = offerAssigned \<longrightarrow>
          (\<exists>r. map_of exes (or_execution o1) = Some r \<and> matched i o1 (or_execution o1) r))
     \<and> (\<forall>x r. map_of exes x = Some r \<longrightarrow> (\<exists>o1. map_of offs (er_offerID r) = Some o1 \<and> matched (er_offerID r) o1 x r))"

definition outstanding_class :: "offerRecord \<Rightarrow> string option" where
  "outstanding_class o1 = (if or_status o1 = offerOutstanding then Some (of_resource_class (or_offer o1)) else None)"

definition live_class :: "executionRecord \<Rightarrow> string option" where
  "live_class r = (if er_released r then None else Some (er_resourceClass r))"

definition holders :: "Allocator \<Rightarrow> string multiset" where
  "holders a = collect outstanding_class (al_offers a) + collect live_class (al_executions a)"

definition budget_ok :: "Allocator \<Rightarrow> bool" where
  "budget_ok a \<longleftrightarrow> 2 * int (length (al_offers a)) + int (length (al_tombstones a)) \<le> al_maxRecords a"

definition dead_ok :: "(string, tombstone) gomap \<Rightarrow> bool" where
  "dead_ok ds \<longleftrightarrow> wf_map ds \<and> (\<forall>i d. map_of ds i = Some d \<longrightarrow> td_OfferID d = i \<and> valid_utf8 i
     \<and> valid_utf8 (td_RequestID d) \<and> valid_utf8 (td_ExecutionID d))"

definition alloc_ok :: "Allocator \<Rightarrow> bool" where
  "alloc_ok a \<longleftrightarrow> core_ok (al_offers a) (al_requests a) (al_executions a)
     \<and> ledger.tracks (al_capacity a) (holders a) \<and> cache_ok (al_replay a) \<and> registry_ok (al_tunnels a)
     \<and> dead_ok (al_tombstones a) \<and> budget_ok a"

lemma core_okD:
  assumes "core_ok offs reqs exes"
  shows core_wf: "wf_map offs" "wf_map reqs" "wf_map exes"
    and core_offer: "map_of offs i = Some o1 \<Longrightarrow> offer_ok i o1"
    and core_exec: "map_of exes x = Some r \<Longrightarrow> exec_ok x r"
    and core_request: "map_of reqs k = Some i \<longleftrightarrow> (\<exists>o1. map_of offs i = Some o1 \<and> offer_key o1 = k)"
    and core_assigned: "map_of offs i = Some o1 \<Longrightarrow> or_status o1 = offerAssigned \<Longrightarrow>
          \<exists>r. map_of exes (or_execution o1) = Some r \<and> matched i o1 (or_execution o1) r"
    and core_matched: "map_of exes x = Some r \<Longrightarrow> \<exists>o1. map_of offs (er_offerID r) = Some o1 \<and> matched (er_offerID r) o1 x r"
  using assms unfolding core_ok_def by blast+

lemma offer_key_unique:
  "core_ok offs reqs exes \<Longrightarrow> map_of offs i = Some o1 \<Longrightarrow> map_of offs j = Some o2 \<Longrightarrow> offer_key o1 = offer_key o2 \<Longrightarrow> i = j"
  by (metis core_request option.inject)

section \<open>Primitive updates of the three maps\<close>

text \<open>Offers change pointwise: each is kept or, if outstanding, ends without an execution.\<close>

definition ends_offer :: "offerRecord \<Rightarrow> offerRecord \<Rightarrow> bool" where
  "ends_offer o1 o2 \<longleftrightarrow> o2 = o1 \<or> (or_status o1 = offerOutstanding \<and>
     (o2 = o1\<lparr>or_status := offerExpired\<rparr> \<or> o2 = o1\<lparr>or_status := offerReleased\<rparr>))"

lemma ends_offer_facts:
  assumes "ends_offer o1 o2"
  shows "offer_key o2 = offer_key o1" "offer_ok i o2 = offer_ok i o1" "matched i o2 x r = matched i o1 x r"
    "or_status o2 = offerAssigned \<longleftrightarrow> or_status o1 = offerAssigned" "or_execution o2 = or_execution o1"
  using assms by (auto simp: ends_offer_def offer_key_def offer_ok_def matched_def)

lemma core_ok_end_offers:
  assumes ok: "core_ok offs reqs exes" and wf: "wf_map offs'"
    and rel: "\<And>i. rel_option ends_offer (map_of offs i) (map_of offs' i)"
  shows "core_ok offs' reqs exes"
proof -
  have cases: "(map_of offs i = None \<and> map_of offs' i = None) \<or>
      (\<exists>o1 o2. map_of offs i = Some o1 \<and> map_of offs' i = Some o2 \<and> ends_offer o1 o2)" for i
    using rel[of i] by (cases "map_of offs i"; cases "map_of offs' i") auto
  show ?thesis unfolding core_ok_def
  proof (intro conjI allI impI)
    show "wf_map offs'" "wf_map reqs" "wf_map exes" using wf core_wf[OF ok] by auto
    show "offer_ok i o2" if "map_of offs' i = Some o2" for i o2
      using cases[of i] that core_offer[OF ok, of i] by (auto simp: ends_offer_facts(2))
    show "exec_ok x r" if "map_of exes x = Some r" for x r
      using core_exec[OF ok that] .
    show "(map_of reqs k = Some i) = (\<exists>o1. map_of offs' i = Some o1 \<and> offer_key o1 = k)" for k i
      using core_request[OF ok, of k i] cases[of i] by (auto simp: ends_offer_facts(1))
    show "\<exists>r. map_of exes (or_execution o2) = Some r \<and> matched i o2 (or_execution o2) r"
      if "map_of offs' i = Some o2" "or_status o2 = offerAssigned" for i o2
      using cases[of i] that core_assigned[OF ok, of i] by (auto simp: ends_offer_facts(3-5))
    show "\<exists>o1. map_of offs' (er_offerID r) = Some o1 \<and> matched (er_offerID r) o1 x r"
      if "map_of exes x = Some r" for x r
      using core_matched[OF ok that] cases[of "er_offerID r"] by (auto simp: ends_offer_facts(3))
  qed
qed

lemma core_ok_end_offer:
  assumes "core_ok offs reqs exes" "map_of offs i = Some o1" "ends_offer o1 o2"
  shows "core_ok (map_put i o2 offs) reqs exes"
proof (rule core_ok_end_offers[OF assms(1)])
  show "wf_map (map_put i o2 offs)" using core_wf(1)[OF assms(1)] by simp
  show "rel_option ends_offer (map_of offs j) (map_of (map_put i o2 offs) j)" for j
  proof (cases "j = i")
    case False
    then show ?thesis by (cases "map_of offs j") (auto simp: ends_offer_def)
  qed (use assms in auto)
qed

text \<open>An execution changes without losing its identity.\<close>

definition same_execution :: "executionRecord \<Rightarrow> executionRecord \<Rightarrow> bool" where
  "same_execution r r' \<longleftrightarrow> er_id r' = er_id r \<and> er_offerID r' = er_offerID r \<and> er_client r' = er_client r
     \<and> er_resourceClass r' = er_resourceClass r \<and> er_request r' = er_request r"

lemma core_ok_exec:
  assumes ok: "core_ok offs reqs exes" and r: "map_of exes x = Some r" "same_execution r r'" "exec_ok x r'"
  shows "core_ok offs reqs (map_put x r' exes)"
proof -
  have m: "matched i o1 y r' = matched i o1 y r" for i o1 y
    using r(2) by (simp add: matched_def same_execution_def)
  have off: "er_offerID r' = er_offerID r" using r(2) by (simp add: same_execution_def)
  show ?thesis unfolding core_ok_def
  proof (intro conjI allI impI)
    show "wf_map offs" "wf_map reqs" "wf_map (map_put x r' exes)" using core_wf[OF ok] by auto
    show "offer_ok i o1" if "map_of offs i = Some o1" for i o1 using core_offer[OF ok that] .
    show "exec_ok y s" if "map_of (map_put x r' exes) y = Some s" for y s
      using that r(3) core_exec[OF ok] by (auto split: if_splits)
    show "(map_of reqs k = Some i) = (\<exists>o1. map_of offs i = Some o1 \<and> offer_key o1 = k)" for k i
      by (rule core_request[OF ok])
    show "\<exists>s. map_of (map_put x r' exes) (or_execution o1) = Some s \<and> matched i o1 (or_execution o1) s"
      if "map_of offs i = Some o1" "or_status o1 = offerAssigned" for i o1
      using core_assigned[OF ok that] r(1) m by (cases "or_execution o1 = x") auto
    show "\<exists>o1. map_of offs (er_offerID s) = Some o1 \<and> matched (er_offerID s) o1 y s"
      if "map_of (map_put x r' exes) y = Some s" for y s
      using that core_matched[OF ok] r(1) m off by (cases "y = x") auto
  qed
qed

text \<open>A fresh offer.\<close>

lemma core_ok_new_offer:
  assumes ok: "core_ok offs reqs exes" and new: "map_of offs i = None" "map_of reqs (offer_key o1) = None"
    and o1: "offer_ok i o1" "or_status o1 \<noteq> offerAssigned"
  shows "core_ok (map_put i o1 offs) (map_put (offer_key o1) i reqs) exes"
proof -
  have req: "map_of reqs k \<noteq> Some i" for k using core_request[OF ok, of k i] new(1) by simp
  have key: "offer_key o2 \<noteq> offer_key o1" if "map_of offs j = Some o2" for j o2
    using core_request[OF ok, of "offer_key o2" j] that new(2) by auto
  show ?thesis unfolding core_ok_def
  proof (intro conjI allI impI)
    show "wf_map (map_put i o1 offs)" "wf_map (map_put (offer_key o1) i reqs)" "wf_map exes"
      using core_wf[OF ok] by auto
    show "offer_ok j o2" if "map_of (map_put i o1 offs) j = Some o2" for j o2
      using that o1(1) core_offer[OF ok] by (auto split: if_splits)
    show "exec_ok x r" if "map_of exes x = Some r" for x r using core_exec[OF ok that] .
    show "(map_of (map_put (offer_key o1) i reqs) k = Some j)
        = (\<exists>o2. map_of (map_put i o1 offs) j = Some o2 \<and> offer_key o2 = k)" for k j
      using core_request[OF ok, of k j] req[of k] key[of j] by auto
    show "\<exists>r. map_of exes (or_execution o2) = Some r \<and> matched j o2 (or_execution o2) r"
      if "map_of (map_put i o1 offs) j = Some o2" "or_status o2 = offerAssigned" for j o2
      using that o1(2) core_assigned[OF ok, of j o2] by (auto split: if_splits)
    show "\<exists>o2. map_of (map_put i o1 offs) (er_offerID r) = Some o2 \<and> matched (er_offerID r) o2 x r"
      if "map_of exes x = Some r" for x r
      using core_matched[OF ok that] new(1) by auto
  qed
qed

text \<open>An outstanding offer is assigned to a fresh execution.\<close>

lemma core_ok_assign:
  assumes ok: "core_ok offs reqs exes" and o1: "map_of offs i = Some o1" "or_status o1 \<noteq> offerAssigned"
    and x: "map_of exes x = None" and r: "exec_ok x r" "matched i (o1\<lparr>or_status := offerAssigned, or_execution := x\<rparr>) x r"
  shows "core_ok (map_put i (o1\<lparr>or_status := offerAssigned, or_execution := x\<rparr>) offs) reqs (map_put x r exes)"
proof -
  let ?o = "o1\<lparr>or_status := offerAssigned, or_execution := x\<rparr>"
  have key: "offer_key ?o = offer_key o1" by (simp add: offer_key_def)
  have ri: "er_offerID r = i" using r(2) by (simp add: matched_def)
  have other: "er_offerID s \<noteq> i" if "map_of exes y = Some s" for y s
    using core_matched[OF ok that] o1 by (auto simp: matched_def)
  have nx: "or_execution o2 \<noteq> x" if "map_of offs j = Some o2" "or_status o2 = offerAssigned" for j o2
    using core_assigned[OF ok that] x by auto
  show ?thesis unfolding core_ok_def
  proof (intro conjI allI impI)
    show "wf_map (map_put i ?o offs)" "wf_map reqs" "wf_map (map_put x r exes)" using core_wf[OF ok] by auto
    show "offer_ok j o2" if "map_of (map_put i ?o offs) j = Some o2" for j o2
      using that core_offer[OF ok, of j] o1(1) by (auto simp: offer_ok_def split: if_splits)
    show "exec_ok y s" if "map_of (map_put x r exes) y = Some s" for y s
      using that r(1) core_exec[OF ok] by (auto split: if_splits)
    show "(map_of reqs k = Some j) = (\<exists>o2. map_of (map_put i ?o offs) j = Some o2 \<and> offer_key o2 = k)" for k j
      using core_request[OF ok, of k j] o1(1) key by auto
    show "\<exists>s. map_of (map_put x r exes) (or_execution o2) = Some s \<and> matched j o2 (or_execution o2) s"
      if "map_of (map_put i ?o offs) j = Some o2" "or_status o2 = offerAssigned" for j o2
      using that r(2) core_assigned[OF ok, of j o2] nx[of j o2] by (auto split: if_splits)
    show "\<exists>o2. map_of (map_put i ?o offs) (er_offerID s) = Some o2 \<and> matched (er_offerID s) o2 y s"
      if "map_of (map_put x r exes) y = Some s" for y s
      using that r(2) ri core_matched[OF ok, of y s] other[of y s] by (cases "y = x") auto
  qed
qed

text \<open>An offer is collected together with its execution.\<close>

lemma core_ok_collect:
  assumes ok: "core_ok offs reqs exes" and o1: "map_of offs i = Some o1" "or_status o1 \<noteq> offerOutstanding"
  shows "core_ok (map_delete i offs) (map_delete (offer_key o1) reqs) (map_delete (or_execution o1) exes)"
proof -
  have keyed: "offer_key o2 \<noteq> offer_key o1" if "map_of offs j = Some o2" "j \<noteq> i" for j o2
    using offer_key_unique[OF ok that(1) o1(1)] that(2) by blast
  have ex: "or_execution o2 \<noteq> or_execution o1"
    if j: "map_of offs j = Some o2" "j \<noteq> i" "or_status o2 = offerAssigned" for j o2
  proof
    assume eq: "or_execution o2 = or_execution o1"
    obtain r where r: "map_of exes (or_execution o2) = Some r" "matched j o2 (or_execution o2) r"
      using core_assigned[OF ok j(1,3)] by blast
    have "or_status o1 = offerAssigned"
      using core_offer[OF ok o1(1)] core_exec[OF ok r(1)] eq by (auto simp: offer_ok_def exec_ok_def)
    then show False using core_assigned[OF ok o1(1)] r eq j(2) by (auto simp: matched_def)
  qed
  have own: "x = or_execution o1" if "map_of exes x = Some r" "er_offerID r = i" for x r
    using core_matched[OF ok that(1)] that(2) o1(1) by (auto simp: matched_def)
  show ?thesis unfolding core_ok_def
  proof (intro conjI allI impI)
    show "wf_map (map_delete i offs)" "wf_map (map_delete (offer_key o1) reqs)" "wf_map (map_delete (or_execution o1) exes)"
      using core_wf[OF ok] by auto
    show "offer_ok j o2" if "map_of (map_delete i offs) j = Some o2" for j o2
      using that core_offer[OF ok] by (auto split: if_splits)
    show "exec_ok y s" if "map_of (map_delete (or_execution o1) exes) y = Some s" for y s
      using that core_exec[OF ok] by (auto split: if_splits)
    show "(map_of (map_delete (offer_key o1) reqs) k = Some j) = (\<exists>o2. map_of (map_delete i offs) j = Some o2 \<and> offer_key o2 = k)"
      for k j using core_request[OF ok, of k j] o1(1) keyed by auto
    show "\<exists>s. map_of (map_delete (or_execution o1) exes) (or_execution o2) = Some s \<and> matched j o2 (or_execution o2) s"
      if "map_of (map_delete i offs) j = Some o2" "or_status o2 = offerAssigned" for j o2
      using that core_assigned[OF ok, of j o2] ex[of j o2] by (auto split: if_splits)
    show "\<exists>o2. map_of (map_delete i offs) (er_offerID s) = Some o2 \<and> matched (er_offerID s) o2 y s"
      if "map_of (map_delete (or_execution o1) exes) y = Some s" for y s
      using that core_matched[OF ok, of y s] own[of y s] by (auto split: if_splits)
  qed
qed

end
