(* ===== verification/Alloc_Safety.thy ===== *)
theory Alloc_Safety
  imports Alloc_Invariant
begin

text \<open>
  Every section of the allocator preserves \<open>alloc_ok\<close>, whatever the clock, the identifier generator,
  the store and the runtime answer.  One lemma per primitive effect (expiry, a changed execution, a
  finished execution, a collected offer) carries the lemmas of the sections.
\<close>

named_theorems keeps_ok \<open>preservation of the allocator invariant\<close>

section \<open>Fields the invariant does not read\<close>

lemma alloc_ok_cong:
  "al_offers b = al_offers a \<Longrightarrow> al_requests b = al_requests a \<Longrightarrow> al_executions b = al_executions a \<Longrightarrow>
   al_capacity b = al_capacity a \<Longrightarrow> al_replay b = al_replay a \<Longrightarrow> al_tunnels b = al_tunnels a \<Longrightarrow>
   al_tombstones b = al_tombstones a \<Longrightarrow> al_maxRecords b = al_maxRecords a \<Longrightarrow> alloc_ok b = alloc_ok a"
  by (simp add: alloc_ok_def holders_def budget_ok_def)

lemma alloc_ok_frame [simp]:
  "alloc_ok (a\<lparr>al_store := s\<rparr>) = alloc_ok a" "alloc_ok (a\<lparr>al_highWater := t\<rparr>) = alloc_ok a"
  by (rule alloc_ok_cong; simp)+

lemma alloc_okD:
  assumes "alloc_ok a"
  shows ok_core: "core_ok (al_offers a) (al_requests a) (al_executions a)"
    and ok_ledger: "ledger.tracks (al_capacity a) (holders a)"
    and ok_cache: "cache_ok (al_replay a)"
    and ok_registry: "registry_ok (al_tunnels a)"
    and ok_dead: "dead_ok (al_tombstones a)"
    and ok_budget: "budget_ok a"
  using assms by (simp_all add: alloc_ok_def)

lemma alloc_ok_replay: "alloc_ok a \<Longrightarrow> cache_ok c \<Longrightarrow> alloc_ok (a\<lparr>al_replay := c\<rparr>)"
  by (simp add: alloc_ok_def holders_def budget_ok_def)

lemma alloc_ok_tunnels: "alloc_ok a \<Longrightarrow> registry_ok r \<Longrightarrow> alloc_ok (a\<lparr>al_tunnels := r\<rparr>)"
  by (simp add: alloc_ok_def holders_def budget_ok_def)

section \<open>Persistence\<close>

lemma persistLocked_fst: "fst (persistLocked sv a) = a \<or> fst (persistLocked sv a) = a\<lparr>al_store := Some (Some (persisted_snapshot a))\<rparr>"
  by (auto simp: persistLocked_def split: option.splits)

lemma persist_frame [simp]:
  "al_offers (fst (persistLocked sv a)) = al_offers a" "al_requests (fst (persistLocked sv a)) = al_requests a"
  "al_executions (fst (persistLocked sv a)) = al_executions a" "al_capacity (fst (persistLocked sv a)) = al_capacity a"
  "al_replay (fst (persistLocked sv a)) = al_replay a" "al_tunnels (fst (persistLocked sv a)) = al_tunnels a"
  "al_tombstones (fst (persistLocked sv a)) = al_tombstones a" "al_maxRecords (fst (persistLocked sv a)) = al_maxRecords a"
  "al_highWater (fst (persistLocked sv a)) = al_highWater a" "al_identity (fst (persistLocked sv a)) = al_identity a"
  "al_leaseTTL (fst (persistLocked sv a)) = al_leaseTTL a" "al_retention (fst (persistLocked sv a)) = al_retention a"
  using persistLocked_fst[of sv a] by auto

lemma persist_fields:
  assumes "persistLocked sv a = (b, e)"
  shows "al_offers b = al_offers a" "al_requests b = al_requests a" "al_executions b = al_executions a"
    "al_capacity b = al_capacity a" "al_replay b = al_replay a" "al_tunnels b = al_tunnels a"
    "al_tombstones b = al_tombstones a" "al_highWater b = al_highWater a" "al_identity b = al_identity a"
  using persist_frame[of sv a] assms by simp_all

lemma alloc_ok_persist [keeps_ok, simp]: "alloc_ok (fst (persistLocked sv a)) = alloc_ok a"
  using persistLocked_fst[of sv a] by auto

lemma persist_cases:
  obtains (saved) a' where "persistLocked sv a = (a', None)" "alloc_ok a' = alloc_ok a" "al_executions a' = al_executions a"
      "al_replay a' = al_replay a"
  | (failed) e where "persistLocked sv a = (a, Some e)" "errors_Is e ErrStore"
proof (cases "persistLocked sv a")
  case (Pair a' e)
  show ?thesis
  proof (cases e)
    case None
    with Pair saved alloc_ok_persist[of sv a] persist_frame(3,5)[of sv a] show ?thesis by simp
  next
    case (Some x)
    with Pair persistLocked_fail[of sv a a' x] failed show ?thesis by simp
  qed
qed

section \<open>Expiry\<close>

lemma expire_loop_keys: "map fst (fst (expire_loop W now m l)) = map fst m"
  by (induction W now m l rule: expire_loop.induct) (auto split: prod.splits)

lemma expire_loop_wf: "wf_map m \<Longrightarrow> wf_map (fst (expire_loop W now m l))"
  by (simp add: wf_map_def expire_loop_keys)

lemma expire_loop_lookup:
  "rel_option ends_offer (map_of m i) (map_of (fst (expire_loop W now m l)) i)"
  by (induction W now m l rule: expire_loop.induct) (auto simp: ends_offer_def split: prod.splits)

lemma expire_loop_length [simp]: "length (fst (expire_loop W now m l)) = length m"
  by (induction W now m l rule: expire_loop.induct) (auto split: prod.splits)

lemma expire_loop_tracks:
  "ledger.tracks l (collect outstanding_class m + H) \<Longrightarrow>
     ledger.tracks (fst (snd (expire_loop W now m l))) (collect outstanding_class (fst (expire_loop W now m l)) + H)"
proof (induction W now m l arbitrary: H rule: expire_loop.induct)
  case (2 W now i o1 m l)
  show ?case
  proof (cases "or_status o1 = offerOutstanding \<and> \<not> AsTime W (of_expires_at (or_offer o1)) > now")
    case True
    then have "ledger.tracks (release (of_resource_class (or_offer o1)) l) (collect outstanding_class m + H)"
      using 2(3) by (intro ledger.tracks_give) (simp add: outstanding_class_def [of o1])
    from 2(1)[OF True this] True show ?thesis
      by (auto simp: outstanding_class_def [of "o1\<lparr>or_status := offerExpired\<rparr>"] split: prod.splits)
  next
    case False
    have "ledger.tracks l (collect outstanding_class m + (opt_mset (outstanding_class o1) + H))"
      using 2(3) by (simp add: ac_simps)
    from 2(2)[OF False this] False show ?thesis by (auto simp: ac_simps split: prod.splits)
  qed
qed simp

lemma expire_frame [simp]:
  "al_requests (fst (expireOffersLocked W now a)) = al_requests a" "al_executions (fst (expireOffersLocked W now a)) = al_executions a"
  "al_replay (fst (expireOffersLocked W now a)) = al_replay a" "al_tunnels (fst (expireOffersLocked W now a)) = al_tunnels a"
  "al_tombstones (fst (expireOffersLocked W now a)) = al_tombstones a" "al_maxRecords (fst (expireOffersLocked W now a)) = al_maxRecords a"
  "al_highWater (fst (expireOffersLocked W now a)) = al_highWater a" "al_store (fst (expireOffersLocked W now a)) = al_store a"
  "al_leaseTTL (fst (expireOffersLocked W now a)) = al_leaseTTL a" "al_identity (fst (expireOffersLocked W now a)) = al_identity a"
  "al_node (fst (expireOffersLocked W now a)) = al_node a" "al_offerTTL (fst (expireOffersLocked W now a)) = al_offerTTL a"
  "al_admission (fst (expireOffersLocked W now a)) = al_admission a" "al_retention (fst (expireOffersLocked W now a)) = al_retention a"
  by (simp_all add: expireOffersLocked_def split: prod.splits)

lemma expire_parts:
  "al_offers (fst (expireOffersLocked W now a)) = fst (expire_loop W now (al_offers a) (al_capacity a))"
  "al_capacity (fst (expireOffersLocked W now a)) = fst (snd (expire_loop W now (al_offers a) (al_capacity a)))"
  by (simp_all add: expireOffersLocked_def split: prod.splits)

lemma alloc_ok_expire [keeps_ok, intro]:
  assumes "alloc_ok a"
  shows "alloc_ok (fst (expireOffersLocked W now a))"
proof -
  let ?b = "fst (expireOffersLocked W now a)"
  have "core_ok (al_offers ?b) (al_requests ?b) (al_executions ?b)"
    using core_ok_end_offers[OF ok_core[OF assms] _ expire_loop_lookup] expire_loop_wf core_wf(1)[OF ok_core[OF assms]]
    by (simp add: expire_parts)
  moreover have "ledger.tracks (al_capacity ?b) (holders ?b)"
    using expire_loop_tracks[of "al_capacity a" "al_offers a" "collect live_class (al_executions a)" W now] ok_ledger[OF assms]
    by (simp add: holders_def expire_parts)
  ultimately show ?thesis using assms by (simp add: alloc_ok_def budget_ok_def expire_parts)
qed

section \<open>Changing and finishing an execution\<close>

lemma holders_exec:
  assumes "alloc_ok a" "map_of (al_executions a) x = Some r"
  shows "holders a = opt_mset (live_class r) + (collect outstanding_class (al_offers a) + collect live_class (map_delete x (al_executions a)))"
    and "holders (a\<lparr>al_executions := map_put x r' (al_executions a)\<rparr>) =
      opt_mset (live_class r') + (collect outstanding_class (al_offers a) + collect live_class (map_delete x (al_executions a)))"
  using collect_split[OF core_wf(3)[OF ok_core[OF assms(1)]] assms(2), of live_class]
    collect_put[OF core_wf(3)[OF ok_core[OF assms(1)]], of live_class x r']
  by (simp_all add: holders_def ac_simps)

lemma alloc_ok_exec:
  assumes ok: "alloc_ok a" and r: "map_of (al_executions a) x = Some r" "same_execution r r'" "exec_ok x r'"
    and "er_released r' = er_released r"
  shows "alloc_ok (a\<lparr>al_executions := map_put x r' (al_executions a)\<rparr>)"
proof -
  have "live_class r' = live_class r" using assms(5) r(2) by (simp add: live_class_def same_execution_def)
  then have "holders (a\<lparr>al_executions := map_put x r' (al_executions a)\<rparr>) = holders a"
    using holders_exec[OF ok r(1)] by simp
  then show ?thesis using ok core_ok_exec[OF ok_core[OF ok] r] by (simp add: alloc_ok_def budget_ok_def)
qed

lemma finishLocked_frame [simp]:
  "al_offers (finishLocked x r p d c t a) = al_offers a" "al_requests (finishLocked x r p d c t a) = al_requests a"
  "al_replay (finishLocked x r p d c t a) = al_replay a" "al_tombstones (finishLocked x r p d c t a) = al_tombstones a"
  "al_maxRecords (finishLocked x r p d c t a) = al_maxRecords a" "al_highWater (finishLocked x r p d c t a) = al_highWater a"
  "al_store (finishLocked x r p d c t a) = al_store a" "al_identity (finishLocked x r p d c t a) = al_identity a"
  by (simp_all add: finishLocked_def Let_def)

lemma finishLocked_exec:
  "\<exists>r'. al_executions (finishLocked x r p d c t a) = map_put x r' (al_executions a) \<and> same_execution r r'
     \<and> er_released r' \<and> er_phase r' = p \<and> er_detail r' = d \<and> er_startedAt r' = er_startedAt r \<and> er_occurredAt r' = t
     \<and> er_revision r' = er_revision r + 1 \<and> er_retainUntil r' = max t (al_highWater a) + al_retention a
     \<and> er_leaseUntil r' = er_leaseUntil r"
  by (auto simp: finishLocked_def Let_def same_execution_def max_def)

lemma alloc_ok_finish [keeps_ok]:
  assumes ok: "alloc_ok a" and r: "map_of (al_executions a) x = Some r" "\<not> Terminal (er_phase r)"
    and p: "Terminal p" "known_phase p" and t: "t \<noteq> zero_time"
  shows "alloc_ok (finishLocked x r p d c t a)"
proof -
  let ?b = "finishLocked x r p d c t a"
  have ex: "exec_ok x r" using core_exec[OF ok_core[OF ok] r(1)] .
  then have live: "\<not> er_released r" using r(2) by (simp add: exec_ok_def)
  obtain r' where r': "al_executions ?b = map_put x r' (al_executions a)" "same_execution r r'"
      "er_released r'" "er_phase r' = p" "er_startedAt r' = er_startedAt r" "er_occurredAt r' = t"
    using finishLocked_exec[of x r p d c t a] by blast
  have ex': "exec_ok x r'" using ex r' p t by (simp add: exec_ok_def same_execution_def)
  have core: "core_ok (al_offers ?b) (al_requests ?b) (al_executions ?b)"
    using core_ok_exec[OF ok_core[OF ok] r(1) r'(2) ex'] r'(1) by simp
  let ?H = "collect outstanding_class (al_offers a) + collect live_class (map_delete x (al_executions a))"
  have "holders ?b = holders (a\<lparr>al_executions := map_put x r' (al_executions a)\<rparr>)" using r'(1) by (simp add: holders_def)
  also have "\<dots> = ?H" using holders_exec(2)[OF ok r(1), of r'] r'(3) by (simp add: live_class_def [of r'])
  finally have "holders ?b = ?H" .
  moreover have "holders a = add_mset (er_resourceClass r) ?H"
    using holders_exec(1)[OF ok r(1)] live by (simp add: live_class_def [of r])
  moreover have "al_capacity ?b = release (er_resourceClass r) (al_capacity a)"
    using live by (simp add: finishLocked_def Let_def)
  ultimately have "ledger.tracks (al_capacity ?b) (holders ?b)"
    using ledger.tracks_give ok_ledger[OF ok] by simp
  moreover have "registry_ok (al_tunnels ?b)" using ok_registry[OF ok] by (auto simp: finishLocked_def Let_def)
  ultimately show ?thesis using core ok by (simp add: alloc_ok_def budget_ok_def)
qed

lemma alloc_ok_mark:
  assumes "alloc_ok a" "map_of (al_executions a) x = Some r" "\<not> Terminal (er_phase r)" "t \<noteq> zero_time"
  shows "alloc_ok (a\<lparr>al_executions := map_put x (mark_cancelling d t r) (al_executions a)\<rparr>)"
  using core_exec[OF ok_core[OF assms(1)] assms(2)] assms
  by (intro alloc_ok_exec) (auto simp: mark_cancelling_def same_execution_def exec_ok_def)

lemma alloc_ok_restore_phase:
  assumes "alloc_ok a" "map_of (al_executions a) x = Some r" "\<not> Terminal (er_phase r)" "\<not> Terminal p" "known_phase p" "t \<noteq> zero_time"
  shows "alloc_ok (a\<lparr>al_executions := map_put x (restore_phase p d t r) (al_executions a)\<rparr>)"
  using core_exec[OF ok_core[OF assms(1)] assms(2)] assms
  by (intro alloc_ok_exec) (auto simp: restore_phase_def same_execution_def exec_ok_def)

lemma alloc_ok_running:
  assumes "alloc_ok a" "map_of (al_executions a) x = Some r" "er_phase r = EXECUTION_PHASE_STARTING" "t \<noteq> zero_time"
  shows "alloc_ok (a\<lparr>al_executions := map_put x (r\<lparr>er_phase := EXECUTION_PHASE_RUNNING, er_occurredAt := t,
     er_revision := er_revision r + 1\<rparr>) (al_executions a)\<rparr>)"
  using core_exec[OF ok_core[OF assms(1)] assms(2)] assms
  by (intro alloc_ok_exec) (auto simp: same_execution_def exec_ok_def)

end
