(* ===== verification/Alloc_Preserve.thy ===== *)
theory Alloc_Preserve
  imports Alloc_Safety
begin

text \<open>
  Preservation of the allocator invariant by each handler and each background section.
\<close>

section \<open>Request\<close>

lemma requestRefused_None:
  assumes "requestRefused id1 env req a = None"
  shows "id1 \<noteq> []" "map_of (al_offers a) id1 = None" "fst (reserve (rq_resource_class req) (al_capacity a)) = None"
    "2 * int (length (al_offers a)) + int (length (al_tombstones a)) + 2 \<le> al_maxRecords a"
    "PlacementMatches (rq_constraints req) (al_node a)" "admitLocked (sender env) False a = None"
  using assms by (auto simp: requestRefused_def Let_def available_zero split: if_splits)

text \<open>The states \<open>issueOffer\<close> passes through: the offer recorded, the slot taken.\<close>

definition offer_state :: "string \<Rightarrow> Envelope \<Rightarrow> ExecutionRequest \<Rightarrow> offerRecord \<Rightarrow> Allocator \<Rightarrow> Allocator" where
  "offer_state id1 env req o1 a = a\<lparr>al_offers := map_put id1 o1 (al_offers a),
     al_requests := map_put (authorityKey (sender env) (rq_request_id req)) id1 (al_requests a)\<rparr>"

definition withdraw :: "string \<Rightarrow> Envelope \<Rightarrow> ExecutionRequest \<Rightarrow> Allocator \<Rightarrow> Allocator" where
  "withdraw id1 env req a = a\<lparr>al_requests := map_delete (authorityKey (sender env) (rq_request_id req)) (al_requests a),
     al_offers := map_delete id1 (al_offers a)\<rparr>"

lemma issueOffer_cases:
  fixes W now id1 id2 sv env req a
  defines "o1 \<equiv> new_offer W now id1 env req a" and "cls \<equiv> rq_resource_class req"
  defines "a2 \<equiv> (offer_state id1 env req o1 a)\<lparr>al_capacity := snd (reserve cls (al_capacity a))\<rparr>"
  shows "fst (issueOffer W now id1 id2 sv env req a) = (if id2 = [] then a
     else if fst (reserve cls (al_capacity a)) \<noteq> None then withdraw id1 env req (offer_state id1 env req o1 a)
     else if snd (persistLocked sv a2) = None then fst (persistLocked sv a2)
     else (withdraw id1 env req (fst (persistLocked sv a2)))\<lparr>al_capacity := release cls (al_capacity (fst (persistLocked sv a2)))\<rparr>)"
  unfolding issueOffer_def offerEnvelopeLocked_def Let_def o1_def[symmetric] cls_def[symmetric] offer_state_def[symmetric] a2_def withdraw_def
  by (simp add: prod.case_eq_if offer_state_def split: option.split)

lemma alloc_ok_issueOffer:
  assumes ok: "alloc_ok a" and ref: "requestRefused id1 env req a = None"
    and new: "map_of (al_requests a) (authorityKey (sender env) (rq_request_id req)) = None"
    and req: "rq_request_id req \<noteq> []" "rq_resource_class req \<noteq> []"
    and utf: "valid_utf8 id1" "valid_utf8 (rq_request_id req)" "valid_utf8 (rq_resource_class req)"
  shows "alloc_ok (fst (issueOffer W now id1 id2 sv env req a))"
proof -
  note r = requestRefused_None[OF ref]
  define cls o1 where "cls = rq_resource_class req" and "o1 = new_offer W now id1 env req a"
  define a2 where "a2 = (offer_state id1 env req o1 a)\<lparr>al_capacity := snd (reserve cls (al_capacity a))\<rparr>"
  have o1: "offer_key o1 = authorityKey (sender env) (rq_request_id req)" "offer_ok id1 o1" "or_status o1 = offerOutstanding"
      "of_resource_class (or_offer o1) = cls"
    using req utf r(1) by (simp_all add: offer_key_def offer_ok_def o1_def new_offer_def cls_def)
  have core: "core_ok (al_offers a2) (al_requests a2) (al_executions a2)"
    using core_ok_new_offer[OF ok_core[OF ok] r(2), of o1] new o1 by (simp add: a2_def offer_state_def)
  have hold: "holders a2 = add_mset cls (holders a)"
    using collect_put_new[OF r(2), of outstanding_class o1] o1(3,4)
    by (simp add: holders_def a2_def offer_state_def outstanding_class_def [of o1])
  have track: "ledger.tracks (al_capacity a2) (add_mset cls (holders a))"
    using ledger.tracks_take[OF ok_ledger[OF ok], of cls] r(3) by (simp add: cls_def a2_def)
  have ok2: "alloc_ok a2"
    using ok core hold track r(2,4) by (simp add: alloc_ok_def budget_ok_def length_put) (simp add: a2_def offer_state_def length_put)
  have undo: "(withdraw id1 env req a2)\<lparr>al_capacity := release cls (al_capacity a2)\<rparr> = a\<lparr>al_capacity := release cls (al_capacity a2)\<rparr>"
    using new r(2) by (simp add: a2_def withdraw_def offer_state_def)
  have ok3: "alloc_ok (a\<lparr>al_capacity := release cls (al_capacity a2)\<rparr>)"
    using ok ledger.tracks_give[OF track] by (simp add: alloc_ok_def holders_def budget_ok_def)
  have "fst (issueOffer W now id1 id2 sv env req a) = (if id2 = [] then a else if snd (persistLocked sv a2) = None then fst (persistLocked sv a2)
      else (withdraw id1 env req (fst (persistLocked sv a2)))\<lparr>al_capacity := release cls (al_capacity (fst (persistLocked sv a2)))\<rparr>)"
    using r(3) unfolding issueOffer_cases a2_def o1_def cls_def by simp
  then show ?thesis using ok ok2 ok3 undo by (cases rule: persist_cases[of sv a2]) simp_all
qed

lemma alloc_ok_handleRequest [keeps_ok]:
  assumes ok: "alloc_ok a" and req: "rq_request_id req \<noteq> []" "rq_resource_class req \<noteq> []"
    and utf: "valid_utf8 id1" "valid_utf8 (rq_request_id req)" "valid_utf8 (rq_resource_class req)"
  shows "alloc_ok (fst (handleRequest W now id1 id2 sv env req a))"
proof -
  let ?a = "fst (expireOffersLocked W now a)"
  have ok1: "alloc_ok ?a" using ok by auto
  let ?k = "authorityKey (sender env) (rq_request_id req)"
  show ?thesis
  proof (cases "map_of (al_requests ?a) ?k")
    case None
    then show ?thesis using ok1 alloc_ok_issueOffer[OF ok1 _ None req utf]
      by (auto simp: handleRequest_def Let_def split: option.split)
  next
    case (Some i)
    then obtain o1 where "map_of (al_offers ?a) i = Some o1" using core_request[OF ok_core[OF ok1]] by auto
    then show ?thesis using ok1 Some by (simp add: handleRequest_def Let_def)
  qed
qed

section \<open>Assign\<close>

lemma alloc_ok_assign:
  assumes ok: "alloc_ok a" and o1: "map_of (al_offers a) i = Some o1" "or_status o1 = offerOutstanding"
    and x: "map_of (al_executions a) x = None" "x \<noteq> []" "valid_utf8 x" and t: "now \<noteq> zero_time"
  shows "alloc_ok (a\<lparr>al_offers := map_put i (o1\<lparr>or_status := offerAssigned, or_execution := x\<rparr>) (al_offers a),
     al_executions := map_put x (new_execution now x o1 a) (al_executions a)\<rparr>)" (is "alloc_ok ?b")
proof -
  let ?r = "new_execution now x o1 a"
  let ?o = "o1\<lparr>or_status := offerAssigned, or_execution := x\<rparr>"
  have off: "offer_ok i o1" using core_offer[OF ok_core[OF ok] o1(1)] .
  have core: "core_ok (al_offers ?b) (al_requests ?b) (al_executions ?b)"
    using core_ok_assign[OF ok_core[OF ok] o1(1) _ x(1), of ?r] o1(2) x(2,3) t off
    by (simp add: new_execution_def exec_ok_def matched_def offer_ok_def)
  have wf: "wf_map (al_offers a)" using core_wf(1)[OF ok_core[OF ok]] .
  have "collect outstanding_class (al_offers a) = {#of_resource_class (or_offer o1)#} + collect outstanding_class (map_delete i (al_offers a))"
    using collect_split[OF wf o1(1), of outstanding_class] o1(2) by (simp add: outstanding_class_def [of o1])
  moreover have "collect outstanding_class (al_offers ?b) = collect outstanding_class (map_delete i (al_offers a))"
    using collect_put[OF wf, of outstanding_class i ?o] by (simp add: outstanding_class_def [of ?o])
  moreover have "live_class ?r = Some (of_resource_class (or_offer o1))" by (simp add: live_class_def new_execution_def)
  then have "collect live_class (al_executions ?b) = {#of_resource_class (or_offer o1)#} + collect live_class (al_executions a)"
    using collect_put_new[OF x(1), of live_class ?r] by simp
  ultimately have "holders ?b = holders a" by (simp add: holders_def)
  then show ?thesis using core ok o1(1) by (simp add: alloc_ok_def budget_ok_def length_put)
qed

lemma assignOffer_undo:
  assumes ok: "alloc_ok a" and o1: "map_of (al_offers a) i = Some o1" "or_status o1 = offerOutstanding"
    and x: "map_of (al_executions a) x = None"
  shows "assignOffer now sv x i o1 a =
    (let a1 = a\<lparr>al_offers := map_put i (o1\<lparr>or_status := offerAssigned, or_execution := x\<rparr>) (al_offers a),
                 al_executions := map_put x (new_execution now x o1 a) (al_executions a)\<rparr>
     in case persistLocked sv a1 of
       (a2, None) \<Rightarrow> (a2, AssignStart (startRequestLocked (new_execution now x o1 a)))
     | (a2, Some e) \<Rightarrow> (a, AssignReply ([], Some e)))"
proof -
  define a1 where "a1 = a\<lparr>al_offers := map_put i (o1\<lparr>or_status := offerAssigned, or_execution := x\<rparr>) (al_offers a),
         al_executions := map_put x (new_execution now x o1 a) (al_executions a)\<rparr>"
  have "o1\<lparr>or_status := offerOutstanding, or_execution := []\<rparr> = o1"
    using o1 core_offer[OF ok_core[OF ok] o1(1)] by (simp add: offer_ok_def)
  then have undo: "a1\<lparr>al_executions := map_delete x (al_executions a1),
      al_offers := map_put i (o1\<lparr>or_status := offerOutstanding, or_execution := []\<rparr>) (al_offers a1)\<rparr> = a"
    using o1 x by (simp add: a1_def)
  show ?thesis unfolding assignOffer_def Let_def a1_def[symmetric]
    by (cases rule: persist_cases[of sv a1]) (simp_all add: undo)
qed

lemma alloc_ok_assignOffer:
  assumes "alloc_ok a" "map_of (al_offers a) i = Some o1" "or_status o1 = offerOutstanding"
    "map_of (al_executions a) x = None" "x \<noteq> []" "valid_utf8 x" "now \<noteq> zero_time"
  shows "alloc_ok (fst (assignOffer now sv x i o1 a))"
proof -
  let ?a1 = "a\<lparr>al_offers := map_put i (o1\<lparr>or_status := offerAssigned, or_execution := x\<rparr>) (al_offers a),
         al_executions := map_put x (new_execution now x o1 a) (al_executions a)\<rparr>"
  have ok1: "alloc_ok ?a1" using assms by (intro alloc_ok_assign) auto
  show ?thesis unfolding assignOffer_undo[OF assms(1-4)] Let_def
    using ok1 assms(1) by (cases rule: persist_cases[of sv ?a1]) simp_all
qed

lemma alloc_ok_handleAssign_begin [keeps_ok]:
  assumes ok: "alloc_ok a" and x: "as_execution_id asg \<noteq> []" "valid_utf8 (as_execution_id asg)" and t: "now \<noteq> zero_time"
  shows "alloc_ok (fst (handleAssign_begin W now mid sv env asg a))"
proof -
  let ?a = "fst (expireOffersLocked W now a)"
  have ok1: "alloc_ok ?a" using ok by auto
  show ?thesis
  proof (cases "map_of (al_offers ?a) (as_offer_id asg)")
    case None
    then show ?thesis using ok1 by (simp add: handleAssign_begin_def Let_def)
  next
    case (Some o1)
    have "alloc_ok (fst (assignOffer now sv (as_execution_id asg) (as_offer_id asg) o1 ?a))"
      if "or_status o1 = offerOutstanding" "map_of (al_executions ?a) (as_execution_id asg) = None"
      using alloc_ok_assignOffer[OF ok1 Some that x t] .
    then show ?thesis using ok1 Some
      by (cases "or_status o1"; cases "map_of (al_executions ?a) (as_execution_id asg)")
        (auto simp: handleAssign_begin_def Let_def split: option.split)
  qed
qed

lemma alloc_ok_handleAssign_finish [keeps_ok]:
  assumes ok: "alloc_ok a" and t: "t1 \<noteq> zero_time"
    and fin: "handleAssign_finish W t1 t2 mid sv env x startErr a = Some (a', rep)"
  shows "alloc_ok a'"
proof (cases "map_of (al_executions a) x")
  case None
  with fin show ?thesis by (simp add: handleAssign_finish_def)
next
  case (Some r)
  define a1 where "a1 = (if er_phase r = EXECUTION_PHASE_STARTING
      then (case startErr of Some e \<Rightarrow> finishLocked x r EXECUTION_PHASE_FAILED (Error e) None t1 a
        | None \<Rightarrow> a\<lparr>al_executions := map_put x (r\<lparr>er_phase := EXECUTION_PHASE_RUNNING,
            er_occurredAt := t1, er_revision := er_revision r + 1\<rparr>) (al_executions a)\<rparr>) else a)"
  have "alloc_ok a1"
    using ok t Some alloc_ok_finish[OF ok Some] alloc_ok_running[OF ok Some] by (auto simp: a1_def Terminal_def split: option.split)
  moreover have "a' = fst (persistLocked sv a1)"
    using fin Some by (simp add: handleAssign_finish_def Let_def flip: a1_def split: prod.splits)
  ultimately show ?thesis by simp
qed

section \<open>Cancel\<close>

lemma rollback_exec [simp]:
  "map_of (al_executions a) x = Some r \<Longrightarrow>
     a\<lparr>al_executions := map_put x r (map_put x r' (al_executions a))\<rparr> = a"
  by simp

lemma alloc_ok_handleCancel_begin [keeps_ok]:
  assumes ok: "alloc_ok a" and t: "now \<noteq> zero_time"
  shows "alloc_ok (fst (handleCancel_begin W now mid sv env c a))"
proof (cases "map_of (al_executions a) (ca_execution_id c)")
  case None
  with ok show ?thesis by (simp add: handleCancel_begin_def Let_def)
next
  case (Some r)
  let ?x = "ca_execution_id c"
  let ?a1 = "a\<lparr>al_executions := map_put ?x (mark_cancelling (ca_reason c) now r) (al_executions a)\<rparr>"
  have "alloc_ok ?a1" if "\<not> Terminal (er_phase r)" using alloc_ok_mark[OF ok Some that t] .
  with ok Some show ?thesis
    by (cases rule: persist_cases[of sv ?a1]) (auto simp: handleCancel_begin_def Let_def)
qed

lemma alloc_ok_handleCancel_finish [keeps_ok]:
  assumes ok: "alloc_ok a" and t: "t1 \<noteq> zero_time" and p: "\<not> Terminal p" "known_phase p"
    and fin: "handleCancel_finish W t1 t2 mid sv env x p d reason stopErr a = Some (a', rep)"
  shows "alloc_ok a'"
proof (cases "map_of (al_executions a) x")
  case None
  with fin show ?thesis by (simp add: handleCancel_finish_def)
next
  case (Some r)
  define a1 where "a1 = (case stopErr of
      Some e \<Rightarrow> if er_phase r = EXECUTION_PHASE_CANCELLING
        then a\<lparr>al_executions := map_put x (restore_phase p d t1 r) (al_executions a)\<rparr> else a
    | None \<Rightarrow> if \<not> Terminal (er_phase r) then finishLocked x r EXECUTION_PHASE_CANCELLED reason None t1 a else a)"
  have "alloc_ok a1"
    using ok t Some alloc_ok_finish[OF ok Some] alloc_ok_restore_phase[OF ok Some _ p t]
    by (auto simp: a1_def Terminal_def split: option.split)
  moreover have "a' = fst (persistLocked sv a1)"
    using fin Some by (auto simp: handleCancel_finish_def a1_def Let_def split: prod.splits option.splits)
  ultimately show ?thesis by simp
qed

section \<open>Lease renewal and offer release\<close>

lemma alloc_ok_handleLeaseRenew [keeps_ok]:
  assumes ok: "alloc_ok a"
  shows "alloc_ok (fst (handleLeaseRenew W now mid sv env rn a))"
proof (cases "map_of (al_executions a) (rn_execution_id rn)")
  case None
  with ok show ?thesis by (simp add: handleLeaseRenew_def Let_def)
next
  case (Some r)
  define d where "d = (case rn_lease_duration rn of
    None \<Rightarrow> pd_AsDuration W \<lparr>pd_seconds = 0, pd_nanos = 0\<rparr> | Some d \<Rightarrow> pd_AsDuration W d)"
  let ?a1 = "a\<lparr>al_executions := map_put (rn_execution_id rn) (r\<lparr>er_leaseUntil := now + d\<rparr>) (al_executions a)\<rparr>"
  have "alloc_ok ?a1"
    using core_exec[OF ok_core[OF ok] Some] by (intro alloc_ok_exec[OF ok Some]) (auto simp: same_execution_def exec_ok_def)
  with ok Some show ?thesis
    by (cases rule: persist_cases[of sv ?a1]) (simp_all add: handleLeaseRenew_def Let_def flip: d_def)
qed

lemma alloc_ok_end_offer:
  assumes ok: "alloc_ok a" and o1: "map_of (al_offers a) i = Some o1" "or_status o1 = offerOutstanding"
    and st: "st = offerExpired \<or> st = offerReleased"
  shows "alloc_ok (a\<lparr>al_offers := map_put i (o1\<lparr>or_status := st\<rparr>) (al_offers a),
     al_capacity := release (of_resource_class (or_offer o1)) (al_capacity a)\<rparr>)" (is "alloc_ok ?b")
proof -
  have core: "core_ok (al_offers ?b) (al_requests ?b) (al_executions ?b)"
    using core_ok_end_offer[OF ok_core[OF ok] o1(1)] o1(2) st by (auto simp: ends_offer_def)
  have wf: "wf_map (al_offers a)" using core_wf(1)[OF ok_core[OF ok]] .
  have "collect outstanding_class (al_offers a) = {#of_resource_class (or_offer o1)#} + collect outstanding_class (map_delete i (al_offers a))"
    using collect_split[OF wf o1(1), of outstanding_class] o1(2) by (simp add: outstanding_class_def [of o1])
  moreover have "collect outstanding_class (al_offers ?b) = collect outstanding_class (map_delete i (al_offers a))"
    using collect_put[OF wf, of outstanding_class i "o1\<lparr>or_status := st\<rparr>"] st by (auto simp: outstanding_class_def [of "o1\<lparr>or_status := st\<rparr>"])
  ultimately have "holders a = add_mset (of_resource_class (or_offer o1)) (holders ?b)" by (simp add: holders_def)
  then have "ledger.tracks (al_capacity ?b) (holders ?b)" using ledger.tracks_give ok_ledger[OF ok] by simp
  then show ?thesis using core ok o1(1) by (simp add: alloc_ok_def budget_ok_def length_put)
qed

lemma released_status_cases:
  "released_status W now o1 \<noteq> or_status o1 \<Longrightarrow>
     or_status o1 = offerOutstanding \<and> (released_status W now o1 = offerExpired \<or> released_status W now o1 = offerReleased)"
  by (auto simp: released_status_def split: if_splits)

text \<open>Giving the slot back and taking it again restores the ledger up to the representation of the map.\<close>

lemma tracks_retake:
  assumes "ledger.tracks l (add_mset c H)"
  shows "ledger.tracks (snd (reserve c (release c l))) (add_mset c H)"
proof -
  have t: "ledger.tracks (release c l) H" using ledger.tracks_give[OF assms] .
  have "count H c < slot_limit l c" using ledger.tracks_bounded[OF assms, of c] by simp
  then have "fst (reserve c (release c l)) = None"
    using ledger.tracks_free[OF t, of c] by (simp add: slot_limit_def)
  then show ?thesis using ledger.tracks_take[OF t] by simp
qed

text \<open>The offer ended with the slot given back, and what a failed save puts back.\<close>

definition ended_state :: "string \<Rightarrow> offerRecord \<Rightarrow> offerStatus \<Rightarrow> Allocator \<Rightarrow> Allocator" where
  "ended_state i o1 st a = a\<lparr>al_offers := map_put i (o1\<lparr>or_status := st\<rparr>) (al_offers a),
     al_capacity := release (of_resource_class (or_offer o1)) (al_capacity a)\<rparr>"

definition unended :: "string \<Rightarrow> offerRecord \<Rightarrow> Allocator \<Rightarrow> Allocator" where
  "unended i o1 a = a\<lparr>al_offers := map_put i o1 (al_offers a),
     al_capacity := snd (reserve (of_resource_class (or_offer o1)) (al_capacity a))\<rparr>"

lemma handleOfferRelease_cases:
  assumes "map_of (al_offers a) (rl_offer_id rel) = Some o1"
  shows "fst (handleOfferRelease W now mid sv env rel a) =
    (let a1 = ended_state (rl_offer_id rel) o1 (released_status W now o1) a in
     if or_client o1 \<noteq> sender env \<or> of_request_id (or_offer o1) \<noteq> rl_request_id rel \<or> mid = [] \<or> released_status W now o1 = or_status o1 then a
     else if snd (persistLocked sv a1) = None then fst (persistLocked sv a1) else unended (rl_offer_id rel) o1 (fst (persistLocked sv a1)))"
  using assms unfolding handleOfferRelease_def Let_def ended_state_def[symmetric] unended_def
  by (simp add: prod.case_eq_if split: option.split)

lemma alloc_ok_handleOfferRelease [keeps_ok]:
  assumes ok: "alloc_ok a"
  shows "alloc_ok (fst (handleOfferRelease W now mid sv env rel a))"
proof (cases "map_of (al_offers a) (rl_offer_id rel)")
  case None
  with ok show ?thesis by (simp add: handleOfferRelease_def split: option.split)
next
  case (Some o1)
  let ?i = "rl_offer_id rel" and ?c = "of_resource_class (or_offer o1)" and ?st = "released_status W now o1"
  define a1 where "a1 = ended_state ?i o1 ?st a"
  have "alloc_ok a1 \<and> alloc_ok (unended ?i o1 a1)" if False: "?st \<noteq> or_status o1"
  proof
    note st = released_status_cases[OF False]
    show "alloc_ok a1" using alloc_ok_end_offer[OF ok Some, of ?st] st by (auto simp: a1_def ended_state_def)
    have "\<exists>H. holders a = add_mset ?c H"
      using collect_in[OF Some, of outstanding_class ?c] st
      by (metis add_mset_add_single holders_def mset_add outstanding_class_def union_mset_add_mset_left)
    then have "ledger.tracks (snd (reserve ?c (release ?c (al_capacity a)))) (holders a)"
      using tracks_retake ok_ledger[OF ok] by metis
    then have "alloc_ok (a\<lparr>al_capacity := snd (reserve ?c (release ?c (al_capacity a)))\<rparr>)"
      using ok by (simp add: alloc_ok_def holders_def budget_ok_def)
    then show "alloc_ok (unended ?i o1 a1)" using Some by (simp add: a1_def unended_def ended_state_def)
  qed
  then show ?thesis using ok unfolding handleOfferRelease_cases[OF Some] Let_def a1_def[symmetric]
    by (cases rule: persist_cases[of sv a1]) simp_all
qed

section \<open>Completions, replay and tunnels\<close>

lemma Terminal_completion [simp]: "Terminal (completion_phase c)" "known_phase (completion_phase c)"
  by (simp_all add: completion_phase_def Terminal_def split: option.split)

text \<open>A failed save takes the completion back, all but the tunnels it has revoked.\<close>

lemma RuntimeCompleted_cases:
  assumes "map_of (al_executions a) (cm_ExecutionID c) = Some r"
  shows "fst (RuntimeCompleted now sv c a) =
    (let a1 = finishLocked (cm_ExecutionID c) r (completion_phase c) (completion_detail c) (cm_ExitCode c) now a in
     if cm_ExecutionID c = [] \<or> Terminal (er_phase r) then a
     else if snd (persistLocked sv a1) = None then fst (persistLocked sv a1)
     else a\<lparr>al_tunnels := Invalidate (er_id r) (al_tunnels a)\<rparr>)"
proof -
  define a1 where "a1 = finishLocked (cm_ExecutionID c) r (completion_phase c) (completion_detail c) (cm_ExitCode c) now a"
  have undo: "a1\<lparr>al_executions := map_put (cm_ExecutionID c) r (al_executions a1),
      al_capacity := restore (snapshot (al_capacity a)) (al_capacity a1)\<rparr> = a\<lparr>al_tunnels := Invalidate (er_id r) (al_tunnels a)\<rparr>"
    using assms by (simp add: a1_def finishLocked_def Let_def restore_def snapshot_def release_def)
  show ?thesis using assms undo unfolding RuntimeCompleted_def Let_def a1_def[symmetric]
    by (cases rule: persist_cases[of sv a1]) (simp_all flip: a1_def)
qed

lemma alloc_ok_RuntimeCompleted [keeps_ok]:
  assumes ok: "alloc_ok a" and t: "now \<noteq> zero_time"
  shows "alloc_ok (fst (RuntimeCompleted now sv c a))"
proof (cases "map_of (al_executions a) (cm_ExecutionID c)")
  case None
  with ok show ?thesis by (simp add: RuntimeCompleted_def Let_def)
next
  case (Some r)
  have "alloc_ok (finishLocked (cm_ExecutionID c) r (completion_phase c) d e now a)" if "\<not> Terminal (er_phase r)" for d e
    using alloc_ok_finish[OF ok Some that _ _ t] by simp
  moreover have "alloc_ok (a\<lparr>al_tunnels := Invalidate (er_id r) (al_tunnels a)\<rparr>)"
    using alloc_ok_tunnels[OF ok] ok_registry[OF ok] by auto
  ultimately show ?thesis using ok by (simp add: RuntimeCompleted_cases[OF Some] Let_def)
qed

lemma alloc_ok_completionReporter [keeps_ok]:
  "alloc_ok a \<Longrightarrow> now \<noteq> zero_time \<Longrightarrow> alloc_ok (fst (completionReporter x now sv c a))"
  by (auto simp: completionReporter_def Let_def intro: alloc_ok_RuntimeCompleted)

lemma alloc_ok_checkFreshness [keeps_ok]: "alloc_ok a \<Longrightarrow> alloc_ok (fst (checkFreshness W t e a))"
  by (auto simp: checkFreshness_def effectiveNowLocked_def Let_def)

lemma cache_ok_filter: "cache_ok c \<Longrightarrow> cache_ok (c\<lparr>rc_entries := filter P (rc_entries c)\<rparr>)"
  by (fastforce simp: cache_ok_def intro: order_trans [rotated])

lemma alloc_ok_beginReplay [keeps_ok]:
  assumes "alloc_ok a" "key \<noteq> []"
  shows "alloc_ok (fst (beginReplay W key env now sv a))"
proof -
  let ?a = "fst (expireOffersLocked W now a)"
  have ok1: "alloc_ok ?a" using assms by auto
  obtain c e dup where c: "begin_replay W key env now (al_replay ?a) = (c, e, dup)" by (metis surj_pair)
  have cok: "cache_ok c" using begin_replay_ok[OF ok_cache[OF ok1] assms(2), of W env now] c by simp
  have ok2: "alloc_ok (?a\<lparr>al_replay := c\<rparr>)" using alloc_ok_replay[OF ok1 cok] .
  have cok2: "cache_ok (c\<lparr>rc_entries := map_delete key (rc_entries c)\<rparr>)"
    using cache_ok_filter[OF cok] by (simp add: AList.delete_eq)
  have ok3: "alloc_ok (?a\<lparr>al_replay := c\<lparr>rc_entries := map_delete key (rc_entries c)\<rparr>\<rparr>)"
    using alloc_ok_replay[OF ok1 cok2] .
  show ?thesis using ok1 ok2 ok3 c
    by (cases rule: persist_cases[of sv "?a\<lparr>al_replay := c\<rparr>"]; cases e; cases dup)
      (simp_all add: beginReplay_def Let_def)
qed

lemma alloc_ok_finishReplay [keeps_ok]:
  "alloc_ok a \<Longrightarrow> key \<noteq> [] \<Longrightarrow> alloc_ok (fst (finishReplay key rs e sv a))"
  by (simp add: finishReplay_def alloc_ok_replay finish_replay_ok ok_cache)

lemma alloc_ok_tunnel_sections [keeps_ok]:
  assumes "alloc_ok a"
  shows "alloc_ok (fst (handleTunnelOpen_bind W now mid env op1 a))"
    "alloc_ok (fst (openSession_open x key a))" "alloc_ok (fst (openSession_recheck x s a))" "alloc_ok (CloseTunnel s a)"
proof -
  note r = ok_registry[OF assms]
  have b: "registry_ok (snd (Bind x k ts ep (al_tunnels a)))" for x k ts ep using r by auto
  have b': "registry_ok reg" if "Bind x k ts ep (al_tunnels a) = (e, reg)" for x k ts ep e reg
    using b[of x k ts ep] that by simp
  show "alloc_ok (fst (handleTunnelOpen_bind W now mid env op1 a))"
    using assms b' by (auto simp: handleTunnelOpen_bind_def Let_def intro!: alloc_ok_tunnels split: sum.split option.split prod.split)
  have "registry_ok (snd (Open x key (al_tunnels a)))" using r by auto
  then show "alloc_ok (fst (openSession_open x key a))"
    using assms by (auto simp: openSession_open_def intro!: alloc_ok_tunnels split: prod.split)
  show "alloc_ok (fst (openSession_recheck x s a))" "alloc_ok (CloseTunnel s a)"
    using assms r by (auto simp: openSession_recheck_def CloseTunnel_def intro!: alloc_ok_tunnels)
qed

lemma alloc_ok_views [keeps_ok]:
  "alloc_ok a \<Longrightarrow> alloc_ok (fst (SweepExpired W now sv a))" "alloc_ok a \<Longrightarrow> alloc_ok (fst (Available W now c a))"
  using alloc_ok_expire[of a W now]
  by (auto simp: SweepExpired_def Available_def Let_def split: prod.split)

end
