(* ===== verification/Alloc_Sweep.thy ===== *)
theory Alloc_Sweep
  imports Alloc_Preserve
begin

text \<open>
  The background work preserves \<open>alloc_ok\<close>: lease eviction, the retention sweep and recovery.  The
  sweep also keeps every record that a command in flight may still touch.
\<close>

section \<open>Eviction\<close>

lemma nextExpired_lookup:
  assumes "alloc_ok a" "nextExpiredLeaseLocked now a = (x, p)" "x \<noteq> []"
  shows "\<exists>r. map_of (al_executions a) x = Some r \<and> er_phase r = p \<and> lease_expired now r"
proof -
  obtain r where r: "List.find (\<lambda>(i, rec). lease_expired now rec) (al_executions a) = Some (x, r)" "er_phase r = p"
    using assms(2,3) by (auto simp: nextExpiredLeaseLocked_def split: option.splits prod.splits)
  then have "(x, r) \<in> set (al_executions a)" "lease_expired now r"
    by (auto simp: find_Some_iff) (metis nth_mem)
  then show ?thesis using r(2) map_of_in[OF core_wf(3)[OF ok_core[OF assms(1)]]] by blast
qed

lemma nextExpired_none:
  assumes "alloc_ok a" "fst (nextExpiredLeaseLocked now a) = []" "map_of (al_executions a) x = Some r"
  shows "\<not> lease_expired now r"
proof
  assume l: "lease_expired now r"
  have "List.find (\<lambda>(i, rec). lease_expired now rec) (al_executions a) \<noteq> None"
    using map_of_SomeD[OF assms(3)] l by (auto simp: find_None_iff)
  then obtain y s where f: "List.find (\<lambda>(i, rec). lease_expired now rec) (al_executions a) = Some (y, s)"
    by auto
  then have "(y, s) \<in> set (al_executions a)" by (auto simp: find_Some_iff) (metis nth_mem)
  then have "y \<noteq> []"
    using core_exec[OF ok_core[OF assms(1)]] map_of_in[OF core_wf(3)[OF ok_core[OF assms(1)]]] by (auto simp: exec_ok_def)
  then show False using f assms(2) by (simp add: nextExpiredLeaseLocked_def)
qed

lemma lease_expired_live: "lease_expired now r \<Longrightarrow> \<not> Terminal (er_phase r) \<and> er_phase r \<noteq> EXECUTION_PHASE_CANCELLING"
  by (simp add: lease_expired_def)

lemma alloc_ok_beginEviction [keeps_ok]:
  assumes ok: "alloc_ok a" and r: "map_of (al_executions a) x = Some r" "\<not> Terminal (er_phase r)"
    and t: "now \<noteq> zero_time" and b: "beginEvictionLocked x now sv a = Some (a', d, e)"
  shows "alloc_ok a'"
proof -
  let ?a1 = "a\<lparr>al_executions := map_put x (mark_cancelling LeaseExpiredDetail now r) (al_executions a)\<rparr>"
  have "alloc_ok ?a1" using alloc_ok_mark[OF ok r t] .
  with ok r b show ?thesis
    by (cases rule: persist_cases[of sv ?a1]) (auto simp: beginEvictionLocked_def Let_def)
qed

lemma alloc_ok_highWater: "alloc_ok a \<Longrightarrow> alloc_ok (fst (effectiveNowLocked t a))"
  by simp

lemma evict_round_total:
  assumes ok: "alloc_ok a"
  shows "evict_round t ctx sv a \<noteq> None"
proof -
  let ?a = "fst (effectiveNowLocked t a)" and ?now = "snd (effectiveNowLocked t a)"
  have ok1: "alloc_ok ?a" using ok by simp
  obtain x p where n: "nextExpiredLeaseLocked ?now ?a = (x, p)" by force
  show ?thesis
  proof (cases "x = []")
    case False
    then obtain r where "map_of (al_executions ?a) x = Some r" using nextExpired_lookup[OF ok1 n] by blast
    then have "beginEvictionLocked x ?now sv ?a \<noteq> None"
      by (cases rule: persist_cases[of sv "?a\<lparr>al_executions := map_put x (mark_cancelling LeaseExpiredDetail ?now r) (al_executions ?a)\<rparr>"])
        (auto simp: beginEvictionLocked_def Let_def)
    with n False show ?thesis
      by (auto simp: evict_round_def Let_def prod.case_eq_if split: option.split)
  qed (use n in \<open>auto simp: evict_round_def Let_def prod.case_eq_if\<close>)
qed

text \<open>What a round does: nothing is expired, it gives up, or it marks one expired execution.\<close>

lemma evict_round_cases:
  assumes ok: "alloc_ok a" and t: "max t (al_highWater a) \<noteq> zero_time" and r: "evict_round t ctx sv a = Some (a', st)"
  shows "alloc_ok a'" "st = EvictStop x p d \<Longrightarrow> \<exists>r. map_of (al_executions a) x = Some r \<and> er_phase r = p \<and> er_detail r = d
      \<and> lease_expired (max t (al_highWater a)) r
      \<and> map_of (al_executions a') x = Some (mark_cancelling LeaseExpiredDetail (max t (al_highWater a)) r)"
proof -
  let ?a = "a\<lparr>al_highWater := max t (al_highWater a)\<rparr>" and ?now = "max t (al_highWater a)"
  have ok1: "alloc_ok ?a" using ok by simp
  have eff: "effectiveNowLocked t a = (?a, ?now)" by (metis effectiveNow_fst prod.collapse)
  obtain x1 p1 where n: "nextExpiredLeaseLocked ?now ?a = (x1, p1)" by force
  have step: "(x1 = [] \<and> a' = ?a \<and> st = EvictIdle) \<or> (x1 \<noteq> [] \<and> (\<exists>e. a' = ?a \<and> st = EvictAbort e)) \<or>
      (x1 \<noteq> [] \<and> (\<exists>d1 e. beginEvictionLocked x1 ?now sv ?a = Some (a', d1, e) \<and>
         st = (case e of None \<Rightarrow> EvictStop x1 p1 d1 | Some e \<Rightarrow> EvictAbort e)))"
  proof (cases "x1 = [] \<or> ctx \<noteq> None")
    case True
    then show ?thesis using r unfolding evict_round_def eff by (cases "x1 = []") (auto simp: n)
  next
    case False
    then obtain b d1 e where "beginEvictionLocked x1 ?now sv ?a = Some (b, d1, e)"
      using r unfolding evict_round_def eff by (auto simp: n split: option.splits)
    with False show ?thesis using r unfolding evict_round_def eff by (cases e) (auto simp: n)
  qed
  obtain r1 where r1: "x1 \<noteq> [] \<Longrightarrow> map_of (al_executions ?a) x1 = Some r1 \<and> er_phase r1 = p1 \<and> lease_expired ?now r1"
    using nextExpired_lookup[OF ok1 n] by blast
  have live: "\<not> Terminal (er_phase r1)" if "x1 \<noteq> []" using r1[OF that] lease_expired_live by blast
  show "alloc_ok a'" using step ok1 r1 live alloc_ok_beginEviction[OF ok1 _ _ t] by blast
  assume st: "st = EvictStop x p d"
  then have x1: "x1 \<noteq> []" "x1 = x" "p1 = p" and b: "beginEvictionLocked x ?now sv ?a = Some (a', d, None)"
    using step by (auto split: option.splits)
  have "er_detail r1 = d \<and> map_of (al_executions a') x = Some (mark_cancelling LeaseExpiredDetail ?now r1)"
    using b r1 x1 by (auto simp: beginEvictionLocked_def Let_def persist_fields split: prod.splits option.splits)
  with r1 x1 show "\<exists>r. map_of (al_executions a) x = Some r \<and> er_phase r = p \<and> er_detail r = d \<and> lease_expired ?now r
      \<and> map_of (al_executions a') x = Some (mark_cancelling LeaseExpiredDetail ?now r)" by auto
qed

text \<open>The state after the runtime stopped the execution, before the save.\<close>

definition stopped_state :: "gotime \<Rightarrow> string \<Rightarrow> ExecutionPhase \<Rightarrow> string \<Rightarrow> Allocator \<Rightarrow> Allocator" where
  "stopped_state now x p d a = (case map_of (al_executions a) x of None \<Rightarrow> a
     | Some r \<Rightarrow> if Terminal (er_phase r) then a else finishLocked x r p d None now a)"

lemma alloc_ok_stopped_state:
  "alloc_ok a \<Longrightarrow> now \<noteq> zero_time \<Longrightarrow> Terminal p \<Longrightarrow> known_phase p \<Longrightarrow> alloc_ok (stopped_state now x p d a)"
  by (auto simp: stopped_state_def intro: alloc_ok_finish split: option.split)

lemma completeEviction_stopped:
  assumes "map_of (al_executions a) x = Some r" "stopErr = None \<or> errors_Is (the stopErr) RuntimeErrExecutionMissing"
  shows "completeEviction now sv x p d stopErr a
     = persistLocked sv (stopped_state now x EXECUTION_PHASE_FAILED LeaseExpiredDetail a)"
  using assms by (auto simp: completeEviction_def stopped_state_def split: option.split)

lemma alloc_ok_completeEviction [keeps_ok]:
  assumes ok: "alloc_ok a" and t: "now \<noteq> zero_time" and p: "\<not> Terminal p" "known_phase p"
  shows "alloc_ok (fst (completeEviction now sv x p d stopErr a))"
proof (cases "map_of (al_executions a) x")
  case None
  with ok show ?thesis by (simp add: completeEviction_def)
next
  case (Some r)
  show ?thesis
  proof (cases "stopErr = None \<or> errors_Is (the stopErr) RuntimeErrExecutionMissing")
    case True
    then show ?thesis unfolding completeEviction_stopped[OF Some True]
      using alloc_ok_stopped_state[OF ok t] by simp
  next
    case False
    have "alloc_ok (a\<lparr>al_executions := map_put x (restore_phase p d now r) (al_executions a)\<rparr>)"
      if "er_phase r = EXECUTION_PHASE_CANCELLING"
      using alloc_ok_restore_phase[OF ok Some _ p t] that by (simp add: Terminal_def)
    with False ok Some show ?thesis
      by (auto simp: completeEviction_def Let_def prod.case_eq_if)
  qed
qed

section \<open>Collection\<close>

lemma alloc_ok_tombstones:
  "alloc_ok a \<Longrightarrow> dead_ok ds \<Longrightarrow> length ds \<le> length (al_tombstones a) \<Longrightarrow> alloc_ok (a\<lparr>al_tombstones := ds\<rparr>)"
  by (simp add: alloc_ok_def budget_ok_def holders_def)

lemma dead_ok_filter: "dead_ok ds \<Longrightarrow> dead_ok (filter P ds)"
  by (auto simp: dead_ok_def map_of_filter_key split: option.splits if_splits)

lemma dead_ok_put:
  "dead_ok ds \<Longrightarrow> td_OfferID d = i \<Longrightarrow> valid_utf8 i \<Longrightarrow> valid_utf8 (td_RequestID d) \<Longrightarrow> valid_utf8 (td_ExecutionID d) \<Longrightarrow>
     dead_ok (map_put i d ds)"
  by (auto simp: dead_ok_def)

lemma collectable_dead:
  assumes ok: "alloc_ok a" and o1: "map_of (al_offers a) i = Some o1" and c: "collectable now o1 a"
  shows "or_status o1 \<noteq> offerOutstanding" "outstanding_class o1 = None"
    "map_of (al_executions a) (or_execution o1) = Some r \<Longrightarrow> live_class r = None"
proof -
  show st: "or_status o1 \<noteq> offerOutstanding" using c by (auto simp: collectable_def split: if_splits)
  then show "outstanding_class o1 = None" by (simp add: outstanding_class_def)
  assume r: "map_of (al_executions a) (or_execution o1) = Some r"
  have "or_status o1 = offerAssigned"
    using core_exec[OF ok_core[OF ok] r] core_offer[OF ok_core[OF ok] o1] by (auto simp: exec_ok_def offer_ok_def)
  then show "live_class r = None"
    using c r core_exec[OF ok_core[OF ok] r] by (simp add: collectable_def live_class_def exec_ok_def)
qed

lemma alloc_ok_collect_offer:
  assumes ok: "alloc_ok a" and o1: "map_of (al_offers a) i = Some o1" and c: "collectable now o1 a"
  shows "alloc_ok (collect_offer now i o1 a)" (is "alloc_ok ?b")
proof -
  note dead = collectable_dead[OF ok o1 c]
  note wf = core_wf[OF ok_core[OF ok]]
  have core: "core_ok (al_offers ?b) (al_requests ?b) (al_executions ?b)"
    using core_ok_collect[OF ok_core[OF ok] o1 dead(1)] by (simp add: collect_offer_def offer_key_def)
  have "collect outstanding_class (al_offers ?b) = collect outstanding_class (al_offers a)"
    using collect_split[OF wf(1) o1, of outstanding_class] dead(2) by (simp add: collect_offer_def)
  moreover have "collect live_class (al_executions ?b) = collect live_class (al_executions a)"
  proof (cases "map_of (al_executions a) (or_execution o1)")
    case (Some r)
    then show ?thesis using collect_split[OF wf(3) Some, of live_class] dead(3) by (simp add: collect_offer_def)
  qed (simp add: collect_offer_def)
  ultimately have hold: "holders ?b = holders a" by (simp add: holders_def)
  have "0 < length (al_offers a)" using o1 by (cases "al_offers a") auto
  moreover have "length (al_offers ?b) = length (al_offers a) - 1"
    using o1 wf(1) by (simp add: collect_offer_def length_delete)
  ultimately have "2 * int (length (al_offers ?b)) = 2 * int (length (al_offers a)) - 2" by linarith
  then have "budget_ok ?b" using ok_budget[OF ok] by (auto simp: budget_ok_def collect_offer_def length_put)
  moreover have "valid_utf8 (or_execution o1)"
  proof (cases "or_status o1 = offerAssigned")
    case True
    then show ?thesis using core_assigned[OF ok_core[OF ok] o1] core_exec[OF ok_core[OF ok]] by (auto simp: exec_ok_def)
  qed (use core_offer[OF ok_core[OF ok] o1] in \<open>simp add: offer_ok_def\<close>)
  then have "dead_ok (al_tombstones ?b)"
    using ok_dead[OF ok] core_offer[OF ok_core[OF ok] o1] by (simp add: collect_offer_def offer_ok_def dead_ok_put)
  ultimately show ?thesis using ok core hold by (simp add: alloc_ok_def) (simp add: collect_offer_def)
qed

lemma collect_offer_offers: "map_of (al_offers (collect_offer now i o1 a)) j = (if j = i then None else map_of (al_offers a) j)"
  by (simp add: collect_offer_def)

lemma entries_tail:
  assumes "distinct (map fst ((i, o1) # m))" "\<forall>(j, o2)\<in>set ((i, o1) # m). map_of (al_offers a) j = Some o2"
  shows "\<forall>(j, o2)\<in>set m. map_of (al_offers (collect_offer now i o1 a)) j = Some o2"
proof (clarify)
  fix j o2 assume "(j, o2) \<in> set m"
  moreover from this have "j \<noteq> i" using assms(1) by force
  ultimately show "map_of (al_offers (collect_offer now i o1 a)) j = Some o2" using assms(2) by (auto simp: collect_offer_offers)
qed

lemma alloc_ok_collect_loop:
  "alloc_ok a \<Longrightarrow> distinct (map fst m) \<Longrightarrow> \<forall>(i, o1)\<in>set m. map_of (al_offers a) i = Some o1 \<Longrightarrow> alloc_ok (collect_loop now busy m a)"
proof (induction now busy m a rule: collect_loop.induct)
  case (2 now busy i o1 m a)
  have tail: "\<forall>(j, o2)\<in>set m. map_of (al_offers (collect_offer now i o1 a)) j = Some o2"
    using "2.prems" by (intro entries_tail) auto
  show ?case
  proof (cases "offer_key o1 \<in> set busy")
    case True
    then show ?thesis using 2 by (simp add: offer_key_def)
  next
    case busy: False
    show ?thesis
    proof (cases "collectable now o1 a")
      case True
      then have "alloc_ok (collect_offer now i o1 a)" using 2(4,6) alloc_ok_collect_offer by auto
      then show ?thesis using 2(3) busy True tail 2(5) by (simp add: offer_key_def)
    qed (use 2 busy in \<open>simp add: offer_key_def\<close>)
  qed
qed simp

text \<open>A record whose request key is busy survives the pass.\<close>

lemma collect_loop_keeps:
  assumes "alloc_ok a" "distinct (map fst m)" "\<forall>(i, o1)\<in>set m. map_of (al_offers a) i = Some o1"
    and "map_of (al_offers a) j = Some o2" "or_status o2 = offerAssigned" "offer_key o2 \<in> set busy"
  shows "map_of (al_offers (collect_loop now busy m a)) j = Some o2
     \<and> map_of (al_executions (collect_loop now busy m a)) (or_execution o2) = map_of (al_executions a) (or_execution o2)"
  using assms
proof (induction now busy m a rule: collect_loop.induct)
  case (2 now busy i o1 m a)
  have tail: "\<forall>(j, o2)\<in>set m. map_of (al_offers (collect_offer now i o1 a)) j = Some o2"
    using "2.prems" by (intro entries_tail) auto
  have oi: "map_of (al_offers a) i = Some o1" using "2.prems" by simp
  show ?case
  proof (cases "offer_key o1 \<in> set busy \<or> \<not> collectable now o1 a")
    case True
    then show ?thesis using 2 by (auto simp: offer_key_def)
  next
    case False
    have ok': "alloc_ok (collect_offer now i o1 a)" using alloc_ok_collect_offer[OF 2(4) oi] False by simp
    have ji: "j \<noteq> i" using False oi "2.prems" by auto
    have xi: "or_execution o1 \<noteq> or_execution o2"
    proof
      assume eq: "or_execution o1 = or_execution o2"
      obtain r where r: "map_of (al_executions a) (or_execution o2) = Some r" "matched j o2 (or_execution o2) r"
        using core_assigned[OF ok_core[OF 2(4)] "2.prems"(4,5)] by blast
      have "or_status o1 = offerAssigned"
        using core_exec[OF ok_core[OF 2(4)] r(1)] core_offer[OF ok_core[OF 2(4)] oi] eq by (auto simp: exec_ok_def offer_ok_def)
      from core_assigned[OF ok_core[OF 2(4)] oi this] r eq ji show False by (auto simp: matched_def)
    qed
    have keep: "map_of (al_offers (collect_offer now i o1 a)) j = Some o2"
      "map_of (al_executions (collect_offer now i o1 a)) (or_execution o2) = map_of (al_executions a) (or_execution o2)"
      using ji xi "2.prems"(4) by (simp_all add: collect_offer_def)
    from False 2(3)[OF _ _ ok' _ tail keep(1) 2(8,9)] 2(5) keep show ?thesis by (simp add: offer_key_def)
  qed
qed simp

section \<open>The sweep\<close>

lemma alloc_ok_sweep_tombstones [keeps_ok]: "alloc_ok a \<Longrightarrow> alloc_ok (sweep_tombstones now a)"
  by (simp add: sweep_tombstones_def alloc_ok_tombstones ok_dead dead_ok_filter)

lemma alloc_ok_sweep_replies [keeps_ok]: "alloc_ok a \<Longrightarrow> alloc_ok (sweep_replies retired a)"
  using alloc_ok_replay cache_ok_filter[OF ok_cache] by (simp add: sweep_replies_def)

lemma wf_entries: "wf_map m \<Longrightarrow> distinct (map fst m) \<and> (\<forall>(i, v)\<in>set m. map_of m i = Some v)"
  using map_of_in[of m] by (auto simp: wf_map_def)

lemma alloc_ok_collect_all:
  assumes "alloc_ok a"
  shows "alloc_ok (collect_loop now busy (al_offers a) a)"
  using alloc_ok_collect_loop[OF assms] wf_entries[OF core_wf(1)[OF ok_core[OF assms]]] by blast

definition sweep_start :: "pblib \<Rightarrow> gotime \<Rightarrow> Allocator \<Rightarrow> Allocator" where
  "sweep_start W t a0 = (let a1 = a0\<lparr>al_highWater := max t (al_highWater a0)\<rparr>;
     a2 = fst (expireOffersLocked W (max t (al_highWater a0)) a1)
     in a2\<lparr>al_replay := prune (max t (al_highWater a0)) (al_replay a2)\<rparr>)"

lemma alloc_ok_sweep_start: "alloc_ok a \<Longrightarrow> alloc_ok (sweep_start W t a)"
  unfolding sweep_start_def Let_def by (intro alloc_ok_replay alloc_ok_expire prune_ok ok_cache) simp_all

lemma sweep_pass_eq:
  "sweep_pass W t a = (let now = max t (al_highWater a); a3 = sweep_start W t a;
     a4 = collect_loop now (busy_keys a3) (al_offers a3) a3;
     retired = map (\<lambda>(i, dead). authorityKey (td_Client dead) (td_RequestID dead)) (al_tombstones a4)
     in sweep_replies retired (sweep_tombstones now a4))"
proof -
  have eff: "effectiveNowLocked t a = (a\<lparr>al_highWater := max t (al_highWater a)\<rparr>, max t (al_highWater a))"
    by (metis effectiveNow_fst prod.collapse)
  show ?thesis unfolding sweep_pass_def eff sweep_start_def Let_def by simp
qed

lemma alloc_ok_sweep_pass [keeps_ok]: "alloc_ok a \<Longrightarrow> alloc_ok (sweep_pass W t a)"
  unfolding sweep_pass_eq Let_def
  by (intro alloc_ok_sweep_replies alloc_ok_sweep_tombstones alloc_ok_collect_all alloc_ok_sweep_start)

text \<open>Fields the sweep leaves alone, and its rollback.\<close>

lemma collect_offer_frame [simp]:
  "al_capacity (collect_offer now i o1 a) = al_capacity a" "al_replay (collect_offer now i o1 a) = al_replay a"
  "al_maxRecords (collect_offer now i o1 a) = al_maxRecords a"
  by (simp_all add: collect_offer_def)

lemma collect_loop_frame [simp]:
  "al_capacity (collect_loop now busy m a) = al_capacity a" "al_replay (collect_loop now busy m a) = al_replay a"
  "al_maxRecords (collect_loop now busy m a) = al_maxRecords a"
  by (induction now busy m a rule: collect_loop.induct) simp_all

lemma expire_loop_limits: "limits (fst (snd (expire_loop W now m l))) = limits l"
  by (induction W now m l rule: expire_loop.induct) (auto split: prod.splits)

text \<open>A sweep whose save fails leaves the allocator as it found it: it touches only what the rollback restores.\<close>

definition same_config :: "Allocator \<Rightarrow> Allocator \<Rightarrow> bool" where
  "same_config a b \<longleftrightarrow> al_maxRecords b = al_maxRecords a \<and> al_identity b = al_identity a \<and> al_offerTTL b = al_offerTTL a
     \<and> al_leaseTTL b = al_leaseTTL a \<and> al_retention b = al_retention a \<and> al_store b = al_store a
     \<and> al_admission b = al_admission a \<and> al_node b = al_node a \<and> al_tunnels b = al_tunnels a
     \<and> al_tunnelConfig b = al_tunnelConfig a \<and> limits (al_capacity b) = limits (al_capacity a)"

lemma same_config_steps:
  "same_config a (collect_loop now busy m b) = same_config a b"
  "same_config a (sweep_replies rs b) = same_config a b" "same_config a (sweep_tombstones now b) = same_config a b"
proof -
  have "same_config a (collect_offer now i o1 b) = same_config a b" for i o1 b by (simp add: same_config_def collect_offer_def)
  then show "same_config a (collect_loop now busy m b) = same_config a b"
    by (induction now busy m b rule: collect_loop.induct) simp_all
  show "same_config a (sweep_replies rs b) = same_config a b" "same_config a (sweep_tombstones now b) = same_config a b"
    by (simp_all add: same_config_def sweep_replies_def sweep_tombstones_def)
qed

lemma same_config_sweep_pass: "same_config a (sweep_pass W t a)"
proof -
  have "same_config a (sweep_start W t a)"
    by (simp add: same_config_def sweep_start_def Let_def expireOffersLocked_def split: prod.split)
      (metis expire_loop_limits fst_conv snd_conv)
  then show ?thesis by (simp add: sweep_pass_eq Let_def same_config_steps)
qed

lemma sweep_collect_fails:
  assumes "sweep_collect W t sv a = (a', Inl e)"
  shows "a' = a"
proof -
  have "a' = (sweep_pass W t a)\<lparr>al_offers := al_offers a, al_executions := al_executions a, al_requests := al_requests a,
      al_replay := al_replay a, al_tombstones := al_tombstones a, al_highWater := al_highWater a,
      al_capacity := restore (snapshot (al_capacity a)) (al_capacity (sweep_pass W t a))\<rparr>"
    using assms by (cases rule: persist_cases[of sv "sweep_pass W t a"]) (auto simp: sweep_collect_def)
  then show ?thesis using same_config_sweep_pass[of a W t]
    by (simp add: same_config_def restore_def snapshot_def)
qed

lemma sweep_collect_saves:
  "sweep_collect W t sv a = (a', Inr ds) \<Longrightarrow> a' = fst (persistLocked sv (sweep_pass W t a))"
  by (auto simp: sweep_collect_def split: prod.splits option.splits)

lemma alloc_ok_sweep_collect [keeps_ok]:
  assumes "alloc_ok a"
  shows "alloc_ok (fst (sweep_collect W t sv a))"
proof (cases "sweep_collect W t sv a")
  case (Pair a' res)
  then show ?thesis using assms sweep_collect_fails[of W t sv a a'] sweep_collect_saves[of W t sv a a']
    by (cases res) (auto intro: alloc_ok_sweep_pass)
qed

lemma alloc_ok_sweep_clean [keeps_ok]:
  assumes ok: "alloc_ok a" and d: "map_of (al_tombstones a) (td_OfferID dead) = Some d0"
    and same: "td_RequestID dead = td_RequestID d0" "td_ExecutionID dead = td_ExecutionID d0"
  shows "alloc_ok (fst (sweep_clean cleanErr sv dead a))"
proof -
  have d0: "td_OfferID d0 = td_OfferID dead" "valid_utf8 (td_OfferID dead)" "valid_utf8 (td_RequestID d0)" "valid_utf8 (td_ExecutionID d0)"
    using ok_dead[OF ok] d by (auto simp: dead_ok_def)
  let ?put = "\<lambda>v. a\<lparr>al_tombstones := map_put (td_OfferID dead) v (al_tombstones a)\<rparr>"
  have len: "length (map_put (td_OfferID dead) v (al_tombstones a)) \<le> length (al_tombstones a)" for v
    using d by (simp add: length_put)
  have put: "alloc_ok (?put v)"
    if "td_OfferID v = td_OfferID dead" "td_RequestID v = td_RequestID d0" "td_ExecutionID v = td_ExecutionID d0" for v
    by (rule alloc_ok_tombstones[OF ok dead_ok_put[OF ok_dead[OF ok]]]) (use that d0 len in simp_all)
  have ok1: "alloc_ok (?put (d0\<lparr>td_CleanupPending := False\<rparr>))" and ok2: "alloc_ok (?put dead)"
    using put[of "d0\<lparr>td_CleanupPending := False\<rparr>"] put[of dead] d0 same by simp_all
  define a1 where "a1 = ?put (d0\<lparr>td_CleanupPending := False\<rparr>)"
  have undo: "a1\<lparr>al_tombstones := map_put (td_OfferID dead) dead (al_tombstones a1)\<rparr> = ?put dead" by (simp add: a1_def)
  have "sweep_clean None sv dead a = (case persistLocked sv a1 of
      (a2, Some e) \<Rightarrow> (a2\<lparr>al_tombstones := map_put (td_OfferID dead) dead (al_tombstones a2)\<rparr>, Some e) | (a2, None) \<Rightarrow> (a2, None))"
    by (simp add: sweep_clean_def d a1_def)
  then have "alloc_ok (fst (sweep_clean None sv dead a))"
    using ok1 ok2 undo by (cases rule: persist_cases[of sv a1]) (simp_all flip: a1_def)
  then show ?thesis using ok by (cases cleanErr) (simp_all add: sweep_clean_def)
qed

section \<open>Recovery\<close>

lemma recover_stopped_eq:
  "recover_stopped now sv x p d stopErr a =
     (if stopErr = None \<or> errors_Is (the stopErr) RuntimeErrExecutionMissing then persistLocked sv (stopped_state now x p d a)
      else (a, Join [Some (err ErrRuntimeStop), stopErr]))"
proof -
  have "(case map_of (al_executions a) x of None \<Rightarrow> a
      | Some r \<Rightarrow> if \<not> Terminal (er_phase r) then finishLocked x r p d None now a else a) = stopped_state now x p d a"
    by (auto simp: stopped_state_def split: option.split)
  then show ?thesis by (cases stopErr) (simp_all add: recover_stopped_def)
qed

lemma alloc_ok_recover_stopped [keeps_ok]:
  "alloc_ok a \<Longrightarrow> now \<noteq> zero_time \<Longrightarrow> Terminal p \<Longrightarrow> known_phase p \<Longrightarrow> alloc_ok (fst (recover_stopped now sv x p d stopErr a))"
  by (simp add: recover_stopped_eq alloc_ok_stopped_state)

lemma alloc_ok_recover_finish [keeps_ok]:
  assumes ok: "alloc_ok a" and t: "now \<noteq> zero_time"
  shows "alloc_ok (fst (recover_finish now sv x recoverErr a))"
proof (cases "map_of (al_executions a) x")
  case None
  with ok show ?thesis by (auto simp: recover_finish_def split: option.split)
next
  case (Some r)
  have "alloc_ok (finishLocked x r EXECUTION_PHASE_FAILED d None now a)" if "\<not> Terminal (er_phase r)" for d
    using alloc_ok_finish[OF ok Some that _ _ t] by (simp add: Terminal_def)
  moreover note alloc_ok_running[OF ok Some _ t]
  ultimately show ?thesis using ok Some by (auto simp: recover_finish_def split: option.split)
qed

end
