(* ===== verification/Alloc_Evolve.thy ===== *)
theory Alloc_Evolve
  imports Alloc_Sweep
begin

text \<open>
  How one section changes the executions and the commands in flight.  \<open>evolves\<close> is the state machine of an
  execution record: its identity is fixed, a terminal record is final, and every change of phase is a
  legal transition that counts the revision up by one.  Every section but the sweep only lets records
  evolve; the sweep may also drop a terminal record whose retention has elapsed.  \<open>section_step\<close> adds what
  a section leaves alone, and that the store holds either what it held or a snapshot of the new state.
\<close>

named_theorems evolving \<open>sections let executions evolve\<close>

section \<open>The state machine of an execution\<close>

definition phase_step :: "ExecutionPhase \<Rightarrow> ExecutionPhase \<Rightarrow> bool" where
  "phase_step p q \<longleftrightarrow> \<not> Terminal p \<and>
     (Terminal q \<or> p = EXECUTION_PHASE_STARTING \<and> q = EXECUTION_PHASE_RUNNING
      \<or> p \<in> {EXECUTION_PHASE_STARTING, EXECUTION_PHASE_RUNNING} \<and> q = EXECUTION_PHASE_CANCELLING
      \<or> p = EXECUTION_PHASE_CANCELLING \<and> q \<in> {EXECUTION_PHASE_STARTING, EXECUTION_PHASE_RUNNING})"

definition evolves :: "executionRecord \<Rightarrow> executionRecord \<Rightarrow> bool" where
  "evolves r r' \<longleftrightarrow> r' = r
     \<or> (\<not> Terminal (er_phase r) \<and> (\<exists>t. r' = r\<lparr>er_leaseUntil := t\<rparr>))
     \<or> (phase_step (er_phase r) (er_phase r') \<and> er_revision r' = er_revision r + 1 \<and> same_execution r r'
        \<and> er_startedAt r' = er_startedAt r \<and> er_resources r' = er_resources r \<and> er_leaseUntil r' = er_leaseUntil r
        \<and> (er_released r' \<longleftrightarrow> Terminal (er_phase r')))"

lemma evolves_refl [simp]: "evolves r r"
  by (simp add: evolves_def)

lemma evolves_same: "evolves r r' \<Longrightarrow> same_execution r r'"
  by (auto simp: evolves_def same_execution_def)

lemma evolves_final: "evolves r r' \<Longrightarrow> Terminal (er_phase r) \<Longrightarrow> r' = r"
  by (auto simp: evolves_def phase_step_def)

definition exec_evolves :: "Allocator \<Rightarrow> Allocator \<Rightarrow> bool" where
  "exec_evolves a b \<longleftrightarrow> (\<forall>x r. map_of (al_executions a) x = Some r \<longrightarrow>
     (\<exists>r'. map_of (al_executions b) x = Some r' \<and> evolves r r'))"

lemma exec_evolves_same: "al_executions b = al_executions a \<Longrightarrow> exec_evolves a b"
  by (simp add: exec_evolves_def)

lemma exec_evolves_refl [simp]: "exec_evolves a a"
  by (simp add: exec_evolves_def)

lemma exec_evolves_put:
  "map_of (al_executions a) x = Some r \<Longrightarrow> evolves r r' \<Longrightarrow> al_executions b = map_put x r' (al_executions a) \<Longrightarrow> exec_evolves a b"
  by (auto simp: exec_evolves_def)

lemma exec_evolves_new:
  "map_of (al_executions a) x = None \<Longrightarrow> al_executions b = map_put x r' (al_executions a) \<Longrightarrow> exec_evolves a b"
  by (auto simp: exec_evolves_def)

lemma exec_evolves_congl: "al_executions a' = al_executions a \<Longrightarrow> exec_evolves a' b \<Longrightarrow> exec_evolves a b"
  by (simp add: exec_evolves_def)

lemma exec_evolves_persist [simp]: "exec_evolves a (fst (persistLocked sv b)) = exec_evolves a b"
  by (simp add: exec_evolves_def)

lemma exec_evolves_finish:
  assumes "\<not> Terminal (er_phase r)" "Terminal p" "map_of (al_executions a) x = Some r"
  shows "exec_evolves a (finishLocked x r p d c t a)"
proof (rule exec_evolves_put[OF assms(3)])
  let ?r = "r\<lparr>er_phase := p, er_detail := d, er_exitCode := c, er_occurredAt := t,
     er_revision := er_revision r + 1, er_retainUntil := (if al_highWater a > t then al_highWater a else t) + al_retention a, er_released := True\<rparr>"
  show "al_executions (finishLocked x r p d c t a) = map_put x ?r (al_executions a)" by (simp add: finishLocked_def Let_def)
  show "evolves r ?r" using assms(1,2) by (auto simp: evolves_def phase_step_def same_execution_def)
qed

lemma phase_cases:
  "known_phase p \<Longrightarrow> \<not> Terminal p \<Longrightarrow> p = EXECUTION_PHASE_STARTING \<or> p = EXECUTION_PHASE_RUNNING \<or> p = EXECUTION_PHASE_CANCELLING"
  by (auto simp: known_phase_def Terminal_def)

lemma evolves_lease: "\<not> Terminal (er_phase r) \<Longrightarrow> evolves r (r\<lparr>er_leaseUntil := t\<rparr>)"
  unfolding evolves_def by blast

lemma evolves_mark:
  "exec_ok x r \<Longrightarrow> \<not> Terminal (er_phase r) \<Longrightarrow> er_phase r \<noteq> EXECUTION_PHASE_CANCELLING \<Longrightarrow> evolves r (mark_cancelling d t r)"
  using phase_cases[of "er_phase r"]
  by (auto simp: evolves_def mark_cancelling_def phase_step_def same_execution_def exec_ok_def Terminal_def)

lemma evolves_restore:
  "exec_ok x r \<Longrightarrow> er_phase r = EXECUTION_PHASE_CANCELLING \<Longrightarrow> p \<in> {EXECUTION_PHASE_STARTING, EXECUTION_PHASE_RUNNING} \<Longrightarrow>
     evolves r (restore_phase p d t r)"
  by (auto simp: evolves_def restore_phase_def phase_step_def same_execution_def exec_ok_def Terminal_def)

lemma evolves_running:
  "exec_ok x r \<Longrightarrow> er_phase r = EXECUTION_PHASE_STARTING \<Longrightarrow>
     evolves r (r\<lparr>er_phase := EXECUTION_PHASE_RUNNING, er_occurredAt := t, er_revision := er_revision r + 1\<rparr>)"
  by (auto simp: evolves_def phase_step_def same_execution_def exec_ok_def Terminal_def)

section \<open>What a section leaves alone\<close>

definition config_same :: "Allocator \<Rightarrow> Allocator \<Rightarrow> bool" where
  "config_same a b \<longleftrightarrow> al_maxRecords b = al_maxRecords a \<and> al_identity b = al_identity a \<and> al_offerTTL b = al_offerTTL a
     \<and> al_leaseTTL b = al_leaseTTL a \<and> al_retention b = al_retention a \<and> al_admission b = al_admission a \<and> al_node b = al_node a
     \<and> al_tunnelConfig b = al_tunnelConfig a \<and> limits (al_capacity b) = limits (al_capacity a)
     \<and> rc_ttl (al_replay b) = rc_ttl (al_replay a) \<and> rc_capacity (al_replay b) = rc_capacity (al_replay a)"

definition frame :: "Allocator \<Rightarrow> Allocator \<Rightarrow> bool" where
  "frame a b \<longleftrightarrow> al_replay b = al_replay a \<and> al_tombstones b = al_tombstones a \<and> config_same a b"

definition unsaved :: "Allocator \<Rightarrow> Allocator \<Rightarrow> bool" where
  "unsaved a b \<longleftrightarrow> exec_evolves a b \<and> frame a b \<and> al_store b = al_store a \<and> al_highWater a \<le> al_highWater b"

definition section_step :: "Allocator \<Rightarrow> Allocator \<Rightarrow> bool" where
  "section_step a b \<longleftrightarrow> exec_evolves a b \<and> frame a b \<and> al_highWater a \<le> al_highWater b
     \<and> (al_store b = al_store a \<or> al_store b = Some (Some (persisted_snapshot b)))"

lemma section_step_refl [simp]: "section_step a a"
  by (simp add: section_step_def frame_def config_same_def)

lemma unsaved_refl [simp]: "unsaved a a"
  by (simp add: unsaved_def frame_def config_same_def)

lemma unsaved_step: "unsaved a b \<Longrightarrow> section_step a b"
  by (simp add: unsaved_def section_step_def)

lemma section_step_persist: "unsaved a b \<Longrightarrow> section_step a (fst (persistLocked sv b))"
proof -
  assume u: "unsaved a b"
  have "section_step a (b\<lparr>al_store := Some (Some (persisted_snapshot b))\<rparr>)"
    using u by (simp add: unsaved_def section_step_def frame_def config_same_def persisted_snapshot_def exec_evolves_def)
  then show ?thesis using persistLocked_fst[of sv b] unsaved_step[OF u] by metis
qed

lemma section_step_saved: "unsaved a b \<Longrightarrow> persistLocked sv b = (b', e) \<Longrightarrow> section_step a b'"
  using section_step_persist[of a b sv] by simp

lemma save_cases:
  obtains (saved) b' where "persistLocked sv b = (b', None)" "unsaved a b \<longrightarrow> section_step a b'"
  | (failed) e where "persistLocked sv b = (b, Some e)"
  using section_step_saved[of a b sv] by (cases rule: persist_cases[of sv b]) auto

lemma unsaved_expire [simp]: "unsaved a (fst (expireOffersLocked W now a))"
  by (simp add: unsaved_def frame_def config_same_def exec_evolves_same expire_parts expire_loop_limits)
    (simp add: expireOffersLocked_def split: prod.split)

lemma section_step_expire: "section_step (fst (expireOffersLocked W now a)) b \<Longrightarrow> section_step a b"
  using unsaved_expire[of a W now] by (auto simp: section_step_def unsaved_def frame_def config_same_def exec_evolves_def)

lemma unsaved_finish:
  assumes "\<not> Terminal (er_phase r)" "Terminal p" "map_of (al_executions a) x = Some r"
  shows "unsaved a (finishLocked x r p d c t a)"
  using exec_evolves_finish[OF assms] by (simp add: unsaved_def frame_def config_same_def) (simp add: finishLocked_def Let_def)

lemma unsaved_put:
  assumes "map_of (al_executions a) x = Some r" "evolves r r'"
  shows "unsaved a (a\<lparr>al_executions := map_put x r' (al_executions a)\<rparr>)"
  using exec_evolves_put[OF assms, of "a\<lparr>al_executions := map_put x r' (al_executions a)\<rparr>"]
  by (simp add: unsaved_def frame_def config_same_def)

section \<open>The handlers\<close>

lemma issueOffer_step: "section_step a (fst (issueOffer W now id1 id2 sv env req a))"
proof -
  define a1 where "a1 = offer_state id1 env req (new_offer W now id1 env req a) a"
  define a2 where "a2 = a1\<lparr>al_capacity := snd (reserve (rq_resource_class req) (al_capacity a))\<rparr>"
  have u: "unsaved a a2" "unsaved a (withdraw id1 env req a1)"
      "unsaved a ((withdraw id1 env req a2)\<lparr>al_capacity := release (rq_resource_class req) (al_capacity a2)\<rparr>)"
    by (simp_all add: a2_def a1_def offer_state_def withdraw_def unsaved_def frame_def config_same_def exec_evolves_same)
  then show ?thesis unfolding issueOffer_cases a1_def[symmetric] a2_def[symmetric]
    by (cases rule: save_cases[of sv a2 a]) (simp_all add: unsaved_step)
qed

lemma handleRequest_step [evolving]: "section_step a (fst (handleRequest W now id1 id2 sv env req a))"
  using issueOffer_step[of "fst (expireOffersLocked W now a)" W now id1 id2 sv env req]
  by (intro section_step_expire[of W now a]) (simp add: handleRequest_def Let_def split: option.split)

lemma assignOffer_step:
  assumes ok: "alloc_ok a" and o1: "map_of (al_offers a) i = Some o1" "or_status o1 = offerOutstanding"
    and x: "map_of (al_executions a) x = None"
  shows "section_step a (fst (assignOffer now sv x i o1 a))"
proof -
  let ?a1 = "a\<lparr>al_offers := map_put i (o1\<lparr>or_status := offerAssigned, or_execution := x\<rparr>) (al_offers a),
                 al_executions := map_put x (new_execution now x o1 a) (al_executions a)\<rparr>"
  have "unsaved a ?a1" using x by (simp add: unsaved_def frame_def config_same_def exec_evolves_def)
  then show ?thesis unfolding assignOffer_undo[OF ok o1 x] Let_def
    by (cases rule: save_cases[of sv ?a1 a]) simp_all
qed

lemma handleAssign_begin_step [evolving]:
  assumes ok: "alloc_ok a"
  shows "section_step a (fst (handleAssign_begin W now mid sv env asg a))"
proof (rule section_step_expire[of W now a])
  let ?a = "fst (expireOffersLocked W now a)" and ?x = "as_execution_id asg"
  have ok1: "alloc_ok ?a" using ok by auto
  show "section_step ?a (fst (handleAssign_begin W now mid sv env asg a))"
  proof (cases "map_of (al_offers ?a) (as_offer_id asg)")
    case (Some o1)
    note asgn = assignOffer_step[OF ok1 Some, of ?x now sv]
    show ?thesis using Some asgn
      by (cases "or_status o1"; cases "map_of (al_executions ?a) ?x") (auto simp: handleAssign_begin_def Let_def split: option.split)
  qed (simp add: handleAssign_begin_def Let_def)
qed

lemma handleAssign_finish_step [evolving]:
  assumes ok: "alloc_ok a" and fin: "handleAssign_finish W t1 t2 mid sv env x startErr a = Some (a', rep)"
  shows "section_step a a'"
proof -
  obtain r where r: "map_of (al_executions a) x = Some r" using fin by (auto simp: handleAssign_finish_def split: option.splits)
  note ex = core_exec[OF ok_core[OF ok] r]
  define a1 where "a1 = (if er_phase r = EXECUTION_PHASE_STARTING
      then (case startErr of Some e \<Rightarrow> finishLocked x r EXECUTION_PHASE_FAILED (Error e) None t1 a
        | None \<Rightarrow> a\<lparr>al_executions := map_put x (r\<lparr>er_phase := EXECUTION_PHASE_RUNNING,
            er_occurredAt := t1, er_revision := er_revision r + 1\<rparr>) (al_executions a)\<rparr>) else a)"
  have "unsaved a a1"
    using unsaved_finish[OF _ _ r] unsaved_put[OF r evolves_running[OF ex]] by (auto simp: a1_def Terminal_def split: option.split)
  moreover have "a' = fst (persistLocked sv a1)"
    using fin r by (simp add: handleAssign_finish_def Let_def flip: a1_def split: prod.splits)
  ultimately show ?thesis by (simp add: section_step_persist)
qed

lemma handleCancel_begin_step [evolving]:
  assumes ok: "alloc_ok a"
  shows "section_step a (fst (handleCancel_begin W now mid sv env c a))"
proof (cases "map_of (al_executions a) (ca_execution_id c)")
  case (Some r)
  let ?a1 = "a\<lparr>al_executions := map_put (ca_execution_id c) (mark_cancelling (ca_reason c) now r) (al_executions a)\<rparr>"
  have "unsaved a ?a1" if "\<not> Terminal (er_phase r)" "er_phase r \<noteq> EXECUTION_PHASE_CANCELLING"
    using unsaved_put[OF Some evolves_mark[OF core_exec[OF ok_core[OF ok] Some] that]] by simp
  with Some show ?thesis
    by (cases rule: save_cases[of sv ?a1 a]) (auto simp: handleCancel_begin_def Let_def)
qed (simp add: handleCancel_begin_def Let_def)

lemma handleCancel_finish_step [evolving]:
  assumes ok: "alloc_ok a" and p: "p \<in> {EXECUTION_PHASE_STARTING, EXECUTION_PHASE_RUNNING}"
    and fin: "handleCancel_finish W t1 t2 mid sv env x p d reason stopErr a = Some (a', rep)"
  shows "section_step a a'"
proof -
  obtain r where r: "map_of (al_executions a) x = Some r" using fin by (auto simp: handleCancel_finish_def split: option.splits)
  note ex = core_exec[OF ok_core[OF ok] r]
  define a1 where "a1 = (case stopErr of
      Some e \<Rightarrow> if er_phase r = EXECUTION_PHASE_CANCELLING
        then a\<lparr>al_executions := map_put x (restore_phase p d t1 r) (al_executions a)\<rparr> else a
    | None \<Rightarrow> if \<not> Terminal (er_phase r) then finishLocked x r EXECUTION_PHASE_CANCELLED reason None t1 a else a)"
  have "unsaved a a1"
    using unsaved_finish[OF _ _ r] unsaved_put[OF r evolves_restore[OF ex _ p]] by (auto simp: a1_def Terminal_def split: option.split)
  moreover have "a' = fst (persistLocked sv a1)"
    using fin r by (auto simp: handleCancel_finish_def a1_def Let_def split: prod.splits option.splits)
  ultimately show ?thesis by (simp add: section_step_persist)
qed

lemma handleLeaseRenew_step [evolving]: "section_step a (fst (handleLeaseRenew W now mid sv env rn a))"
proof (cases "map_of (al_executions a) (rn_execution_id rn)")
  case (Some r)
  define d where "d = (case rn_lease_duration rn of
    None \<Rightarrow> pd_AsDuration W \<lparr>pd_seconds = 0, pd_nanos = 0\<rparr> | Some d \<Rightarrow> pd_AsDuration W d)"
  let ?a1 = "a\<lparr>al_executions := map_put (rn_execution_id rn) (r\<lparr>er_leaseUntil := now + d\<rparr>) (al_executions a)\<rparr>"
  have "unsaved a ?a1" if "\<not> Terminal (er_phase r)" using unsaved_put[OF Some evolves_lease[OF that]] .
  with Some show ?thesis
    by (cases rule: save_cases[of sv ?a1 a]) (simp_all add: handleLeaseRenew_def Let_def flip: d_def)
qed (simp add: handleLeaseRenew_def Let_def)

lemma handleOfferRelease_step [evolving]: "section_step a (fst (handleOfferRelease W now mid sv env rel a))"
proof (cases "map_of (al_offers a) (rl_offer_id rel)")
  case None
  then show ?thesis by (simp add: handleOfferRelease_def split: option.split)
next
  case (Some o1)
  define a1 where "a1 = ended_state (rl_offer_id rel) o1 (released_status W now o1) a"
  have "unsaved a a1" "unsaved a (unended (rl_offer_id rel) o1 a1)"
    by (simp_all add: a1_def ended_state_def unended_def unsaved_def frame_def config_same_def exec_evolves_same)
  then show ?thesis unfolding handleOfferRelease_cases[OF Some] Let_def a1_def[symmetric]
    by (cases rule: save_cases[of sv a1 a]) (simp_all add: unsaved_step)
qed

lemma tunnels_step: "section_step a (a\<lparr>al_tunnels := r\<rparr>)"
  by (rule unsaved_step) (simp add: unsaved_def frame_def config_same_def exec_evolves_same)

lemma tunnel_sections_step [evolving]:
  "section_step a (fst (handleTunnelOpen_bind W now mid env op1 a))" "section_step a (fst (openSession_open x key a))"
  "section_step a (fst (openSession_recheck x s a))" "section_step a (CloseTunnel s a)"
  by (simp_all add: handleTunnelOpen_bind_def openSession_open_def openSession_recheck_def CloseTunnel_def Let_def prod.case_eq_if
      tunnels_step split: sum.split option.split)

lemma RuntimeCompleted_step [evolving]: "section_step a (fst (RuntimeCompleted now sv c a))"
proof (cases "map_of (al_executions a) (cm_ExecutionID c)")
  case (Some r)
  show ?thesis using unsaved_finish[OF _ Terminal_completion(1) Some]
    by (simp add: RuntimeCompleted_cases[OF Some] Let_def tunnels_step section_step_persist)
qed (simp add: RuntimeCompleted_def Let_def)

lemma completionReporter_step [evolving]: "section_step a (fst (completionReporter x now sv c a))"
  by (simp add: completionReporter_def Let_def RuntimeCompleted_step)

lemma checkFreshness_step [evolving]: "section_step a (fst (checkFreshness W t e a))"
proof -
  have "fst (checkFreshness W t e a) = a\<lparr>al_highWater := max t (al_highWater a)\<rparr>"
    using effectiveNow_fst[of t a] by (simp add: checkFreshness_def prod.case_eq_if Let_def)
  then show ?thesis by (simp add: section_step_def frame_def config_same_def exec_evolves_same)
qed

lemma views_step [evolving]: "section_step a (fst (SweepExpired W now sv a))" "section_step a (fst (Available W now c a))"
  using section_step_persist[OF unsaved_expire[of a W now], of sv] unsaved_step[OF unsaved_expire[of a W now]]
  by (simp_all add: SweepExpired_def Available_def Let_def prod.case_eq_if)

section \<open>Background work\<close>

lemma highWater_step: "unsaved (a\<lparr>al_highWater := max t (al_highWater a)\<rparr>) b \<Longrightarrow> unsaved a b"
  by (simp add: unsaved_def frame_def config_same_def exec_evolves_def)

lemma evict_round_step [evolving]:
  assumes ok: "alloc_ok a" and r: "evict_round t ctx sv a = Some (a', st)"
  shows "section_step a a'"
proof -
  let ?a = "a\<lparr>al_highWater := max t (al_highWater a)\<rparr>" and ?now = "max t (al_highWater a)"
  have ok1: "alloc_ok ?a" using ok by simp
  have eff: "effectiveNowLocked t a = (?a, ?now)" by (metis effectiveNow_fst prod.collapse)
  obtain x1 p1 where n: "nextExpiredLeaseLocked ?now ?a = (x1, p1)" by force
  have "a' = ?a \<or> x1 \<noteq> [] \<and> (\<exists>d1 e. beginEvictionLocked x1 ?now sv ?a = Some (a', d1, e))"
  proof (cases "x1 = [] \<or> ctx \<noteq> None")
    case True
    then show ?thesis using r unfolding evict_round_def eff by (cases "x1 = []") (auto simp: n)
  next
    case False
    then obtain b d1 e where "beginEvictionLocked x1 ?now sv ?a = Some (b, d1, e)"
      using r unfolding evict_round_def eff by (auto simp: n split: option.splits)
    with False show ?thesis using r unfolding evict_round_def eff by (cases e) (auto simp: n)
  qed
  moreover have "section_step a b" if x1: "x1 \<noteq> []" and b: "beginEvictionLocked x1 ?now sv ?a = Some (b, d1, e)" for b d1 e
  proof -
    obtain r1 where r1: "map_of (al_executions ?a) x1 = Some r1" "lease_expired ?now r1" using nextExpired_lookup[OF ok1 n x1] by blast
    let ?a1 = "?a\<lparr>al_executions := map_put x1 (mark_cancelling LeaseExpiredDetail ?now r1) (al_executions ?a)\<rparr>"
    have "unsaved ?a ?a1"
      using unsaved_put[OF r1(1) evolves_mark[OF core_exec[OF ok_core[OF ok1] r1(1)]]] lease_expired_live[OF r1(2)] by blast
    then have "unsaved a ?a1" by (rule highWater_step)
    moreover have "unsaved a ?a" by (rule highWater_step[of t a]) simp
    ultimately show ?thesis using r1 b
      by (cases rule: save_cases[of sv ?a1 a]) (auto simp: beginEvictionLocked_def Let_def unsaved_step)
  qed
  moreover have "section_step a ?a" by (rule unsaved_step, rule highWater_step[of t a]) simp
  ultimately show ?thesis by blast
qed

lemma stopped_state_step: "Terminal p \<Longrightarrow> unsaved a (stopped_state now x p d a)"
  by (simp add: stopped_state_def unsaved_finish split: option.split)

lemma completeEviction_step [evolving]:
  assumes ok: "alloc_ok a" and p: "p \<in> {EXECUTION_PHASE_STARTING, EXECUTION_PHASE_RUNNING}"
  shows "section_step a (fst (completeEviction now sv x p d stopErr a))"
proof (cases "map_of (al_executions a) x")
  case (Some r)
  show ?thesis
  proof (cases "stopErr = None \<or> errors_Is (the stopErr) RuntimeErrExecutionMissing")
    case True
    have "Terminal EXECUTION_PHASE_FAILED" by (simp add: Terminal_def)
    then show ?thesis unfolding completeEviction_stopped[OF Some True]
      by (intro section_step_persist stopped_state_step)
  next
    case False
    have "unsaved a (a\<lparr>al_executions := map_put x (restore_phase p d now r) (al_executions a)\<rparr>)"
      if "er_phase r = EXECUTION_PHASE_CANCELLING"
      using unsaved_put[OF Some evolves_restore[OF core_exec[OF ok_core[OF ok] Some] that p]] .
    with False Some show ?thesis by (auto simp: completeEviction_def Let_def prod.case_eq_if section_step_persist)
  qed
qed (simp add: completeEviction_def)

lemma recover_stopped_step [evolving]:
  "Terminal p \<Longrightarrow> section_step a (fst (recover_stopped now sv x p d stopErr a))"
  by (simp add: recover_stopped_eq section_step_persist stopped_state_step)

lemma recover_finish_step [evolving]:
  assumes ok: "alloc_ok a"
  shows "section_step a (fst (recover_finish now sv x recoverErr a))"
proof (cases "map_of (al_executions a) x")
  case None
  then show ?thesis by (simp add: recover_finish_def section_step_persist split: option.split)
next
  case (Some r)
  note ex = core_exec[OF ok_core[OF ok] Some]
  have "unsaved a (finishLocked x r EXECUTION_PHASE_FAILED d None now a)" if "\<not> Terminal (er_phase r)" for d
    using unsaved_finish[OF that _ Some] by (simp add: Terminal_def)
  moreover have "unsaved a (a\<lparr>al_executions := map_put x (r\<lparr>er_phase := EXECUTION_PHASE_RUNNING, er_occurredAt := now,
      er_revision := er_revision r + 1\<rparr>) (al_executions a)\<rparr>)" if "er_phase r = EXECUTION_PHASE_STARTING"
    using unsaved_put[OF Some evolves_running[OF ex that]] .
  ultimately show ?thesis using Some by (simp add: recover_finish_def section_step_persist split: option.split)
qed

end
