(* ===== verification/Alloc_Dispatch.thy ===== *)
theory Alloc_Dispatch
  imports Alloc_Evolve
begin

text \<open>
  Command dispatch: \<open>Handle\<close> of \<open>dispatch.go\<close> as the machine of the goroutine that runs it.  A state of the
  machine is the place where the goroutine stands between two sections under the allocator's lock;
  \<open>advance\<close> runs one section, with what it reads from outside (clock, identifiers, the outcome of a save,
  the answer of the runtime) in a \<open>world\<close> record.  \<open>None\<close> is a panic.  The lemmas show that a machine in a
  state it can reach never panics, preserves the allocator's invariant and disturbs no other command.
\<close>

section \<open>The machine\<close>

text \<open>\<open>wd_answer\<close> is the error of the runtime call or of the cancelled context, \<open>wd_logs\<close> what the log store returns.\<close>

record world =
  wd_now :: gotime
  wd_now2 :: gotime
  wd_id1 :: string
  wd_id2 :: string
  wd_save :: "go_error option"
  wd_answer :: "go_error option"
  wd_logs :: "(go_error + LogChunk) option"

text \<open>\<open>Waiting\<close> is a duplicate in the \<open>select\<close> on the entry's channel; closing the channel makes it \<open>Woken\<close> with the
  entry's outcome.\<close>

datatype thread =
    Received Envelope
  | ReadingLogs Envelope ExecutionLogsRequest
  | Fresh Envelope
  | Waiting string Envelope
  | Woken Envelope "Envelope list" "go_error option"
  | Begun string Envelope
  | Starting string Envelope ExecutionAssign
  | Stopping string Envelope ExecutionCancel ExecutionPhase string
  | Binding string Envelope ExecutionTunnelOpen
  | Replying string Envelope "Envelope list" "go_error option"
  | Answered Envelope "Envelope list" "go_error option"

text \<open>The payloads the second switch of \<open>Handle\<close> knows.\<close>

definition is_command :: "Envelope \<Rightarrow> bool" where
  "is_command e = (case payload e of
     Some (Envelope_ExecutionRequest _) \<Rightarrow> True | Some (Envelope_ExecutionAssign _) \<Rightarrow> True
   | Some (Envelope_ExecutionCancel _) \<Rightarrow> True | Some (Envelope_ExecutionInspect _) \<Rightarrow> True
   | Some (Envelope_ExecutionOfferRelease _) \<Rightarrow> True | Some (Envelope_ExecutionLeaseRenew _) \<Rightarrow> True
   | Some (Envelope_ExecutionTunnelOpen _) \<Rightarrow> True | _ \<Rightarrow> False)"

definition replay_key :: "Envelope \<Rightarrow> string" where
  "replay_key e = authorityKey (sender e) (message_id e)"

text \<open>After a handler: an error without a response gets an error response.\<close>

definition replying :: "pblib \<Rightarrow> world \<Rightarrow> string \<Rightarrow> Envelope \<Rightarrow> Allocator \<Rightarrow> reply \<Rightarrow> thread" where
  "replying W wd key e a rep = (case rep of (responses, er) \<Rightarrow>
     Replying key e (case er of Some x \<Rightarrow> if responses = [] then errorResponse W (wd_id2 wd) (wd_now2 wd) e x a else responses
                      | None \<Rightarrow> responses) er)"

definition receive :: "pblib \<Rightarrow> world \<Rightarrow> Envelope \<Rightarrow> Allocator \<Rightarrow> Allocator \<times> thread" where
  "receive W wd e a = (case ValidateEnvelope W (Some e) of
     Some x \<Rightarrow> (a, Answered e [] (Some (validation_error x)))
   | None \<Rightarrow> (case checkFreshness W (wd_now wd) e a of
       (a1, Some x) \<Rightarrow> (a1, Answered e (errorResponse W (wd_id2 wd) (wd_now2 wd) e x a1) (Some x))
     | (a1, None) \<Rightarrow>
         (case payload e of
            Some (Envelope_ExecutionLogsRequest (Some q)) \<Rightarrow> (a1, ReadingLogs e q)
          | _ \<Rightarrow> if is_command e then (a1, Fresh e) else (a1, Answered e [] (Some (err ErrUnsupportedMessage))))))"

definition enter :: "pblib \<Rightarrow> world \<Rightarrow> Envelope \<Rightarrow> Allocator \<Rightarrow> Allocator \<times> thread" where
  "enter W wd e a =
     (case beginReplay W (replay_key e) e (wd_now wd) (wd_save wd) a of
        (a1, Some x, _) \<Rightarrow> (a1, Answered e (errorResponse W (wd_id2 wd) (wd_now2 wd) e x a1) (Some x))
      | (a1, None, True) \<Rightarrow> (case map_of (rc_entries (al_replay a1)) (replay_key e) of
           Some entry \<Rightarrow> if replayDone entry then (a1, Answered e (re_responses entry) (re_err entry))
                         else (a1, Waiting (replay_key e) e)
         | None \<Rightarrow> (a1, Waiting (replay_key e) e))
      | (a1, None, False) \<Rightarrow> (a1, Begun (replay_key e) e))"

text \<open>The handler switch up to the first runtime call.\<close>

definition handle :: "pblib \<Rightarrow> world \<Rightarrow> string \<Rightarrow> Envelope \<Rightarrow> Allocator \<Rightarrow> (Allocator \<times> thread) option" where
  "handle W wd key e a =
     (let t = wd_now wd; sv = wd_save wd; finish = (\<lambda>(a1, rep). Some (a1, replying W wd key e a1 rep)) in
      case payload e of
        Some (Envelope_ExecutionRequest (Some q)) \<Rightarrow> finish (handleRequest W t (wd_id1 wd) (wd_id2 wd) sv e q a)
      | Some (Envelope_ExecutionAssign (Some q)) \<Rightarrow> (case handleAssign_begin W t (wd_id1 wd) sv e q a of
            (a1, AssignReply rep) \<Rightarrow> finish (a1, rep)
          | (a1, AssignStart req) \<Rightarrow> Some (a1, Starting key e q))
      | Some (Envelope_ExecutionCancel (Some q)) \<Rightarrow> (case handleCancel_begin W t (wd_id1 wd) sv e q a of
            (a1, CancelReply rep) \<Rightarrow> finish (a1, rep)
          | (a1, CancelStop x phase detail) \<Rightarrow> Some (a1, Stopping key e q phase detail))
      | Some (Envelope_ExecutionInspect (Some q)) \<Rightarrow> finish (a, handleInspect W t (wd_id1 wd) e q a)
      | Some (Envelope_ExecutionOfferRelease (Some q)) \<Rightarrow> finish (handleOfferRelease W t (wd_id1 wd) sv e q a)
      | Some (Envelope_ExecutionLeaseRenew (Some q)) \<Rightarrow> finish (handleLeaseRenew W t (wd_id1 wd) sv e q a)
      | Some (Envelope_ExecutionTunnelOpen (Some q)) \<Rightarrow> (case handleTunnelOpen_check e q a of
            Some rep \<Rightarrow> finish (a, rep)
          | None \<Rightarrow> Some (a, Binding key e q))
      | _ \<Rightarrow> None)"

definition answer :: "world \<Rightarrow> string \<Rightarrow> Envelope \<Rightarrow> Envelope list \<Rightarrow> go_error option \<Rightarrow> Allocator \<Rightarrow> Allocator \<times> thread" where
  "answer wd key e responses er a = (case finishReplay key responses er (wd_save wd) a of
     (a1, None) \<Rightarrow> (a1, Answered e responses er)
   | (a1, Some x) \<Rightarrow> (a1, Answered e responses (Join [er, Some x])))"

fun advance :: "pblib \<Rightarrow> world \<Rightarrow> thread \<Rightarrow> Allocator \<Rightarrow> (Allocator \<times> thread) option" where
  "advance W wd (Received e) a = Some (receive W wd e a)"
| "advance W wd (ReadingLogs e q) a = (case handleLogs W (wd_now wd) (wd_id1 wd) (wd_logs wd) e q a of
     (responses, er) \<Rightarrow> Some (a, Answered e responses er))"
| "advance W wd (Fresh e) a = Some (enter W wd e a)"
| "advance W wd (Begun key e) a = handle W wd key e a"
| "advance W wd (Starting key e q) a = (case
     handleAssign_finish W (wd_now wd) (wd_now2 wd) (wd_id1 wd) (wd_save wd) e (as_execution_id q) (wd_answer wd) a of
       None \<Rightarrow> None | Some (a1, rep) \<Rightarrow> Some (a1, replying W wd key e a1 rep))"
| "advance W wd (Stopping key e q phase detail) a = (case
     handleCancel_finish W (wd_now wd) (wd_now2 wd) (wd_id1 wd) (wd_save wd) e (ca_execution_id q) phase detail
       (ca_reason q) (wd_answer wd) a of
       None \<Rightarrow> None | Some (a1, rep) \<Rightarrow> Some (a1, replying W wd key e a1 rep))"
| "advance W wd (Binding key e q) a = (case handleTunnelOpen_bind W (wd_now wd) (wd_id1 wd) e q a of
     (a1, rep) \<Rightarrow> Some (a1, replying W wd key e a1 rep))"
| "advance W wd (Replying key e responses er) a = Some (answer wd key e responses er a)"
| "advance W wd (Waiting key e) a = Some (a, case wd_answer wd of
     Some ctxErr \<Rightarrow> Answered e [] (Some ctxErr) | None \<Rightarrow> Waiting key e)"
| "advance W wd (Woken e responses er) a = Some (a, case wd_answer wd of
     Some ctxErr \<Rightarrow> Answered e [] (Some ctxErr) | None \<Rightarrow> Answered e responses er)"
| "advance W wd (Answered e responses er) a = Some (a, Answered e responses er)"

text \<open>\<open>Handle\<close> without interference: the machine run to its end, with one world per section.\<close>

fun Handle :: "pblib \<Rightarrow> world list \<Rightarrow> thread \<Rightarrow> Allocator \<Rightarrow> (Allocator \<times> thread) option" where
  "Handle W [] t a = Some (a, t)"
| "Handle W (wd # wds) t a = (case advance W wd t a of None \<Rightarrow> None | Some (a1, t1) \<Rightarrow> Handle W wds t1 a1)"

definition commandName :: "Envelope \<Rightarrow> string" where
  "commandName e = (case payload e of
     Some (Envelope_ExecutionLogsRequest (Some _)) \<Rightarrow> ''logs''
   | Some (Envelope_ExecutionRequest _) \<Rightarrow> ''request''
   | Some (Envelope_ExecutionAssign _) \<Rightarrow> ''assign''
   | Some (Envelope_ExecutionCancel _) \<Rightarrow> ''cancel''
   | Some (Envelope_ExecutionInspect _) \<Rightarrow> ''inspect''
   | Some (Envelope_ExecutionOfferRelease _) \<Rightarrow> ''release''
   | Some (Envelope_ExecutionLeaseRenew _) \<Rightarrow> ''renew''
   | Some (Envelope_ExecutionTunnelOpen _) \<Rightarrow> ''tunnel_open''
   | _ \<Rightarrow> ''unknown'')"

section \<open>Invariant of a machine\<close>

text \<open>What the code relies on: protobuf delivers strings in valid UTF-8, the clock reads later than the zero time,
  generated identifiers are valid UTF-8.\<close>

definition proto_text :: "Envelope \<Rightarrow> bool" where
  "proto_text e = (case payload e of
     Some (Envelope_ExecutionRequest (Some q)) \<Rightarrow> valid_utf8 (rq_request_id q) \<and> valid_utf8 (rq_resource_class q)
   | Some (Envelope_ExecutionAssign (Some q)) \<Rightarrow> valid_utf8 (as_execution_id q)
   | _ \<Rightarrow> True)"

definition sane_world :: "world \<Rightarrow> bool" where
  "sane_world wd \<longleftrightarrow> zero_time < wd_now wd \<and> zero_time < wd_now2 wd \<and> valid_utf8 (wd_id1 wd)"

lemma sane_worldD:
  "sane_world wd \<Longrightarrow> wd_now wd \<noteq> zero_time" "sane_world wd \<Longrightarrow> max (wd_now wd) t \<noteq> zero_time"
  "sane_world wd \<Longrightarrow> valid_utf8 (wd_id1 wd)"
  by (auto simp: sane_world_def)

definition well_formed :: "pblib \<Rightarrow> Envelope \<Rightarrow> bool" where
  "well_formed W e \<longleftrightarrow> ValidateEnvelope W (Some e) = None \<and> is_command e \<and> proto_text e"

fun owned :: "thread \<Rightarrow> string option" where
  "owned (Begun key e) = Some key"
| "owned (Starting key e q) = Some key"
| "owned (Stopping key e q p d) = Some key"
| "owned (Binding key e q) = Some key"
| "owned (Replying key e rs er) = Some key"
| "owned _ = None"

text \<open>The command in flight a machine relies on, and the one its next section takes out of flight.\<close>

fun needs :: "thread \<Rightarrow> string option" where
  "needs (Waiting key e) = Some key"
| "needs t = owned t"

fun releases :: "thread \<Rightarrow> string option" where
  "releases (Replying key e rs er) = Some key"
| "releases _ = None"

definition flying :: "Allocator \<Rightarrow> string \<Rightarrow> bool" where
  "flying a k \<longleftrightarrow> (\<exists>e. in_flight (al_replay a) k e)"

definition runs :: "pblib \<Rightarrow> Allocator \<Rightarrow> string \<Rightarrow> Envelope \<Rightarrow> bool" where
  "runs W a key e \<longleftrightarrow> well_formed W e \<and> key = replay_key e \<and> in_flight (al_replay a) key e"

fun thread_ok :: "pblib \<Rightarrow> Allocator \<Rightarrow> thread \<Rightarrow> bool" where
  "thread_ok W a (Received e) = proto_text e"
| "thread_ok W a (Fresh e) = well_formed W e"
| "thread_ok W a (Waiting key e) = flying a key"
| "thread_ok W a (Begun key e) = runs W a key e"
| "thread_ok W a (Starting key e q) = (runs W a key e \<and> payload e = Some (Envelope_ExecutionAssign (Some q))
     \<and> (\<exists>r. map_of (al_executions a) (as_execution_id q) = Some r \<and> er_client r = sender e
          \<and> rq_request_id (er_request r) = as_request_id q))"
| "thread_ok W a (Stopping key e q p d) = (runs W a key e \<and> payload e = Some (Envelope_ExecutionCancel (Some q))
     \<and> p \<in> {EXECUTION_PHASE_STARTING, EXECUTION_PHASE_RUNNING}
     \<and> (\<exists>r. map_of (al_executions a) (ca_execution_id q) = Some r \<and> er_client r = sender e))"
| "thread_ok W a (Binding key e q) = runs W a key e"
| "thread_ok W a (Replying key e rs er) = runs W a key e"
| "thread_ok W a _ = True"

text \<open>What a step leaves to the other machines: the commands in flight with other keys, and the executions.\<close>

definition undisturbed :: "string option \<Rightarrow> Allocator \<Rightarrow> Allocator \<Rightarrow> bool" where
  "undisturbed own a b \<longleftrightarrow> exec_evolves a b \<and> al_tombstones b = al_tombstones a \<and> config_same a b
     \<and> al_highWater a \<le> al_highWater b \<and> (al_store b = al_store a \<or> al_store b = Some (Some (persisted_snapshot b)))
     \<and> (\<forall>k e. in_flight (al_replay a) k e \<longrightarrow> own \<noteq> Some k \<longrightarrow> in_flight (al_replay b) k e)"

lemma undisturbed_section: "section_step a b \<Longrightarrow> undisturbed own a b"
  by (simp add: undisturbed_def section_step_def frame_def)

lemma undisturbed_refl [simp]: "undisturbed own a a"
  by (rule undisturbed_section) simp

lemma thread_ok_undisturbed:
  assumes "undisturbed own a b" "thread_ok W a t" "needs t = None \<or> needs t \<noteq> own"
  shows "thread_ok W b t"
proof -
  have fl: "runs W b k e" if "runs W a k e" "own \<noteq> Some k" for k e
    using assms(1) that by (auto simp: undisturbed_def runs_def)
  have ex: "\<exists>r'. map_of (al_executions b) x = Some r' \<and> er_client r' = er_client r \<and> er_request r' = er_request r"
    if "map_of (al_executions a) x = Some r" for x r
  proof -
    obtain r' where "map_of (al_executions b) x = Some r'" "evolves r r'"
      using assms(1) \<open>map_of (al_executions a) x = Some r\<close> unfolding undisturbed_def exec_evolves_def by blast
    moreover have "same_execution r r'" using \<open>evolves r r'\<close> by (rule evolves_same)
    ultimately show ?thesis by (simp add: same_execution_def)
  qed
  show ?thesis
  proof (cases t)
    case (Starting key e q)
    with assms obtain r where r: "map_of (al_executions a) (as_execution_id q) = Some r" "er_client r = sender e"
      "rq_request_id (er_request r) = as_request_id q" by auto
    with ex[OF r(1)] fl[of key e] assms Starting show ?thesis by auto
  next
    case (Stopping key e q p d)
    with assms obtain r where r: "map_of (al_executions a) (ca_execution_id q) = Some r" "er_client r = sender e" by auto
    with ex[OF r(1)] fl[of key e] assms Stopping show ?thesis by auto
  next
    case (Waiting key e)
    then obtain d where "in_flight (al_replay a) key d" "own \<noteq> Some key" using assms(2,3) by (auto simp: flying_def)
    then have "in_flight (al_replay b) key d" using assms(1) by (simp add: undisturbed_def)
    then show ?thesis using Waiting by (auto simp: flying_def)
  qed (use assms fl in auto)
qed

section \<open>Each section\<close>

lemma well_formed_texts:
  assumes "well_formed W e"
  shows "payload e = Some (Envelope_ExecutionRequest p) \<Longrightarrow> \<exists>q. p = Some q \<and> rq_request_id q \<noteq> [] \<and> rq_resource_class q \<noteq> []
      \<and> valid_utf8 (rq_request_id q) \<and> valid_utf8 (rq_resource_class q)"
    and "payload e = Some (Envelope_ExecutionAssign p2) \<Longrightarrow> \<exists>q. p2 = Some q \<and> as_execution_id q \<noteq> [] \<and> valid_utf8 (as_execution_id q)"
    and "payload e = Some (Envelope_ExecutionCancel p3) \<Longrightarrow> p3 \<noteq> None"
    and "payload e = Some (Envelope_ExecutionInspect p4) \<Longrightarrow> p4 \<noteq> None"
    and "payload e = Some (Envelope_ExecutionOfferRelease p5) \<Longrightarrow> p5 \<noteq> None"
    and "payload e = Some (Envelope_ExecutionLeaseRenew p6) \<Longrightarrow> p6 \<noteq> None"
    and "payload e = Some (Envelope_ExecutionTunnelOpen p7) \<Longrightarrow> p7 \<noteq> None"
  using assms by (auto simp: well_formed_def ValidateEnvelope_def proto_text_def validateRequest_def validateAssign_def
      validateCancel_def validateInspect_def validateOfferRelease_def validateLeaseRenew_def validateTunnelOpen_def invalid_def
      split: option.splits if_splits)

lemma replay_key_nonempty [simp]: "replay_key e \<noteq> []"
  by (simp add: replay_key_def)

lemma replying_ok: "runs W a key e \<Longrightarrow> thread_ok W a (replying W' wd key e a' rep)"
  by (cases rep) (simp add: replying_def)

lemma replying_owned [simp]: "owned (replying W wd key e a rep) = Some key"
  by (cases rep) (simp add: replying_def)

lemma runs_section: "runs W a key e \<Longrightarrow> section_step a b \<Longrightarrow> runs W b key e"
  by (auto simp: runs_def section_step_def frame_def)

text \<open>A machine gains a key only when no machine holds it, and no command is left in flight without a machine.\<close>

definition advances :: "pblib \<Rightarrow> Allocator \<Rightarrow> thread \<Rightarrow> Allocator \<Rightarrow> thread \<Rightarrow> bool" where
  "advances W a t b t' \<longleftrightarrow> alloc_ok b \<and> thread_ok W b t' \<and> undisturbed (releases t) a b
     \<and> (owned t' = None \<or> owned t' = owned t \<or> (\<forall>e. \<not> in_flight (al_replay a) (the (owned t')) e))
     \<and> (\<forall>k. flying b k \<longrightarrow> owned t' = Some k \<or> owned t \<noteq> Some k \<and> flying a k)"

lemma receive_advances:
  assumes ok: "alloc_ok a" and th: "thread_ok W a (Received e)" and r: "receive W wd e a = (b, t')"
  shows "advances W a (Received e) b t'"
proof (cases "ValidateEnvelope W (Some e)")
  case (Some x)
  then show ?thesis using r ok by (auto simp: receive_def advances_def)
next
  case None
  let ?a1 = "fst (checkFreshness W (wd_now wd) e a)"
  have b: "b = ?a1" using r None
    by (auto simp: receive_def split: prod.splits option.splits Envelope_Payload.splits if_splits)
  have "thread_ok W b t'" using r None th
    by (auto simp: receive_def well_formed_def split: prod.splits option.splits Envelope_Payload.splits if_splits)
  moreover have "owned t' = None" using r None
    by (auto simp: receive_def split: prod.splits option.splits Envelope_Payload.splits if_splits)
  moreover have "al_replay b = al_replay a" using checkFreshness_step[of a W "wd_now wd" e] b by (simp add: section_step_def frame_def)
  ultimately show ?thesis using ok b undisturbed_section[OF checkFreshness_step] alloc_ok_checkFreshness
    by (simp add: advances_def flying_def)
qed

lemma evict_entries_sub: "map_of (evict_entries n m) k = Some e \<Longrightarrow> map_of m k = Some e"
proof (induction n m rule: evict_entries.induct)
  case (1 n m)
  from 1(2) show ?case
    by (subst (asm) evict_entries.simps) (use 1(1) in \<open>auto simp: Let_def split: if_splits\<close>)
qed

lemma in_flight_evictD: "in_flight (evict n c) k e \<Longrightarrow> in_flight c k e"
proof -
  assume "in_flight (evict n c) k e"
  then obtain entry where en: "map_of (evict_entries n (rc_entries c)) k = Some entry" "\<not> re_done entry" "re_envelope entry = e"
    by (auto simp: in_flight_def evict_def)
  from evict_entries_sub[OF en(1)] en(2,3) show "in_flight c k e" unfolding in_flight_def by blast
qed

lemma in_flight_pruneD: "cache_ok c \<Longrightarrow> in_flight (prune now c) k e \<Longrightarrow> in_flight c k e"
  unfolding in_flight_def by (auto simp: prune_lookup split: option.splits if_splits)

lemma in_flight_put:
  "in_flight (c\<lparr>rc_entries := map_put key entry (rc_entries c)\<rparr>) k e \<Longrightarrow> k = key \<or> in_flight c k e"
  unfolding in_flight_def by (auto split: if_splits)

lemma begin_replay_flights:
  assumes ok: "cache_ok c" and fl: "in_flight (fst (begin_replay W key env now c)) k e"
  shows "in_flight c k e \<or> k = key \<and> snd (begin_replay W key env now c) = (None, False)"
proof (cases "map_of (rc_entries (prune now c)) key")
  case None
  let ?c1 = "evict (rc_capacity (prune now c) - 1) (prune now c)"
  have sub: "in_flight ?c1 k e \<Longrightarrow> in_flight c k e" using in_flight_pruneD[OF ok] in_flight_evictD by blast
  show ?thesis
  proof (cases "int (length (rc_entries ?c1)) \<ge> rc_capacity ?c1")
    case True
    then show ?thesis using fl None sub by (simp add: begin_replay_def Let_def)
  next
    case False
    then have b: "begin_replay W key env now c = (?c1\<lparr>rc_entries := map_put key \<lparr>re_seenAt = now, re_done = False, re_envelope = env,
        re_responses = [], re_err = None\<rparr> (rc_entries ?c1)\<rparr>, None, False)" using None by (simp add: begin_replay_def Let_def)
    show ?thesis using in_flight_put[OF fl[unfolded b fst_conv]] sub unfolding b by auto
  qed
next
  case (Some entry)
  then show ?thesis using fl in_flight_pruneD[OF ok, of now k e] by (simp add: begin_replay_def Let_def split: if_splits)
qed

lemma beginReplay_cases:
  assumes c: "begin_replay W key e now (al_replay a) = (c, e1, d1)"
    and b1: "b1 = (fst (expireOffersLocked W now a))\<lparr>al_replay := c\<rparr>"
  shows "beginReplay W key e now sv a = (case e1 of Some x \<Rightarrow> (b1, Some x, d1)
     | None \<Rightarrow> if d1 then (b1, None, True)
         else (case persistLocked sv b1 of (b2, None) \<Rightarrow> (b2, None, False)
           | (b2, Some x) \<Rightarrow> (b1\<lparr>al_replay := c\<lparr>rc_entries := map_delete key (rc_entries c)\<rparr>\<rparr>, Some x, False)))"
proof -
  have r: "al_replay b1 = c" by (simp add: b1)
  show ?thesis using c r
    by (cases e1; cases d1; cases rule: persist_cases[of sv b1]) (simp_all add: beginReplay_def Let_def b1[symmetric])
qed

lemma beginReplay_effect:
  assumes ok: "alloc_ok a" and key: "key \<noteq> []" and b: "beginReplay W key e now sv a = (b, er, dup)"
  shows "exec_evolves a b" "in_flight (al_replay a) k e' \<Longrightarrow> in_flight (al_replay b) k e'"
    "er = None \<Longrightarrow> \<not> dup \<Longrightarrow> in_flight (al_replay b) key e" "al_tombstones b = al_tombstones a" "config_same a b"
    "al_highWater b = al_highWater a" "al_store b = al_store a \<or> al_store b = Some (Some (persisted_snapshot b))"
    "er = None \<Longrightarrow> \<not> dup \<Longrightarrow> \<not> in_flight (al_replay a) key e'"
    "in_flight (al_replay b) k e' \<Longrightarrow> in_flight (al_replay a) k e' \<or> k = key \<and> er = None \<and> \<not> dup"
    "er = None \<Longrightarrow> dup \<Longrightarrow> map_of (rc_entries (al_replay b)) key \<noteq> None"
proof -
  let ?a = "fst (expireOffersLocked W now a)"
  have ok1: "alloc_ok ?a" using ok by auto
  have un: "unsaved a ?a" by simp
  have hw: "al_highWater ?a = al_highWater a" by simp
  obtain c e1 d1 where c: "begin_replay W key e now (al_replay ?a) = (c, e1, d1)" by (metis surj_pair)
  have caps: "rc_capacity c = rc_capacity (al_replay a)" "rc_ttl c = rc_ttl (al_replay a)"
    using arg_cong[OF c, of "\<lambda>z. rc_capacity (fst z)"] arg_cong[OF c, of "\<lambda>z. rc_ttl (fst z)"] by simp_all
  have keep: "in_flight c k e'" if "in_flight (al_replay a) k e'" for k e'
    using begin_replay_keeps[OF ok_cache[OF ok1], of k e' W key e now] that c by simp
  have new: "in_flight c key e" if "e1 = None" "\<not> d1" using begin_replay_new[of W key e now "al_replay ?a" c] c that by simp
  have other: "k \<noteq> key" if "in_flight (al_replay a) k e'" "e1 = None" "\<not> d1" for k e'
  proof -
    have "map_of (rc_entries (prune now (al_replay ?a))) key = None"
      using c that(2,3) by (auto simp: begin_replay_def Let_def split: option.splits if_splits)
    moreover have "in_flight (prune now (al_replay ?a)) k e'" using in_flight_prune[OF ok_cache[OF ok1]] that(1) by simp
    ultimately show ?thesis by (auto simp: in_flight_def)
  qed
  have back_c: "in_flight (al_replay a) k e' \<or> k = key \<and> e1 = None \<and> \<not> d1" if "in_flight c k e'" for k e'
    using begin_replay_flights[OF ok_cache[OF ok1], of W key e now k e'] that c by simp
  have back_u: "in_flight (al_replay a) k e'" if "in_flight (c\<lparr>rc_entries := map_delete key (rc_entries c)\<rparr>) k e'" for k e'
    using back_c[of k e'] that by (auto simp: in_flight_def split: if_splits)
  have dupc: "map_of (rc_entries c) key \<noteq> None" if "e1 = None" "d1"
    using c that by (auto simp: begin_replay_def Let_def split: option.splits if_splits)
  have drop: "in_flight (c\<lparr>rc_entries := map_delete key (rc_entries c)\<rparr>) k e'"
    if "in_flight (al_replay a) k e'" "e1 = None" "\<not> d1" for k e'
    using keep[OF that(1)] other[OF that] by (simp add: in_flight_def)
  define b1 where "b1 = ?a\<lparr>al_replay := c\<rparr>"
  have base: "exec_evolves a b1" "al_tombstones b1 = al_tombstones a" "al_highWater b1 = al_highWater a" "config_same a b1"
      "al_store b1 = al_store a"
    using un caps by (simp_all add: b1_def unsaved_def frame_def exec_evolves_def config_same_def)
  define b2 where "b2 = b1\<lparr>al_replay := c\<lparr>rc_entries := map_delete key (rc_entries c)\<rparr>\<rparr>"
  have undo: "exec_evolves a b2" "al_tombstones b2 = al_tombstones a" "al_highWater b2 = al_highWater a" "config_same a b2"
      "al_store b2 = al_store a"
    using base caps by (simp_all add: b2_def b1_def exec_evolves_def config_same_def)
  have c': "begin_replay W key e now (al_replay a) = (c, e1, d1)" using c by simp
  note eq = beginReplay_cases[OF c' b1_def, folded b2_def, of sv]
  consider (same) "b = b1" "er \<noteq> None \<or> dup" "e1 \<noteq> None \<or> d1" "er = e1" | (undone) "b = b2" "er \<noteq> None" "e1 = None" "\<not> d1"
    | (saved) "b = fst (persistLocked sv b1)" "e1 = None" "\<not> d1" "er = None" "\<not> dup"
    using b eq by (cases rule: persist_cases[of sv b1]; cases e1; cases d1) auto
  then have "exec_evolves a b \<and> (\<forall>k e'. in_flight (al_replay a) k e' \<longrightarrow> in_flight (al_replay b) k e')
     \<and> (er = None \<longrightarrow> \<not> dup \<longrightarrow> in_flight (al_replay b) key e) \<and> al_tombstones b = al_tombstones a \<and> config_same a b
     \<and> al_highWater b = al_highWater a \<and> (al_store b = al_store a \<or> al_store b = Some (Some (persisted_snapshot b)))
     \<and> (er = None \<longrightarrow> \<not> dup \<longrightarrow> (\<forall>e'. \<not> in_flight (al_replay a) key e'))
     \<and> (\<forall>k e'. in_flight (al_replay b) k e' \<longrightarrow> in_flight (al_replay a) k e' \<or> k = key \<and> er = None \<and> \<not> dup)
     \<and> (er = None \<longrightarrow> dup \<longrightarrow> map_of (rc_entries (al_replay b)) key \<noteq> None)"
  proof cases
    case same
    then show ?thesis using base keep back_c dupc by (auto simp: b1_def)
  next
    case undone
    then show ?thesis using undo drop back_u by (auto simp: b2_def)
  next
    case saved
    have "unsaved b1 b1" by simp
    from section_step_persist[OF this, of sv] have st: "section_step b1 b" using saved by simp
    have r: "al_replay b = c" using saved by (simp add: b1_def)
    have "config_same a b" using st base(4) by (simp add: section_step_def frame_def config_same_def)
    moreover have "exec_evolves a b" using saved base(1) by simp
    moreover have "al_tombstones b = al_tombstones a" "al_highWater b = al_highWater a" using saved base by simp_all
    moreover have "al_store b = al_store a \<or> al_store b = Some (Some (persisted_snapshot b))"
      using st base(5) by (simp add: section_step_def)
    ultimately show ?thesis using keep new other back_c saved r by auto
  qed
  then show "exec_evolves a b" "in_flight (al_replay a) k e' \<Longrightarrow> in_flight (al_replay b) k e'"
    "er = None \<Longrightarrow> \<not> dup \<Longrightarrow> in_flight (al_replay b) key e" "al_tombstones b = al_tombstones a" "config_same a b"
    "al_highWater b = al_highWater a" "al_store b = al_store a \<or> al_store b = Some (Some (persisted_snapshot b))"
    "er = None \<Longrightarrow> \<not> dup \<Longrightarrow> \<not> in_flight (al_replay a) key e'"
    "in_flight (al_replay b) k e' \<Longrightarrow> in_flight (al_replay a) k e' \<or> k = key \<and> er = None \<and> \<not> dup"
    "er = None \<Longrightarrow> dup \<Longrightarrow> map_of (rc_entries (al_replay b)) key \<noteq> None"
    by blast+
qed

lemma enter_advances:
  assumes ok: "alloc_ok a" and th: "thread_ok W a (Fresh e)" and r: "enter W wd e a = (b, t')"
  shows "advances W a (Fresh e) b t'"
proof -
  obtain a1 er dup where br: "beginReplay W (replay_key e) e (wd_now wd) (wd_save wd) a = (a1, er, dup)" by (metis surj_pair)
  note eff = beginReplay_effect[OF ok replay_key_nonempty br]
  have ok1: "alloc_ok a1" using alloc_ok_beginReplay[OF ok replay_key_nonempty, of W e e "wd_now wd" "wd_save wd"] br by simp
  have "b = a1" using r br by (auto simp: enter_def split: option.splits bool.splits if_splits)
  moreover have fly: "flying a1 k" if "map_of (rc_entries (al_replay a1)) k = Some entry" "\<not> re_done entry" for k entry
    using that unfolding flying_def in_flight_def by blast
  moreover have "thread_ok W a1 t'" using r br th eff(3,10) fly
    by (cases er; cases dup) (auto simp: enter_def runs_def replayDone_def split: option.splits if_splits)
  moreover have "owned t' = None \<or> (\<forall>e'. \<not> in_flight (al_replay a) (the (owned t')) e')" using r br eff(8)
    by (cases er; cases dup) (auto simp: enter_def split: option.splits if_splits)
  moreover have "owned t' = Some (replay_key e)" if "er = None" "\<not> dup" using r br that by (auto simp: enter_def)
  moreover have "flying a k \<or> owned t' = Some k" if "flying a1 k" for k
    using that eff(9) \<open>er = None \<Longrightarrow> \<not> dup \<Longrightarrow> owned t' = Some (replay_key e)\<close> unfolding flying_def by blast
  moreover have "undisturbed None a a1" using eff(1,2,4-7) by (auto simp: undisturbed_def)
  ultimately show ?thesis using ok1 by (simp add: advances_def) metis
qed

lemma well_formed_cases:
  assumes "well_formed W e"
  obtains (request) q where "payload e = Some (Envelope_ExecutionRequest (Some q))"
  | (assign) q where "payload e = Some (Envelope_ExecutionAssign (Some q))"
  | (cancel) q where "payload e = Some (Envelope_ExecutionCancel (Some q))"
  | (inspect) q where "payload e = Some (Envelope_ExecutionInspect (Some q))"
  | (release) q where "payload e = Some (Envelope_ExecutionOfferRelease (Some q))"
  | (renew) q where "payload e = Some (Envelope_ExecutionLeaseRenew (Some q))"
  | (tunnel) q where "payload e = Some (Envelope_ExecutionTunnelOpen (Some q))"
proof (cases "payload e")
  case None
  then show ?thesis using assms by (simp add: well_formed_def is_command_def)
next
  case (Some p)
  then show ?thesis using assms well_formed_texts[OF assms] that
    by (cases p) (auto simp: well_formed_def is_command_def)
qed

lemma handleAssign_begin_start:
  assumes ok: "alloc_ok a" and b: "handleAssign_begin W now mid sv e q a = (a1, AssignStart req)"
  shows "\<exists>r. map_of (al_executions a1) (as_execution_id q) = Some r \<and> er_client r = sender e
     \<and> rq_request_id (er_request r) = as_request_id q"
proof -
  let ?a = "fst (expireOffersLocked W now a)"
  have core: "core_ok (al_offers ?a) (al_requests ?a) (al_executions ?a)" using alloc_ok_expire[OF ok] by (rule ok_core)
  obtain o1 where o1: "map_of (al_offers ?a) (as_offer_id q) = Some o1" "or_client o1 = sender e"
      "of_request_id (or_offer o1) = as_request_id q" "assignOffer now sv (as_execution_id q) (as_offer_id q) o1 ?a = (a1, AssignStart req)"
    using b by (auto simp: handleAssign_begin_def Let_def fail_def split: option.splits if_splits)
  have "offer_ok (as_offer_id q) o1" using core_offer[OF core o1(1)] .
  then have "rq_request_id (or_request o1) = as_request_id q" using o1(3) by (simp add: offer_ok_def)
  moreover have "map_of (al_executions a1) (as_execution_id q) = Some (new_execution now (as_execution_id q) o1 ?a)"
    using o1(4)
    by (cases rule: persist_cases[of sv "?a\<lparr>al_offers := map_put (as_offer_id q) (o1\<lparr>or_status := offerAssigned,
          or_execution := as_execution_id q\<rparr>) (al_offers ?a),
        al_executions := map_put (as_execution_id q) (new_execution now (as_execution_id q) o1 ?a) (al_executions ?a)\<rparr>"])
      (auto simp: assignOffer_def Let_def)
  ultimately show ?thesis using o1(2) by (simp add: new_execution_def)
qed

lemma handleCancel_begin_stop:
  assumes ok: "alloc_ok a" and b: "handleCancel_begin W now mid sv e q a = (a1, CancelStop x p d)"
  shows "p \<in> {EXECUTION_PHASE_STARTING, EXECUTION_PHASE_RUNNING} \<and> x = ca_execution_id q
     \<and> (\<exists>r. map_of (al_executions a1) x = Some r \<and> er_client r = sender e)"
proof -
  obtain r where r: "map_of (al_executions a) (ca_execution_id q) = Some r"
    using b by (cases "map_of (al_executions a) (ca_execution_id q)") (auto simp: handleCancel_begin_def)
  note ex = core_exec[OF ok_core[OF ok] r]
  show ?thesis using b r ex phase_cases[of "er_phase r"]
    by (cases rule: persist_cases[of sv "a\<lparr>al_executions := map_put (ca_execution_id q) (mark_cancelling (ca_reason q) now r) (al_executions a)\<rparr>"])
      (auto simp: handleCancel_begin_def Let_def exec_ok_def mark_cancelling_def split: if_splits)
qed

definition moves :: "pblib \<Rightarrow> Allocator \<Rightarrow> thread \<Rightarrow> (Allocator \<times> thread) option \<Rightarrow> bool" where
  "moves W a t res \<longleftrightarrow> (\<exists>b t'. res = Some (b, t') \<and> advances W a t b t' \<and> section_step a b \<and> owned t' = owned t)"

lemma section_flights:
  "section_step a b \<Longrightarrow> owned t' = owned t \<Longrightarrow> flying b k \<Longrightarrow> owned t' = Some k \<or> owned t \<noteq> Some k \<and> flying a k"
  by (auto simp: section_step_def frame_def flying_def)

lemma moves_reply:
  "alloc_ok b \<Longrightarrow> section_step a b \<Longrightarrow> runs W a key e \<Longrightarrow> owned t = Some key \<Longrightarrow> moves W a t (Some (b, replying W wd key e b rep))"
  using section_flights[of a b "replying W wd key e b rep" t]
  by (simp add: moves_def advances_def replying_ok runs_section undisturbed_section)

lemma moves_to:
  "alloc_ok b \<Longrightarrow> section_step a b \<Longrightarrow> thread_ok W b t' \<Longrightarrow> owned t' = owned t \<Longrightarrow> moves W a t (Some (b, t'))"
  using section_flights[of a b t' t] by (simp add: moves_def advances_def undisturbed_section)

lemma handle_moves:
  assumes ok: "alloc_ok a" and th: "thread_ok W a (Begun key e)" and wd: "sane_world wd"
  shows "moves W a (Begun key e) (handle W wd key e a)"
proof -
  have run: "runs W a key e" and wf: "well_formed W e" using th by (auto simp: runs_def)
  have now: "wd_now wd \<noteq> zero_time" and utf: "valid_utf8 (wd_id1 wd)" using wd by (rule sane_worldD)+
  note reply = moves_reply[OF _ _ run, of _ "Begun key e" wd, simplified owned.simps, simplified]
  show ?thesis using wf
  proof (cases rule: well_formed_cases)
    case (request q)
    then show ?thesis using reply alloc_ok_handleRequest[OF ok] handleRequest_step well_formed_texts(1)[OF wf request] utf
      by (simp add: handle_def Let_def prod.case_eq_if)
  next
    case (assign q)
    have ok1: "alloc_ok (fst (handleAssign_begin W (wd_now wd) (wd_id1 wd) (wd_save wd) e q a))"
      using alloc_ok_handleAssign_begin[OF ok] well_formed_texts(2)[OF wf assign] now by simp
    obtain a1 st where b: "handleAssign_begin W (wd_now wd) (wd_id1 wd) (wd_save wd) e q a = (a1, st)" by force
    have step: "section_step a a1" using handleAssign_begin_step[OF ok, of W "wd_now wd" "wd_id1 wd" "wd_save wd" e q] b by simp
    show ?thesis
    proof (cases st)
      case (AssignReply rep)
      then show ?thesis using assign b ok1 step reply[of a1 rep] by (simp add: handle_def)
    next
      case (AssignStart req)
      then have "thread_ok W a1 (Starting key e q)"
        using handleAssign_begin_start[OF ok] b runs_section[OF run step] assign by simp
      then show ?thesis using assign b AssignStart moves_to[of a1 a W "Starting key e q" "Begun key e"] ok1 step
        by (simp add: handle_def)
    qed
  next
    case (cancel q)
    have ok1: "alloc_ok (fst (handleCancel_begin W (wd_now wd) (wd_id1 wd) (wd_save wd) e q a))"
      using alloc_ok_handleCancel_begin[OF ok now] .
    obtain a1 st where b: "handleCancel_begin W (wd_now wd) (wd_id1 wd) (wd_save wd) e q a = (a1, st)" by force
    have step: "section_step a a1" using handleCancel_begin_step[OF ok, of W "wd_now wd" "wd_id1 wd" "wd_save wd" e q] b by simp
    show ?thesis
    proof (cases st)
      case (CancelReply rep)
      then show ?thesis using cancel b ok1 step reply[of a1 rep] by (simp add: handle_def)
    next
      case (CancelStop x p d)
      then have "thread_ok W a1 (Stopping key e q p d)"
        using handleCancel_begin_stop[OF ok] b runs_section[OF run step] cancel by fastforce
      then show ?thesis using cancel b CancelStop moves_to[of a1 a W "Stopping key e q p d" "Begun key e"] ok1 step
        by (simp add: handle_def)
    qed
  next
    case (inspect q)
    then show ?thesis using reply[OF ok] by (simp add: handle_def)
  next
    case (release q)
    then show ?thesis using reply alloc_ok_handleOfferRelease[OF ok] handleOfferRelease_step
      by (simp add: handle_def Let_def prod.case_eq_if)
  next
    case (renew q)
    then show ?thesis using reply alloc_ok_handleLeaseRenew[OF ok] handleLeaseRenew_step
      by (simp add: handle_def Let_def prod.case_eq_if)
  next
    case (tunnel q)
    then show ?thesis using reply[OF ok] moves_to[OF ok, of a W "Binding key e q" "Begun key e"] run
      by (cases "handleTunnelOpen_check e q a") (simp_all add: handle_def)
  qed
qed

lemma Starting_moves:
  assumes ok: "alloc_ok a" and th: "thread_ok W a (Starting key e q)" and wd: "sane_world wd"
  shows "moves W a (Starting key e q) (advance W wd (Starting key e q) a)"
proof -
  obtain r where r: "map_of (al_executions a) (as_execution_id q) = Some r" and run: "runs W a key e" using th by auto
  then obtain a1 rep where f: "handleAssign_finish W (wd_now wd) (wd_now2 wd) (wd_id1 wd) (wd_save wd) e (as_execution_id q) (wd_answer wd) a
     = Some (a1, rep)" by (simp add: handleAssign_finish_def Let_def prod.case_eq_if)
  then show ?thesis using moves_reply[OF alloc_ok_handleAssign_finish[OF ok _ f] handleAssign_finish_step[OF ok f] run] sane_worldD(1)[OF wd]
    by simp
qed

lemma Stopping_moves:
  assumes ok: "alloc_ok a" and th: "thread_ok W a (Stopping key e q p d)" and wd: "sane_world wd"
  shows "moves W a (Stopping key e q p d) (advance W wd (Stopping key e q p d) a)"
proof -
  obtain r where r: "map_of (al_executions a) (ca_execution_id q) = Some r" and run: "runs W a key e"
    and p: "p \<in> {EXECUTION_PHASE_STARTING, EXECUTION_PHASE_RUNNING}" using th by auto
  then obtain a1 rep where f: "handleCancel_finish W (wd_now wd) (wd_now2 wd) (wd_id1 wd) (wd_save wd) e (ca_execution_id q) p d
      (ca_reason q) (wd_answer wd) a = Some (a1, rep)"
    by (cases "wd_answer wd") (simp_all add: handleCancel_finish_def Let_def prod.case_eq_if)
  have "\<not> Terminal p" "known_phase p" using p by (auto simp: Terminal_def)
  then show ?thesis using moves_reply[OF alloc_ok_handleCancel_finish[OF ok _ _ _ f] handleCancel_finish_step[OF ok p f] run] sane_worldD(1)[OF wd] f
    by simp
qed

lemma Binding_moves:
  assumes ok: "alloc_ok a" and th: "thread_ok W a (Binding key e q)"
  shows "moves W a (Binding key e q) (advance W wd (Binding key e q) a)"
  using moves_reply[OF alloc_ok_tunnel_sections(1)[OF ok] tunnel_sections_step(1)] th by (simp add: prod.case_eq_if)

lemma finish_replay_flight:
  assumes "cache_ok c" "in_flight c k e" "k \<noteq> key"
  shows "in_flight (finish_replay key rs er c) k e"
proof (cases "map_of (rc_entries c) key")
  case None
  then show ?thesis using assms in_flight_evict by (simp add: finish_replay_def)
next
  case (Some entry)
  let ?c = "c\<lparr>rc_entries := map_put key (entry\<lparr>re_responses := rs, re_err := er, re_done := True\<rparr>) (rc_entries c)\<rparr>"
  have "length (rc_entries ?c) = length (rc_entries c)" using Some by (simp add: length_put)
  moreover have "fst ` set (rc_entries ?c) = fst ` set (rc_entries c)"
    using Some by (simp add: dom_update) (metis insert_absorb map_of_SomeD fst_conv image_eqI)
  ultimately have "cache_ok ?c" using assms(1) by (simp add: cache_ok_def)
  moreover have "in_flight ?c k e" using assms(2,3) by (simp add: in_flight_def)
  ultimately show ?thesis using Some in_flight_evict by (simp add: finish_replay_def)
qed

lemma finish_replay_done:
  assumes "in_flight (finish_replay key rs er c) k e"
  shows "k \<noteq> key \<and> in_flight c k e"
proof (cases "map_of (rc_entries c) key")
  case None
  then have "in_flight c k e" using assms in_flight_evictD by (simp add: finish_replay_def)
  then show ?thesis using None by (auto simp: in_flight_def)
next
  case (Some entry)
  let ?c = "c\<lparr>rc_entries := map_put key (entry\<lparr>re_responses := rs, re_err := er, re_done := True\<rparr>) (rc_entries c)\<rparr>"
  have fl: "in_flight ?c k e" using assms Some in_flight_evictD by (simp add: finish_replay_def)
  then have "k \<noteq> key" by (auto simp: in_flight_def)
  then show ?thesis using in_flight_put[OF fl] by simp
qed

lemma answer_advances:
  assumes ok: "alloc_ok a" and th: "thread_ok W a (Replying key e rs er)" and r: "answer wd key e rs er a = (b, t')"
  shows "advances W a (Replying key e rs er) b t'" "owned t' = None"
proof -
  let ?c = "finish_replay key rs er (al_replay a)"
  let ?a = "a\<lparr>al_replay := ?c\<rparr>"
  have key: "key \<noteq> []" using th by (auto simp: runs_def)
  have b: "b = fst (persistLocked (wd_save wd) ?a)" using r
    by (auto simp: answer_def finishReplay_def prod.case_eq_if split: option.splits)
  show own: "owned t' = None" using r by (auto simp: answer_def prod.case_eq_if split: option.splits)
  have tok: "thread_ok W b t'" using r by (auto simp: answer_def prod.case_eq_if split: option.splits)
  have "unsaved ?a ?a" by simp
  from section_step_persist[OF this, of "wd_save wd"] have st: "section_step ?a b" using b by simp
  have caps: "rc_ttl ?c = rc_ttl (al_replay a)" "rc_capacity ?c = rc_capacity (al_replay a)"
    by (simp_all add: finish_replay_def split: option.splits)
  have "undisturbed (Some key) a b" using st caps finish_replay_flight[OF ok_cache[OF ok]]
    by (auto simp: undisturbed_def section_step_def frame_def exec_evolves_def config_same_def)
  moreover have "alloc_ok b" using alloc_ok_finishReplay[OF ok key, of rs er "wd_save wd"] b by (simp add: finishReplay_def)
  moreover have "k \<noteq> key \<and> flying a k" if "flying b k" for k
    using that b finish_replay_done[of key rs er "al_replay a" k] by (auto simp: flying_def)
  ultimately show "advances W a (Replying key e rs er) b t'" using tok own by (auto simp: advances_def)
qed

text \<open>No section of a command panics, and each keeps the invariant and the other commands.\<close>

lemma advance_total:
  assumes ok: "alloc_ok a" and th: "thread_ok W a t" and wd: "sane_world wd"
  shows "\<exists>b t'. advance W wd t a = Some (b, t') \<and> advances W a t b t'"
proof -
  have moves: "\<exists>b t'. res = Some (b, t') \<and> advances W a t b t'" if "moves W a t res" for res
    using that by (auto simp: moves_def)
  show ?thesis
  proof (cases t)
    case (Received e)
    then show ?thesis using receive_advances[OF ok th[unfolded Received]] by (cases "receive W wd e a") auto
  next
    case (ReadingLogs e q)
    then show ?thesis using ok by (simp add: prod.case_eq_if advances_def)
  next
    case (Fresh e)
    then show ?thesis using enter_advances[OF ok th[unfolded Fresh]] by (cases "enter W wd e a") auto
  next
    case (Begun key e)
    then show ?thesis using moves handle_moves[OF ok _ wd] th by auto
  next
    case (Starting key e q)
    then show ?thesis using moves Starting_moves[OF ok _ wd] th by blast
  next
    case (Stopping key e q p d)
    then show ?thesis using moves Stopping_moves[OF ok _ wd] th by blast
  next
    case (Binding key e q)
    then show ?thesis using moves Binding_moves[OF ok] th by blast
  next
    case (Replying key e rs er)
    then show ?thesis using answer_advances(1)[OF ok th[unfolded Replying]] by (cases "answer wd key e rs er a") auto
  qed (use ok th in \<open>auto simp: advances_def split: option.splits\<close>)
qed

section \<open>Progress\<close>

text \<open>The number of sections a machine has still to run at most.\<close>

fun rank :: "thread \<Rightarrow> nat" where
  "rank (Received e) = 5"
| "rank (ReadingLogs e q) = 1"
| "rank (Fresh e) = 4"
| "rank (Waiting key e) = 2"
| "rank (Woken e rs er) = 1"
| "rank (Begun key e) = 3"
| "rank (Starting key e q) = 2"
| "rank (Stopping key e q p d) = 2"
| "rank (Binding key e q) = 2"
| "rank (Replying key e rs er) = 1"
| "rank (Answered e rs er) = 0"

fun waits :: "thread \<Rightarrow> bool" where
  "waits (Waiting key e) = True"
| "waits _ = False"

lemma rank_replying [simp]: "rank (replying W wd key e a rep) = 1"
  by (cases rep) (simp add: replying_def)

lemma rank_zero: "rank t = 0 \<longleftrightarrow> (\<exists>e rs er. t = Answered e rs er)"
  by (cases t) auto

lemma handle_rank: "handle W wd key e a = Some (b, t') \<Longrightarrow> rank t' < 3"
  by (auto simp: handle_def Let_def prod.case_eq_if split: option.splits Envelope_Payload.splits prod.splits assign_step.splits cancel_step.splits)

lemma advance_rank:
  assumes "advance W wd t a = Some (b, t')"
  shows "rank t' < rank t \<or> t' = t \<and> (rank t = 0 \<or> waits t)"
proof (cases t)
  case (Received e)
  then show ?thesis using assms
    by (auto simp: receive_def split: prod.splits option.splits Envelope_Payload.splits if_splits)
next
  case (Fresh e)
  then show ?thesis using assms by (auto simp: enter_def split: prod.splits option.splits bool.splits if_splits)
next
  case (Begun key e)
  then show ?thesis using assms handle_rank[of W wd key e a b t'] by simp
next
  case (Replying key e rs er)
  then show ?thesis using assms by (auto simp: answer_def split: prod.splits option.splits)
qed (use assms in \<open>auto split: prod.splits option.splits\<close>)

end
