(* ===== verification/Alloc_Workers.thy ===== *)
theory Alloc_Workers
  imports Alloc_Dispatch
begin

text \<open>
  The background worker of the daemon (\<open>serve\<close> of \<open>cmd/r1sd/daemon.go\<close>): recovery once, then one sweep
  after another until the context ends, each a lease eviction, a collection and the cleanup of what it collected.  Like a command it is a
  machine that stands between two sections under the allocator's lock; \<open>work\<close> runs one section.  The lemmas show
  that no section panics, that the invariant holds after it, and that no record a command works on is collected.
\<close>

section \<open>The machine\<close>

datatype worker =
    RecoverNext "string list"
  | RecoverStopping string ExecutionPhase string "string list"
  | RecoverTasking string "string list"
  | Evicting
  | EvictStopping string ExecutionPhase string
  | Collecting
  | Cleaning "tombstone list"
  | Resting
  | Halted go_error

definition active_ids :: "Allocator \<Rightarrow> string list" where
  "active_ids a = sort (map fst (filter (\<lambda>(x, r). \<not> Terminal (er_phase r)) (al_executions a)))"

text \<open>The first section of \<open>Recover\<close>; \<open>recoverable\<close> says whether the runtime implements \<open>Recoverer\<close>.\<close>

definition recover_start :: "bool \<Rightarrow> Allocator \<Rightarrow> worker" where
  "recover_start recoverable a = (if \<not> recoverable
     then (if list_ex (\<lambda>(x, r). \<not> Terminal (er_phase r)) (al_executions a) then Halted (err ErrRecoveryUnsupported) else Evicting)
     else RecoverNext (active_ids a))"

fun work :: "pblib \<Rightarrow> world \<Rightarrow> worker \<Rightarrow> Allocator \<Rightarrow> (Allocator \<times> worker) option" where
  "work W wd (RecoverNext []) a = Some (a, case wd_answer wd of Some e \<Rightarrow> Halted e | None \<Rightarrow> Evicting)"
| "work W wd (RecoverNext (x # ids)) a = Some (a, case wd_answer wd of
     Some ctxErr \<Rightarrow> Halted ctxErr
   | None \<Rightarrow> (case recover_begin (wd_now wd) x a of
        RecoverSkip \<Rightarrow> RecoverNext ids
      | RecoverStop phase reason \<Rightarrow> RecoverStopping x phase reason ids
      | RecoverTask req \<Rightarrow> RecoverTasking x ids))"
| "work W wd (RecoverStopping x phase reason ids) a = (case
     recover_stopped (wd_now wd) (wd_save wd) x phase reason (wd_answer wd) a of
       (a1, None) \<Rightarrow> Some (a1, RecoverNext ids) | (a1, Some e) \<Rightarrow> Some (a1, Halted e))"
| "work W wd (RecoverTasking x ids) a = (case recover_finish (wd_now wd) (wd_save wd) x (wd_answer wd) a of
       (a1, None) \<Rightarrow> Some (a1, RecoverNext ids) | (a1, Some e) \<Rightarrow> Some (a1, Halted e))"
| "work W wd Evicting a = (case evict_round (wd_now wd) (wd_answer wd) (wd_save wd) a of
       None \<Rightarrow> None
     | Some (a1, EvictIdle) \<Rightarrow> Some (a1, Collecting)
     | Some (a1, EvictAbort e) \<Rightarrow> Some (a1, Collecting)
     | Some (a1, EvictStop x phase detail) \<Rightarrow> Some (a1, EvictStopping x phase detail))"
| "work W wd (EvictStopping x phase detail) a = (case
     completeEviction (wd_now wd) (wd_save wd) x phase detail (wd_answer wd) a of
       (a1, None) \<Rightarrow> Some (a1, Evicting) | (a1, Some e) \<Rightarrow> Some (a1, Collecting))"
| "work W wd Collecting a = (case sweep_collect W (wd_now wd) (wd_save wd) a of
       (a1, Inl e) \<Rightarrow> Some (a1, Resting) | (a1, Inr pending) \<Rightarrow> Some (a1, Cleaning pending))"
| "work W wd (Cleaning []) a = Some (a, Resting)"
| "work W wd (Cleaning (dead # pending)) a = (case sweep_clean (wd_answer wd) (wd_save wd) dead a of
       (a1, e) \<Rightarrow> Some (a1, Cleaning pending))"
| "work W wd Resting a = Some (a, case wd_answer wd of Some ctxErr \<Rightarrow> Halted ctxErr | None \<Rightarrow> Evicting)"
| "work W wd (Halted e) a = Some (a, Halted e)"

section \<open>What the sweep keeps\<close>

lemma busy_assign:
  "in_flight (al_replay a) k e \<Longrightarrow> payload e = Some (Envelope_ExecutionAssign (Some q)) \<Longrightarrow>
     authorityKey (sender e) (as_request_id q) \<in> set (busy_keys a)"
  by (auto simp: in_flight_def busy_keys_def replayDone_def dest!: map_of_SomeD intro!: rev_bexI)

lemma busy_cancel:
  "in_flight (al_replay a) k e \<Longrightarrow> payload e = Some (Envelope_ExecutionCancel (Some q)) \<Longrightarrow>
   map_of (al_executions a) (ca_execution_id q) = Some r \<Longrightarrow>
     authorityKey (er_client r) (rq_request_id (er_request r)) \<in> set (busy_keys a)"
  by (auto simp: in_flight_def busy_keys_def replayDone_def dest!: map_of_SomeD[of "rc_entries (al_replay a)"] intro!: rev_bexI)

text \<open>The loop drops an execution only when it is terminal and its retention has elapsed.\<close>

lemma collect_loop_execs:
  assumes "alloc_ok a" "distinct (map fst m)" "\<forall>(i, o1)\<in>set m. map_of (al_offers a) i = Some o1"
    "map_of (al_executions a) x = Some r"
  shows "map_of (al_executions (collect_loop now busy m a)) x = Some r
     \<or> map_of (al_executions (collect_loop now busy m a)) x = None \<and> Terminal (er_phase r) \<and> er_retainUntil r \<le> now"
  using assms
proof (induction now busy m a rule: collect_loop.induct)
  case (2 now busy i o1 m a)
  have tail: "\<forall>(j, o2)\<in>set m. map_of (al_offers (collect_offer now i o1 a)) j = Some o2"
    using "2.prems" by (intro entries_tail) auto
  have oi: "map_of (al_offers a) i = Some o1" using "2.prems" by simp
  show ?case
  proof (cases "offer_key o1 \<in> set busy \<or> \<not> collectable now o1 a")
    case True
    then show ?thesis using 2 by (auto simp: offer_key_def)
  next
    case False
    have ok': "alloc_ok (collect_offer now i o1 a)" using alloc_ok_collect_offer[OF 2(4) oi] False by simp
    have loop: "collect_loop now busy ((i, o1) # m) a = collect_loop now busy m (collect_offer now i o1 a)"
      using False by (simp add: offer_key_def)
    show ?thesis
    proof (cases "x = or_execution o1")
      case True
      have "x \<noteq> []" using core_exec[OF ok_core[OF 2(4)] 2(7)] by (simp add: exec_ok_def)
      then have st: "or_status o1 = offerAssigned" using core_offer[OF ok_core[OF 2(4)] oi] True by (auto simp: offer_ok_def)
      then have "Terminal (er_phase r) \<and> er_retainUntil r \<le> now" using False True 2(7) by (auto simp: collectable_def)
      moreover have "map_of (al_executions (collect_loop now busy m b)) x = None" if "map_of (al_executions b) x = None" for b
        using that by (induction now busy m b rule: collect_loop.induct) (auto simp: collect_offer_def)
      ultimately show ?thesis using loop True by (simp add: collect_offer_def)
    next
      case other: False
      then have "map_of (al_executions (collect_offer now i o1 a)) x = Some r" using 2(7) by (simp add: collect_offer_def)
      then show ?thesis using 2(3)[OF _ _ ok' _ tail] False 2(5) loop by (simp add: offer_key_def)
    qed
  qed
qed simp

lemma sweep_start_frame [simp]:
  "al_executions (sweep_start W t a) = al_executions a" "al_highWater (sweep_start W t a) = max t (al_highWater a)"
  by (simp_all add: sweep_start_def Let_def)

lemma sweep_start_flight:
  assumes "alloc_ok a" "in_flight (al_replay a) k e"
  shows "in_flight (al_replay (sweep_start W t a)) k e"
  using in_flight_prune[OF ok_cache[OF assms(1)] assms(2)] by (simp add: sweep_start_def Let_def)

lemma sweep_pass_flight:
  assumes "alloc_ok a" "in_flight (al_replay a) k e"
  shows "in_flight (al_replay (sweep_pass W t a)) k e"
proof -
  have "in_flight (al_replay (sweep_start W t a)) k e" using assms by (rule sweep_start_flight)
  moreover have "wf_map (rc_entries (al_replay (sweep_start W t a)))"
    using ok_cache[OF alloc_ok_sweep_start[OF assms(1)]] by (simp add: cache_ok_def)
  ultimately show ?thesis
    by (auto simp: sweep_pass_eq Let_def sweep_replies_def sweep_tombstones_def in_flight_def map_of_filter_key replayDone_def)
qed

lemma sweep_pass_flying:
  assumes "alloc_ok a" "flying (sweep_pass W t a) k"
  shows "flying a k"
proof -
  have wf: "wf_map (rc_entries (al_replay (sweep_start W t a)))"
    using ok_cache[OF alloc_ok_sweep_start[OF assms(1)]] by (simp add: cache_ok_def)
  obtain e where "in_flight (al_replay (sweep_pass W t a)) k e" using assms(2) by (auto simp: flying_def)
  then have "in_flight (al_replay (sweep_start W t a)) k e"
    unfolding in_flight_def sweep_pass_eq Let_def sweep_replies_def sweep_tombstones_def
    by (auto simp: map_of_filter_key[OF wf] split: option.splits if_splits)
  then have "in_flight (prune (max t (al_highWater a)) (al_replay a)) k e" by (simp add: sweep_start_def Let_def)
  from in_flight_pruneD[OF ok_cache[OF assms(1)] this] show ?thesis by (auto simp: flying_def)
qed

lemma sweep_pass_executions:
  "al_executions (sweep_pass W t a) = al_executions (collect_loop (max t (al_highWater a)) (busy_keys (sweep_start W t a))
     (al_offers (sweep_start W t a)) (sweep_start W t a))"
  by (simp add: sweep_pass_eq Let_def sweep_replies_def sweep_tombstones_def)

lemma sweep_pass_highWater: "al_highWater (sweep_pass W t a) = max t (al_highWater a)"
proof -
  have "al_highWater (collect_loop now busy m b) = al_highWater b" for now busy m b
    by (induction now busy m b rule: collect_loop.induct) (simp_all add: collect_offer_def)
  then show ?thesis by (simp add: sweep_pass_eq Let_def sweep_replies_def sweep_tombstones_def)
qed

lemma sweep_pass_execs:
  assumes ok: "alloc_ok a" and r: "map_of (al_executions a) x = Some r"
  shows "map_of (al_executions (sweep_pass W t a)) x = Some r
     \<or> map_of (al_executions (sweep_pass W t a)) x = None \<and> Terminal (er_phase r) \<and> er_retainUntil r \<le> max t (al_highWater a)"
proof -
  let ?a = "sweep_start W t a"
  have ok1: "alloc_ok ?a" using ok by (rule alloc_ok_sweep_start)
  have wf: "distinct (map fst (al_offers ?a))" "\<forall>(i, v)\<in>set (al_offers ?a). map_of (al_offers ?a) i = Some v"
    using wf_entries[OF core_wf(1)[OF ok_core[OF ok1]]] by blast+
  show ?thesis unfolding sweep_pass_executions using collect_loop_execs[OF ok1 wf] r by simp
qed

text \<open>An execution whose request a command in flight works on survives.\<close>

lemma sweep_pass_busy:
  assumes ok: "alloc_ok a" and r: "map_of (al_executions a) x = Some r"
    and busy: "authorityKey (er_client r) (rq_request_id (er_request r)) \<in> set (busy_keys (sweep_start W t a))"
  shows "map_of (al_executions (sweep_pass W t a)) x = Some r"
proof -
  let ?a = "sweep_start W t a"
  have ok1: "alloc_ok ?a" using ok by (rule alloc_ok_sweep_start)
  have wf: "distinct (map fst (al_offers ?a))" "\<forall>(i, v)\<in>set (al_offers ?a). map_of (al_offers ?a) i = Some v"
    using wf_entries[OF core_wf(1)[OF ok_core[OF ok1]]] by blast+
  obtain o1 where o1: "map_of (al_offers ?a) (er_offerID r) = Some o1" "matched (er_offerID r) o1 x r"
    using core_matched[OF ok_core[OF ok1]] r by fastforce
  have "offer_key o1 = authorityKey (er_client r) (rq_request_id (er_request r))"
    using o1(2) core_offer[OF ok_core[OF ok1] o1(1)] by (simp add: offer_key_def matched_def offer_ok_def)
  with busy have b: "offer_key o1 \<in> set (busy_keys ?a)" by simp
  from collect_loop_keeps[OF ok1 wf o1(1) _ b] o1(2) r show ?thesis
    by (simp add: matched_def sweep_pass_executions)
qed

lemma thread_ok_sweep_pass:
  assumes ok: "alloc_ok a" and th: "thread_ok W a t"
  shows "thread_ok W (sweep_pass W tm a) t"
proof -
  have run: "runs W (sweep_pass W tm a) k e" if "runs W a k e" for k e
    using that sweep_pass_flight[OF ok] by (auto simp: runs_def)
  have fly: "flying (sweep_pass W tm a) k" if "flying a k" for k
    using that sweep_pass_flight[OF ok] unfolding flying_def by blast
  show ?thesis
  proof (cases t)
    case (Starting key e q)
    with th obtain r where r: "map_of (al_executions a) (as_execution_id q) = Some r" "er_client r = sender e"
      "rq_request_id (er_request r) = as_request_id q" "runs W a key e" "payload e = Some (Envelope_ExecutionAssign (Some q))" by auto
    then have "in_flight (al_replay (sweep_start W tm a)) key e" using sweep_start_flight[OF ok] by (auto simp: runs_def)
    from busy_assign[OF this r(5)] sweep_pass_busy[OF ok r(1)] r Starting run show ?thesis by simp
  next
    case (Stopping key e q p d)
    with th obtain r where r: "map_of (al_executions a) (ca_execution_id q) = Some r" "runs W a key e" "er_client r = sender e"
      "payload e = Some (Envelope_ExecutionCancel (Some q))" by auto
    then have "in_flight (al_replay (sweep_start W tm a)) key e" using sweep_start_flight[OF ok] by (auto simp: runs_def)
    from busy_cancel[OF this r(4)] sweep_pass_busy[OF ok r(1)] r th Stopping run show ?thesis by simp
  qed (use th run fly in auto)
qed

section \<open>Each section\<close>

text \<open>What every section of the worker guarantees: executions evolve, or are dropped when their time has come.\<close>

definition evolution :: "Allocator \<Rightarrow> Allocator \<Rightarrow> bool" where
  "evolution a b \<longleftrightarrow> config_same a b \<and> al_highWater a \<le> al_highWater b
     \<and> (al_store b = al_store a \<or> al_store b = Some (Some (persisted_snapshot b)))
     \<and> (\<forall>x r. map_of (al_executions a) x = Some r \<longrightarrow>
          (\<exists>r'. map_of (al_executions b) x = Some r' \<and> evolves r r')
          \<or> map_of (al_executions b) x = None \<and> Terminal (er_phase r) \<and> er_retainUntil r \<le> al_highWater b)"

lemma evolution_undisturbed: "undisturbed own a b \<Longrightarrow> evolution a b"
  by (simp add: undisturbed_def evolution_def exec_evolves_def)

fun worker_ok :: "Allocator \<Rightarrow> worker \<Rightarrow> bool" where
  "worker_ok a (RecoverStopping x p d ids) \<longleftrightarrow> Terminal p \<and> known_phase p"
| "worker_ok a (EvictStopping x p d) \<longleftrightarrow> p \<in> {EXECUTION_PHASE_STARTING, EXECUTION_PHASE_RUNNING}"
| "worker_ok a (Cleaning ds) \<longleftrightarrow> distinct (map td_OfferID ds)
     \<and> (\<forall>d\<in>set ds. map_of (al_tombstones a) (td_OfferID d) = Some d)"
| "worker_ok a _ \<longleftrightarrow> True"

lemma worker_ok_tombstones: "al_tombstones b = al_tombstones a \<Longrightarrow> worker_ok b w = worker_ok a w"
  by (cases w) simp_all

definition works :: "pblib \<Rightarrow> Allocator \<Rightarrow> (Allocator \<times> worker) option \<Rightarrow> bool" where
  "works W a res \<longleftrightarrow> (\<exists>b w. res = Some (b, w) \<and> alloc_ok b \<and> worker_ok b w \<and> evolution a b
     \<and> (\<forall>t. thread_ok W a t \<longrightarrow> thread_ok W b t) \<and> (\<forall>k. flying b k \<longrightarrow> flying a k))"

lemma thread_ok_section: "section_step a b \<Longrightarrow> thread_ok W a t \<Longrightarrow> thread_ok W b t"
  using thread_ok_undisturbed[OF undisturbed_section[of a b None], of W t] by (cases "needs t") auto

lemma section_flying: "section_step a b \<Longrightarrow> flying b k = flying a k"
  by (simp add: section_step_def frame_def flying_def)

lemma works_section:
  "alloc_ok b \<Longrightarrow> section_step a b \<Longrightarrow> worker_ok b w \<Longrightarrow> works W a (Some (b, w))"
  using evolution_undisturbed[OF undisturbed_section[of a b None]] thread_ok_section section_flying by (auto simp: works_def)

lemma recover_begin_phase:
  assumes "recover_begin now x a = RecoverStop p d"
  shows "Terminal p \<and> known_phase p"
  using assms by (auto simp: recover_begin_def Let_def Terminal_def split: option.splits if_splits)

lemma works_recover:
  assumes ok: "alloc_ok a" and w: "worker_ok a w" and wd: "sane_world wd"
    and rec: "w = RecoverNext ids \<or> w = RecoverStopping x p d ids \<or> w = RecoverTasking x ids"
  shows "works W a (work W wd w a)"
proof -
  note t = sane_worldD(1)[OF wd]
  consider (finished) "w = RecoverNext []" | (more) y ys where "w = RecoverNext (y # ys)" | (stop) "w = RecoverStopping x p d ids"
    | (task) "w = RecoverTasking x ids" using rec by (cases ids) auto
  then show ?thesis
  proof cases
    case finished
    then show ?thesis using works_section[OF ok section_step_refl] by (simp split: option.split)
  next
    case (more y ys)
    then show ?thesis using works_section[OF ok section_step_refl] recover_begin_phase[of "wd_now wd" y a]
      by (auto split: option.splits recover_step.splits)
  next
    case stop
    then have p: "Terminal p" "known_phase p" using w by auto
    then show ?thesis using stop works_section[OF alloc_ok_recover_stopped[OF ok t p] recover_stopped_step[OF p(1)], where W = W]
      by (auto simp: prod.case_eq_if split: option.splits)
  next
    case task
    then show ?thesis using works_section[OF alloc_ok_recover_finish[OF ok t] recover_finish_step[OF ok], where W = W]
      by (auto simp: prod.case_eq_if split: option.splits)
  qed
qed

lemma works_evict:
  assumes ok: "alloc_ok a" and wd: "sane_world wd"
  shows "works W a (work W wd Evicting a)"
proof -
  obtain b st where r: "evict_round (wd_now wd) (wd_answer wd) (wd_save wd) a = Some (b, st)"
    using evict_round_total[OF ok] by fastforce
  note ev = evict_round_cases[OF ok sane_worldD(2)[OF wd] r]
  show ?thesis
  proof (cases st)
    case (EvictStop x p d)
    then obtain rc where rc: "map_of (al_executions a) x = Some rc" "er_phase rc = p" "lease_expired (max (wd_now wd) (al_highWater a)) rc"
      using ev(2) by blast
    then have "p \<in> {EXECUTION_PHASE_STARTING, EXECUTION_PHASE_RUNNING}"
      using lease_expired_live[OF rc(3)] phase_cases[of p] core_exec[OF ok_core[OF ok] rc(1)] by (auto simp: exec_ok_def)
    then show ?thesis using EvictStop r works_section[OF ev(1) evict_round_step[OF ok r]] by simp
  qed (use r works_section[OF ev(1) evict_round_step[OF ok r]] in simp_all)
qed

lemma works_stop:
  assumes ok: "alloc_ok a" and w: "worker_ok a (EvictStopping x p d)" and wd: "sane_world wd"
  shows "works W a (work W wd (EvictStopping x p d) a)"
proof -
  have p: "p \<in> {EXECUTION_PHASE_STARTING, EXECUTION_PHASE_RUNNING}" using w by simp
  then have "\<not> Terminal p" "known_phase p" by (auto simp: Terminal_def)
  from works_section[OF alloc_ok_completeEviction[OF ok sane_worldD(1)[OF wd] this] completeEviction_step[OF ok p], where W = W]
  show ?thesis by (auto simp: prod.case_eq_if split: option.splits)
qed

lemma pending_ok:
  assumes "dead_ok ds"
  shows "distinct (map td_OfferID (map snd (filter P ds)))" "d \<in> set (map snd (filter P ds)) \<Longrightarrow> map_of ds (td_OfferID d) = Some d"
proof -
  have id: "td_OfferID d = i" if "(i, d) \<in> set ds" for i d using assms that map_of_in[of ds] by (auto simp: dead_ok_def)
  then have "map td_OfferID (map snd (filter P ds)) = map fst (filter P ds)" by (induction ds) auto
  moreover have "wf_map (filter P ds)" using assms by (auto simp: dead_ok_def)
  ultimately show "distinct (map td_OfferID (map snd (filter P ds)))" unfolding wf_map_def by (simp only:)
  show "map_of ds (td_OfferID d) = Some d" if "d \<in> set (map snd (filter P ds))"
    using that id assms map_of_in[of ds] by (auto simp: dead_ok_def)
qed

lemma works_collect:
  assumes ok: "alloc_ok a"
  shows "works W a (work W wd Collecting a)"
proof -
  obtain b res where c: "sweep_collect W (wd_now wd) (wd_save wd) a = (b, res)" by force
  show ?thesis
  proof (cases res)
    case (Inl e)
    then have "b = a" using sweep_collect_fails c by simp
    then show ?thesis using Inl c works_section[OF ok section_step_refl] by simp
  next
    case (Inr ds)
    let ?s = "sweep_pass W (wd_now wd) a"
    have b: "b = fst (persistLocked (wd_save wd) ?s)" using sweep_collect_saves c Inr by simp
    have "ds = map snd (filter (\<lambda>(i, dead). td_CleanupPending dead) (al_tombstones b))"
      using c Inr by (auto simp: sweep_collect_def split: prod.splits option.splits)
    moreover have okb: "alloc_ok b" using b alloc_ok_sweep_pass[OF ok] by simp
    ultimately have wk: "worker_ok b (Cleaning ds)" using pending_ok[OF ok_dead[OF okb]] by simp
    have "unsaved ?s ?s" by simp
    from section_step_persist[OF this, of "wd_save wd"] have st: "section_step ?s b" using b by simp
    have cfg: "config_same a ?s" using same_config_sweep_pass[of a W "wd_now wd"]
      by (simp add: same_config_def config_same_def sweep_pass_eq Let_def sweep_replies_def sweep_tombstones_def sweep_start_def)
    have ev: "evolution a b"
      using st cfg sweep_pass_execs[OF ok, of _ _ W "wd_now wd"] sweep_pass_highWater[of W "wd_now wd" a] same_config_sweep_pass[of a W "wd_now wd"] b
      by (fastforce simp: evolution_def section_step_def frame_def config_same_def same_config_def)
    have "thread_ok W b t" if "thread_ok W a t" for t
      using thread_ok_section[OF st thread_ok_sweep_pass[OF ok that]] .
    moreover have "flying a k" if "flying b k" for k
      using that section_flying[OF st] sweep_pass_flying[OF ok] by blast
    ultimately show ?thesis using Inr c okb wk ev by (simp add: works_def)
  qed
qed

lemma sweep_clean_cases:
  assumes d: "map_of (al_tombstones a) (td_OfferID dead) = Some dead"
  shows "fst (sweep_clean cleanErr sv dead a) = a
    \<or> fst (sweep_clean cleanErr sv dead a) = fst (persistLocked sv
         (a\<lparr>al_tombstones := map_put (td_OfferID dead) (dead\<lparr>td_CleanupPending := False\<rparr>) (al_tombstones a)\<rparr>))"
proof (cases cleanErr)
  case None
  let ?a = "a\<lparr>al_tombstones := map_put (td_OfferID dead) (dead\<lparr>td_CleanupPending := False\<rparr>) (al_tombstones a)\<rparr>"
  show ?thesis using None d
    by (cases rule: persist_cases[of sv ?a]) (simp_all add: sweep_clean_def)
qed (simp add: sweep_clean_def)

lemma works_clean:
  assumes ok: "alloc_ok a" and w: "worker_ok a (Cleaning (d # ds))"
  shows "works W a (work W wd (Cleaning (d # ds)) a)"
proof -
  define b where "b = fst (sweep_clean (wd_answer wd) (wd_save wd) d a)"
  define a1 where "a1 = a\<lparr>al_tombstones := map_put (td_OfferID d) (d\<lparr>td_CleanupPending := False\<rparr>) (al_tombstones a)\<rparr>"
  have d: "map_of (al_tombstones a) (td_OfferID d) = Some d" using w by simp
  have okb: "alloc_ok b" using alloc_ok_sweep_clean[OF ok d] by (simp add: b_def)
  have res: "work W wd (Cleaning (d # ds)) a = Some (b, Cleaning ds)" by (simp add: b_def prod.case_eq_if)
  consider (same) "b = a" | (cleaned) "b = fst (persistLocked (wd_save wd) a1)"
    using sweep_clean_cases[OF d] unfolding b_def a1_def by blast
  then show ?thesis
  proof cases
    case same
    then show ?thesis using works_section[OF ok section_step_refl] w res by simp
  next
    case cleaned
    have st: "section_step a1 b" unfolding cleaned by (rule section_step_persist) simp
    have tb: "al_tombstones b = map_put (td_OfferID d) (d\<lparr>td_CleanupPending := False\<rparr>) (al_tombstones a)"
      unfolding cleaned by (simp add: a1_def)
    have ds: "td_OfferID d \<notin> td_OfferID ` set ds" "distinct (map td_OfferID ds)"
        "\<forall>d'\<in>set ds. map_of (al_tombstones a) (td_OfferID d') = Some d'" using w by simp_all
    have "map_of (al_tombstones b) (td_OfferID d') = Some d'" if "d' \<in> set ds" for d'
      unfolding tb map_of_put using ds(1) bspec[OF ds(3) that] that by (metis image_eqI)
    then have "worker_ok b (Cleaning ds)" using ds(2) by simp
    moreover have "evolution a b" using st
      by (simp add: evolution_def section_step_def frame_def config_same_def exec_evolves_def a1_def)
    moreover have "thread_ok W b t" if "thread_ok W a t" for t
    proof (rule thread_ok_section[OF st])
      show "thread_ok W a1 t" using that by (cases t) (simp_all add: runs_def flying_def a1_def)
    qed
    moreover have "flying a k" if "flying b k" for k using that section_flying[OF st] by (simp add: flying_def a1_def)
    ultimately show ?thesis using okb res by (simp add: works_def)
  qed
qed

text \<open>No section of the worker panics, and each keeps the invariant and the commands in flight.\<close>

lemma work_total:
  assumes ok: "alloc_ok a" and w: "worker_ok a w" and wd: "sane_world wd"
  shows "works W a (work W wd w a)"
proof (cases w)
  case (RecoverNext ids)
  then show ?thesis using works_recover[OF ok w wd] by blast
next
  case (RecoverStopping x p d ids)
  then show ?thesis using works_recover[OF ok w wd] by blast
next
  case (RecoverTasking x ids)
  then show ?thesis using works_recover[OF ok w wd] by blast
next
  case (EvictStopping x p d)
  then show ?thesis using works_stop[OF ok _ wd] w by blast
next
  case (Cleaning ds)
  then show ?thesis using works_clean[OF ok] works_section[OF ok section_step_refl] w by (cases ds) auto
qed (use works_evict[OF ok wd] works_collect[OF ok] works_section[OF ok section_step_refl] in \<open>simp_all split: option.split\<close>)

end
