(* ===== verification/Alloc_Load.thy ===== *)
theory Alloc_Load
  imports Alloc_Sweep
begin

text \<open>
  Construction and restart: \<open>New\<close> of \<open>allocator.go\<close> and \<open>loadLocked\<close> of \<open>state.go\<close>.  The store holds what
  was given to \<open>json.Marshal\<close>; what \<open>json.Unmarshal\<close> makes of it is \<open>json_state\<close>, which coerces every
  string to valid UTF-8.  The lemmas show what a restart restores.
\<close>

section \<open>Decoding the durable state\<close>

definition json_offer :: "persistedOffer \<Rightarrow> persistedOffer" where
  "json_offer p = p\<lparr>po_Execution := json_string (po_Execution p)\<rparr>"

definition json_execution :: "persistedExecution \<Rightarrow> persistedExecution" where
  "json_execution p = p\<lparr>pe_ID := json_string (pe_ID p), pe_OfferID := json_string (pe_OfferID p),
     pe_ResourceClass := json_string (pe_ResourceClass p), pe_Detail := json_string (pe_Detail p)\<rparr>"

definition json_replay :: "persistedReplay \<Rightarrow> persistedReplay" where
  "json_replay p = p\<lparr>pr_Key := json_string (pr_Key p), pr_Error := json_string (pr_Error p),
     pr_ErrorCode := json_string (pr_ErrorCode p)\<rparr>"

definition json_tombstone :: "tombstone \<Rightarrow> tombstone" where
  "json_tombstone d = d\<lparr>td_RequestID := json_string (td_RequestID d), td_OfferID := json_string (td_OfferID d),
     td_ExecutionID := json_string (td_ExecutionID d)\<rparr>"

text \<open>The object of a Go map; keys that coincide after the coercion overwrite each other.\<close>

definition json_keys :: "(string, 'v) gomap \<Rightarrow> (string, 'v) gomap" where
  "json_keys m = foldl (\<lambda>m (k, v). map_put (json_string k) v m) [] m"

definition json_state :: "persistedState \<Rightarrow> persistedState" where
  "json_state s = s\<lparr>
     ps_Tombstones := json_keys (map (\<lambda>(k, d). (k, json_tombstone d)) (ps_Tombstones s)),
     ps_Offers := map json_offer (ps_Offers s), ps_Executions := map json_execution (ps_Executions s),
     ps_Replay := map json_replay (ps_Replay s)\<rparr>"

text \<open>The outcome of \<open>Load\<close> and of decoding what it returns.\<close>

datatype stored = LoadError go_error | NoData | Undecodable | Stored persistedState

section \<open>Loading\<close>

definition firstBytes :: "bytes \<Rightarrow> bytes \<Rightarrow> bytes" where
  "firstBytes primary fallback = (if length primary \<noteq> 0 then primary else fallback)"

fun num_status :: "nat \<Rightarrow> offerStatus option" where
  "num_status n = (if n = 1 then Some offerOutstanding else if n = 2 then Some offerAssigned
     else if n = 3 then Some offerExpired else if n = 4 then Some offerReleased else None)"

type_synonym offer_maps = "(string, offerRecord) gomap \<times> (string, string) gomap"

fun load_offers :: "persistedOffer list \<Rightarrow> offer_maps \<Rightarrow> go_error + offer_maps" where
  "load_offers [] m = Inr m"
| "load_offers (saved # rest) (offs, reqs) = (case (po_Offer saved, po_Request saved) of
     (None, _) \<Rightarrow> Inl (wrap ErrStore ''decode offer'')
   | (Some _, None) \<Rightarrow> Inl (wrap ErrStore ''decode offer request'')
   | (Some offer, Some request) \<Rightarrow>
       if of_offer_id offer = [] \<or> rq_request_id request = [] \<or> of_request_id offer \<noteq> rq_request_id request
       then Inl (wrap ErrStore ''invalid durable offer'')
       else if map_of offs (of_offer_id offer) \<noteq> None then Inl (wrap ErrStore ''duplicate durable offer'')
       else (case num_status (po_Status saved) of
          None \<Rightarrow> Inl (wrap ErrStore ''invalid durable offer status'')
        | Some status \<Rightarrow>
            let rec = \<lparr>or_offer = offer, or_request = request,
                       or_client = firstBytes (po_Client saved) (po_LegacySender saved), or_status = status,
                       or_execution = po_Execution saved, or_resources = po_Resources saved\<rparr>;
                requestKey = authorityKey (or_client rec) (rq_request_id request)
            in if map_of reqs requestKey \<noteq> None then Inl (wrap ErrStore ''duplicate durable request'')
               else load_offers rest (map_put (of_offer_id offer) rec offs, map_put requestKey (of_offer_id offer) reqs)))"

definition durable_phase :: "ExecutionPhase \<Rightarrow> bool" where
  "durable_phase p \<longleftrightarrow> p \<noteq> EXECUTION_PHASE_UNSPECIFIED \<and> (case p of EXECUTION_PHASE_UNKNOWN n \<Rightarrow> False | _ \<Rightarrow> True)"

text \<open>The record of a durable execution: old snapshots lack the revision, the retention deadline and the lease.\<close>

definition restored_execution :: "gotime \<Rightarrow> Allocator \<Rightarrow> ExecutionRequest \<Rightarrow> persistedExecution \<Rightarrow> executionRecord" where
  "restored_execution now a request saved =
     (let rec = \<lparr>er_id = pe_ID saved, er_offerID = pe_OfferID saved,
           er_client = firstBytes (pe_Client saved) (pe_LegacySender saved), er_resourceClass = pe_ResourceClass saved,
           er_request = request, er_phase = pe_Phase saved, er_detail = pe_Detail saved, er_exitCode = pe_ExitCode saved,
           er_occurredAt = pe_OccurredAt saved, er_startedAt = pe_StartedAt saved, er_released = pe_Released saved,
           er_retainUntil = pe_RetainUntil saved, er_leaseUntil = pe_LeaseUntil saved,
           er_revision = max 1 (pe_Revision saved), er_resources = pe_Resources saved\<rparr>;
         rec1 = (if Terminal (pe_Phase saved) \<and> IsZero (pe_RetainUntil saved)
                 then rec\<lparr>er_retainUntil := pe_OccurredAt saved + al_retention a\<rparr> else rec)
     in if \<not> Terminal (pe_Phase saved) \<and> IsZero (pe_LeaseUntil saved)
        then rec1\<lparr>er_leaseUntil := now + al_leaseTTL a\<rparr> else rec1)"

fun load_executions ::
  "gotime \<Rightarrow> Allocator \<Rightarrow> persistedExecution list \<Rightarrow> (string, executionRecord) gomap
     \<Rightarrow> go_error + (string, executionRecord) gomap" where
  "load_executions now a [] m = Inr m"
| "load_executions now a (saved # rest) m = (case pe_Request saved of
     None \<Rightarrow> Inl (wrap ErrStore ''decode execution request'')
   | Some request \<Rightarrow>
       if pe_ID saved = [] \<or> pe_OfferID saved = [] \<or> pe_ResourceClass saved = [] \<or> rq_request_id request = []
       then Inl (wrap ErrStore ''invalid durable execution'')
       else if map_of m (pe_ID saved) \<noteq> None then Inl (wrap ErrStore ''duplicate durable execution'')
       else if \<not> durable_phase (pe_Phase saved) then Inl (wrap ErrStore ''invalid durable execution phase'')
       else if IsZero (pe_StartedAt saved) \<or> IsZero (pe_OccurredAt saved) \<or> Terminal (pe_Phase saved) \<noteq> pe_Released saved
       then Inl (wrap ErrStore ''inconsistent durable execution'')
       else load_executions now a rest (map_put (pe_ID saved) (restored_execution now a request saved) m))"

fun load_replay :: "persistedReplay list \<Rightarrow> (string, replayEntry) gomap \<Rightarrow> go_error + (string, replayEntry) gomap" where
  "load_replay [] m = Inr m"
| "load_replay (saved # rest) m =
     (if \<not> pr_Complete saved \<or> pr_Key saved = [] then load_replay rest m
      else (case pr_Envelope saved of
         None \<Rightarrow> Inl (wrap ErrStore ''decode replay envelope'')
       | Some envelope \<Rightarrow>
           if None \<in> set (pr_Responses saved) then Inl (wrap ErrStore ''decode replay response'')
           else load_replay rest (map_put (pr_Key saved) \<lparr>re_seenAt = pr_SeenAt saved, re_done = True,
                  re_envelope = envelope, re_responses = map the (pr_Responses saved),
                  re_err = (if pr_Error saved \<noteq> [] then Some (restoreError (pr_ErrorCode saved) (pr_Error saved)) else None)\<rparr> m)))"

text \<open>The last loop: assigned offers have their execution, and every holder takes its slot.\<close>

fun load_capacity ::
  "(string, executionRecord) gomap \<Rightarrow> (string, offerRecord) gomap \<Rightarrow> capacityLedger \<Rightarrow> go_error + capacityLedger" where
  "load_capacity exes [] l = Inr l"
| "load_capacity exes ((i, offer) # m) l =
     (let execution = map_of exes (or_execution offer) in
      if or_status offer = offerAssigned \<and>
         (case execution of None \<Rightarrow> True | Some r \<Rightarrow> er_offerID r \<noteq> of_offer_id (or_offer offer)
            \<or> er_resourceClass r \<noteq> of_resource_class (or_offer offer))
      then Inl (wrap ErrStore ''assigned offer has no matching execution'')
      else if or_status offer = offerOutstanding
         \<or> or_status offer = offerAssigned \<and> (case execution of None \<Rightarrow> False | Some r \<Rightarrow> \<not> er_released r)
      then (case reserve (of_resource_class (or_offer offer)) l of
              (Some e, _) \<Rightarrow> Inl (wrap ErrInvalidConfig ''durable state exceeds configured capacity'')
            | (None, l') \<Rightarrow> load_capacity exes m l')
      else load_capacity exes m l)"

text \<open>\<open>loadLocked\<close>; \<open>t1\<close> is the clock where leases are granted, \<open>t2\<close> the clock of the expiry.\<close>

definition load_state :: "pblib \<Rightarrow> gotime \<Rightarrow> gotime \<Rightarrow> persistedState \<Rightarrow> Allocator \<Rightarrow> go_error + Allocator" where
  "load_state W t1 t2 state a =
     (if ps_Version state \<noteq> 1 \<and> ps_Version state \<noteq> stateVersion
      then Inl (wrap ErrStore ''unsupported allocator state version'')
      else if ps_Identity state \<noteq> al_identity a
      then Inl (wrap ErrStore ''state belongs to a different allocator identity'')
      else let a1 = a\<lparr>al_highWater := ps_HighWater state, al_tombstones := ps_Tombstones state\<rparr>
      in case load_offers (ps_Offers state) (al_offers a1, al_requests a1) of
           Inl e \<Rightarrow> Inl e
         | Inr (offs, reqs) \<Rightarrow>
      (case load_executions t1 a1 (ps_Executions state) (al_executions a1) of
           Inl e \<Rightarrow> Inl e
         | Inr exes \<Rightarrow>
      (case load_replay (ps_Replay state) (rc_entries (al_replay a1)) of
           Inl e \<Rightarrow> Inl e
         | Inr entries \<Rightarrow>
      (let a2 = a1\<lparr>al_offers := offs, al_requests := reqs, al_executions := exes,
                   al_replay := (al_replay a1)\<lparr>rc_entries := entries\<rparr>\<rparr>;
           a3 = fst (expireOffersLocked W t2 a2)
       in case load_capacity (al_executions a3) (al_offers a3) (al_capacity a3) of
            Inl e \<Rightarrow> Inl e
          | Inr l \<Rightarrow> Inr (a3\<lparr>al_capacity := l\<rparr>)))))"

definition loadLocked :: "pblib \<Rightarrow> gotime \<Rightarrow> gotime \<Rightarrow> stored option \<Rightarrow> Allocator \<Rightarrow> go_error + Allocator" where
  "loadLocked W t1 t2 store a = (case store of
     None \<Rightarrow> Inr a
   | Some (LoadError e) \<Rightarrow> Inl (the (Join [Some (err ErrStore), Some e]))
   | Some NoData \<Rightarrow> Inr a
   | Some Undecodable \<Rightarrow> Inl (wrap ErrStore ''decode allocator state'')
   | Some (Stored state) \<Rightarrow> load_state W t1 t2 (json_state state) a)"

section \<open>The constructor\<close>

record Config =
  cf_MaxRecords :: int
  cf_Retention :: duration
  cf_Identity :: bytes
  cf_Capacity :: "(string, 32 word) gomap"
  cf_OfferTTL :: duration
  cf_LeaseTTL :: duration
  cf_ReplayTTL :: duration
  cf_ReplayCapacity :: int
  cf_Admission :: AdmissionPolicy
  cf_Tunnel :: TunnelConfig
  cf_Node :: "NodeCapabilities option"

text \<open>The constructor copies the policy through JSON.\<close>

definition copy_admission :: "AdmissionPolicy \<Rightarrow> AdmissionPolicy" where
  "copy_admission p = p\<lparr>ap_Profiles := json_keys (ap_Profiles p),
     ap_AllowedClients := map_option (map json_string) (ap_AllowedClients p),
     ap_ClientQuotas := json_keys (ap_ClientQuotas p)\<rparr>"

definition defaulted :: "int \<Rightarrow> int \<Rightarrow> int" where
  "defaulted v d = (if v = 0 then d else v)"

definition kept :: "stored option \<Rightarrow> persistedState option option" where
  "kept store = (case store of None \<Rightarrow> None | Some (Stored s) \<Rightarrow> Some (Some s) | Some _ \<Rightarrow> Some None)"

definition empty_allocator :: "Config \<Rightarrow> capacityLedger \<Rightarrow> stored option \<Rightarrow> Allocator" where
  "empty_allocator c capacity store = \<lparr>al_maxRecords = defaulted (cf_MaxRecords c) DefaultMaxRecords,
     al_highWater = zero_time, al_tombstones = [], al_identity = cf_Identity c, al_capacity = capacity,
     al_offerTTL = defaulted (cf_OfferTTL c) defaultOfferTTL, al_leaseTTL = defaulted (cf_LeaseTTL c) defaultLeaseTTL,
     al_retention = retention (defaulted (cf_Retention c) DefaultRetention), al_store = kept store,
     al_admission = copy_admission (cf_Admission c), al_node = cf_Node c, al_offers = [], al_requests = [], al_executions = [],
     al_replay = newReplayCache (defaulted (cf_ReplayTTL c) defaultReplayTTL)
        (defaulted (cf_ReplayCapacity c) defaultReplayCapacity),
     al_tunnels = NewRegistry, al_tunnelConfig = cf_Tunnel c\<rparr>"

definition New :: "pblib \<Rightarrow> gotime \<Rightarrow> gotime \<Rightarrow> Config \<Rightarrow> bool \<Rightarrow> stored option \<Rightarrow> go_error + Allocator" where
  "New W t1 t2 c runtime_nil store =
     (if length (cf_Identity c) = 0 then Inl (wrap ErrInvalidConfig ''identity is required'')
      else if runtime_nil then Inl (wrap ErrInvalidConfig ''runtime is required'')
      else (case newCapacityLedger (cf_Capacity c) of
         Inl e \<Rightarrow> Inl e
       | Inr capacity \<Rightarrow>
           if defaulted (cf_OfferTTL c) defaultOfferTTL < 0 \<or> defaulted (cf_LeaseTTL c) defaultLeaseTTL < 0
              \<or> defaulted (cf_ReplayTTL c) defaultReplayTTL < 0
              \<or> defaulted (cf_ReplayCapacity c) defaultReplayCapacity < 0
           then Inl (wrap ErrInvalidConfig ''TTLs and replay capacity must be positive'')
           else if \<not> admission_validate (cf_Admission c) (limits capacity)
           then Inl (wrap ErrInvalidConfig ''admission policy'')
           else (case ValidateCapabilities (cf_Node c) of
              Some e \<Rightarrow> Inl (wrap ErrInvalidConfig (Error (validation_error e)))
            | None \<Rightarrow>
                if defaulted (cf_MaxRecords c) DefaultMaxRecords < 2 then Inl (err ErrInvalidConfig)
                else if defaulted (cf_Retention c) DefaultRetention < 0 then Inl (err ErrInvalidConfig)
                else loadLocked W t1 t2 store (empty_allocator c capacity store))))"

end
