(* ===== verification/Alloc_Restart.thy ===== *)
theory Alloc_Restart
  imports Alloc_Load
begin

text \<open>
  What a restart restores.  A snapshot of a state that satisfies the invariant loads without an error under
  the same configuration; offers, requests, executions and tombstones come back, the slots are taken again
  for exactly the records that hold one, and the invariant holds.  Of the replay cache the completed entries
  come back under the coerced keys.
\<close>

section \<open>Maps built by insertion\<close>

lemma map_put_append: "map_of m k = None \<Longrightarrow> map_put k v m = m @ [(k, v)]"
  by (induction m) (auto split: if_splits)

lemma count_collect: "wf_map m \<Longrightarrow> count (collect f m) c = card {k. \<exists>v. map_of m k = Some v \<and> f v = Some c}"
proof (induction m)
  case (Cons kv m)
  obtain k v where kv: "kv = (k, v)" by force
  have new: "map_of m k = None" using Cons.prems kv by (simp add: map_of_None_keys)
  let ?S = "{k. \<exists>v. map_of m k = Some v \<and> f v = Some c}"
  have fin: "finite ?S" by (rule finite_subset[OF _ finite_dom_map_of[of m]]) auto
  have "{k'. \<exists>v'. map_of (kv # m) k' = Some v' \<and> f v' = Some c} = (if f v = Some c then insert k ?S else ?S)"
    using new kv by (auto split: if_splits)
  moreover have "k \<notin> ?S" using new by simp
  ultimately show ?case using Cons kv fin by (cases "f v") auto
qed simp

lemma wf_json_keys [simp]: "wf_map (json_keys m)"
proof -
  have "wf_map acc \<Longrightarrow> wf_map (foldl (\<lambda>m (k, v). map_put (json_string k) v m) acc m)" for acc
    by (induction m arbitrary: acc) auto
  then show ?thesis by (simp add: json_keys_def)
qed

lemma json_keys_valid: "map_of (json_keys m) k = Some v \<Longrightarrow> valid_utf8 k"
proof -
  have "map_of (foldl (\<lambda>m (k, v). map_put (json_string k) v m) acc m) k = Some v \<Longrightarrow>
      (map_of acc k = Some v \<or> valid_utf8 k)" for acc
  proof (induction m arbitrary: acc)
    case (Cons kv m)
    obtain k0 v0 where kv: "kv = (k0, v0)" by force
    from Cons.IH[of "map_put (json_string k0) v0 acc"] Cons.prems kv show ?case by (auto split: if_splits)
  qed simp
  from this[of "[]"] show "map_of (json_keys m) k = Some v \<Longrightarrow> valid_utf8 k" by (simp add: json_keys_def)
qed

lemma json_keys_id:
  assumes "wf_map m" "\<forall>k\<in>fst ` set m. valid_utf8 k"
  shows "json_keys m = m"
proof -
  have "wf_map (acc @ m) \<Longrightarrow> \<forall>k\<in>fst ` set m. valid_utf8 k \<Longrightarrow>
      foldl (\<lambda>m (k, v). map_put (json_string k) v m) acc m = acc @ m" for acc :: "(string, 'a) gomap" and m
  proof (induction m arbitrary: acc)
    case (Cons kv m)
    obtain k v where kv: "kv = (k, v)" by force
    have "map_of acc k = None" using Cons.prems kv by (auto simp: wf_map_def map_of_None_keys)
    then show ?case using Cons kv by (simp add: json_string_valid_id map_put_append)
  qed simp
  from this[of "[]"] assms show ?thesis by (simp add: json_keys_def)
qed

lemma json_string_empty [simp]: "json_string s = [] \<longleftrightarrow> s = []"
proof -
  have "json_string s \<noteq> []" if "s \<noteq> []"
  proof (cases s)
    case (Cons c r)
    have "take (rune_width s) s \<noteq> []" if "rune_width s \<noteq> 0" using that Cons by simp
    then show ?thesis using Cons by (subst json_string.simps) (auto simp: Let_def rune_error_def)
  qed (use that in simp)
  then show ?thesis by auto
qed

lemma empty_json_string [simp]: "[] = json_string s \<longleftrightarrow> s = []"
  by (metis json_string_empty)

section \<open>Offers and executions\<close>

definition saved_offer :: "offerRecord \<Rightarrow> persistedOffer" where
  "saved_offer o1 = json_offer (persist_offer o1)"

lemma load_offer_step:
  assumes "offer_ok i o1" "valid_utf8 (or_execution o1)" "map_of offs i = None" "map_of reqs (offer_key o1) = None"
  shows "load_offers (saved_offer o1 # rest) (offs, reqs) = load_offers rest (offs @ [(i, o1)], reqs @ [(offer_key o1, i)])"
proof -
  have st: "num_status (status_num (or_status o1)) = Some (or_status o1)" by (cases "or_status o1") simp_all
  have rec: "\<lparr>or_offer = or_offer o1, or_request = or_request o1, or_client = firstBytes (or_client o1) [], or_status = or_status o1,
      or_execution = json_string (or_execution o1), or_resources = or_resources o1\<rparr> = o1"
    using assms(2) by (simp add: firstBytes_def json_string_valid_id)
  show ?thesis using assms st rec
    by (simp add: saved_offer_def json_offer_def persist_offer_def offer_ok_def offer_key_def map_put_append Let_def del: num_status.simps)
qed

lemma load_offers_saved:
  "\<forall>(i, o1)\<in>set m. offer_ok i o1 \<and> valid_utf8 (or_execution o1) \<Longrightarrow> wf_map (offs @ m) \<Longrightarrow>
   wf_map (reqs @ map (\<lambda>(i, o1). (offer_key o1, i)) m) \<Longrightarrow>
   load_offers (map (\<lambda>(i, o1). saved_offer o1) m) (offs, reqs) = Inr (offs @ m, reqs @ map (\<lambda>(i, o1). (offer_key o1, i)) m)"
proof (induction m arbitrary: offs reqs)
  case (Cons io m)
  obtain i o1 where io: "io = (i, o1)" by force
  have "map_of offs i = None" "map_of reqs (offer_key o1) = None"
    using Cons.prems io by (auto simp: wf_map_def map_of_None_keys)
  then have "load_offers (map (\<lambda>(i, o1). saved_offer o1) (io # m)) (offs, reqs)
      = load_offers (map (\<lambda>(i, o1). saved_offer o1) m) (offs @ [(i, o1)], reqs @ [(offer_key o1, i)])"
    using load_offer_step[of i o1 offs reqs] Cons.prems io by simp
  then show ?case using Cons io by simp
qed simp

text \<open>What a restart makes of an execution record.\<close>

definition reload :: "gotime \<Rightarrow> Allocator \<Rightarrow> executionRecord \<Rightarrow> executionRecord" where
  "reload now a r = r\<lparr>er_detail := json_string (er_detail r), er_revision := max 1 (er_revision r),
     er_retainUntil := (if Terminal (er_phase r) \<and> IsZero (er_retainUntil r) then er_occurredAt r + al_retention a else er_retainUntil r),
     er_leaseUntil := (if \<not> Terminal (er_phase r) \<and> IsZero (er_leaseUntil r) then now + al_leaseTTL a else er_leaseUntil r)\<rparr>"

lemma reload_same [simp]:
  "same_execution r (reload now a r)" "er_phase (reload now a r) = er_phase r" "er_released (reload now a r) = er_released r"
  "exec_ok x (reload now a r) = exec_ok x r" "live_class (reload now a r) = live_class r"
  "matched i o1 x (reload now a r) = matched i o1 x r" "er_offerID (reload now a r) = er_offerID r"
  by (simp_all add: reload_def same_execution_def exec_ok_def live_class_def matched_def)

definition saved_execution :: "executionRecord \<Rightarrow> persistedExecution" where
  "saved_execution r = json_execution (persist_execution r)"

definition exec_texts :: "executionRecord \<Rightarrow> bool" where
  "exec_texts r \<longleftrightarrow> er_offerID r \<noteq> [] \<and> valid_utf8 (er_offerID r) \<and> er_resourceClass r \<noteq> [] \<and> valid_utf8 (er_resourceClass r)
     \<and> rq_request_id (er_request r) \<noteq> []"

lemma load_execution_step:
  assumes "exec_ok x r" "exec_texts r" "map_of m x = None"
  shows "load_executions now a (saved_execution r # rest) m = load_executions now a rest (m @ [(x, reload now a r)])"
proof -
  have "durable_phase (er_phase r)" using assms(1) by (auto simp: exec_ok_def durable_phase_def known_phase_def)
  moreover have "restored_execution now a (er_request r) (saved_execution r) = reload now a r"
    using assms by (simp add: restored_execution_def saved_execution_def json_execution_def persist_execution_def reload_def
        exec_ok_def exec_texts_def firstBytes_def json_string_valid_id Let_def)
  ultimately show ?thesis using assms
    by (simp add: saved_execution_def json_execution_def persist_execution_def exec_ok_def exec_texts_def json_string_valid_id
        map_put_append IsZero_def)
qed

lemma load_executions_saved:
  "\<forall>(x, r)\<in>set m. exec_ok x r \<and> exec_texts r \<Longrightarrow> wf_map (acc @ m) \<Longrightarrow>
   load_executions now a (map (\<lambda>(x, r). saved_execution r) m) acc = Inr (acc @ map (\<lambda>(x, r). (x, reload now a r)) m)"
proof (induction m arbitrary: acc)
  case (Cons xr m)
  obtain x r where xr: "xr = (x, r)" by force
  have "map_of acc x = None" using Cons.prems xr by (auto simp: wf_map_def map_of_None_keys)
  then have "load_executions now a (map (\<lambda>(x, r). saved_execution r) (xr # m)) acc
      = load_executions now a (map (\<lambda>(x, r). saved_execution r) m) (acc @ [(x, reload now a r)])"
    using load_execution_step[of x r acc now a] Cons.prems xr by simp
  moreover have "wf_map ((acc @ [(x, reload now a r)]) @ m)" using Cons.prems(2) xr by (simp add: wf_map_def)
  ultimately show ?case using Cons xr by simp
qed simp

section \<open>The replay cache\<close>

definition reload_entry :: "replayEntry \<Rightarrow> replayEntry" where
  "reload_entry e = e\<lparr>re_err := (case re_err e of None \<Rightarrow> None | Some x \<Rightarrow>
     if Error x = [] then None else Some (restoreError (json_string (classifyError durableErrors x)) (json_string (Error x))))\<rparr>"

definition reload_entries :: "(string, replayEntry) gomap \<Rightarrow> (string, replayEntry) gomap" where
  "reload_entries m = json_keys (map (\<lambda>(k, e). (k, reload_entry e)) (filter (\<lambda>(k, e). re_done e) m))"

lemma load_replay_step:
  assumes "re_done e" "k \<noteq> []"
  shows "load_replay (json_replay (persist_replay (k, e)) # rest) acc = load_replay rest (map_put (json_string k) (reload_entry e) acc)"
proof -
  have "map (the \<circ> Some) xs = xs" for xs :: "Envelope list" by (induction xs) auto
  with assms show ?thesis
    by (cases e; cases "re_err e") (auto simp: json_replay_def persist_replay_def replayDone_def reload_entry_def)
qed

lemma load_replay_saved:
  "[] \<notin> fst ` set m \<Longrightarrow> load_replay (map (\<lambda>ke. json_replay (persist_replay ke)) m) acc =
     Inr (foldl (\<lambda>m (k, v). map_put (json_string k) v m) acc (map (\<lambda>(k, e). (k, reload_entry e)) (filter (\<lambda>(k, e). re_done e) m)))"
proof (induction m arbitrary: acc)
  case (Cons ke m)
  obtain k e where ke: "ke = (k, e)" by force
  have k: "k \<noteq> []" using Cons.prems ke by auto
  have tail: "load_replay (map (\<lambda>ke. json_replay (persist_replay ke)) m) acc' =
     Inr (foldl (\<lambda>m (k, v). map_put (json_string k) v m) acc' (map (\<lambda>(k, e). (k, reload_entry e)) (filter (\<lambda>(k, e). re_done e) m)))" for acc'
    using Cons by simp
  show ?case
  proof (cases "re_done e")
    case False
    then show ?thesis using ke tail by (simp add: json_replay_def persist_replay_def replayDone_def)
  next
    case True
    then show ?thesis using load_replay_step[OF True k] ke tail by simp
  qed
qed simp

lemma length_json_keys: "length (json_keys m) \<le> length m"
proof -
  have "length (foldl (\<lambda>m (k, v). map_put (json_string k) v m) acc m) \<le> length acc + length m" for acc
  proof (induction m arbitrary: acc)
    case (Cons kv m)
    obtain k v where kv: "kv = (k, v)" by force
    show ?case using Cons[of "map_put (json_string k) v acc"] kv by (simp add: length_put split: if_splits)
  qed simp
  from this[of "[]"] show ?thesis by (simp add: json_keys_def)
qed

lemma json_keys_nonempty: "[] \<notin> fst ` set m \<Longrightarrow> [] \<notin> fst ` set (json_keys m)"
proof -
  have "[] \<notin> fst ` set m \<Longrightarrow> map_of acc [] = None \<Longrightarrow> map_of (foldl (\<lambda>m (k, v). map_put (json_string k) v m) acc m) [] = None" for acc
    by (induction m arbitrary: acc) auto
  from this[of "[]"] show "[] \<notin> fst ` set m \<Longrightarrow> [] \<notin> fst ` set (json_keys m)"
    by (simp add: json_keys_def map_of_None_keys)
qed

lemma cache_ok_reload: "cache_ok c \<Longrightarrow> cache_ok (c\<lparr>rc_entries := reload_entries (rc_entries c)\<rparr>)"
proof -
  assume c: "cache_ok c"
  let ?m = "map (\<lambda>(k, e). (k, reload_entry e)) (filter (\<lambda>(k, e). re_done e) (rc_entries c))"
  have "length (json_keys ?m) \<le> length (rc_entries c)"
    using length_json_keys[of ?m] length_filter_le[of "\<lambda>(k, e). re_done e" "rc_entries c"] by (simp del: length_filter_le)
  moreover have "[] \<notin> fst ` set ?m" using c by (force simp: cache_ok_def)
  then have "[] \<notin> fst ` set (json_keys ?m)" by (rule json_keys_nonempty)
  ultimately show ?thesis using c by (simp add: cache_ok_def reload_entries_def)
qed

section \<open>Capacity\<close>

text \<open>The slot an offer stands for: its own reservation, or that of its live execution.\<close>

definition assigned_live :: "(string, executionRecord) gomap \<Rightarrow> offerRecord \<Rightarrow> string option" where
  "assigned_live exes o1 = (if or_status o1 = offerAssigned
     then (case map_of exes (or_execution o1) of None \<Rightarrow> None
       | Some r \<Rightarrow> if er_released r then None else Some (of_resource_class (or_offer o1)))
     else None)"

definition held :: "(string, executionRecord) gomap \<Rightarrow> offerRecord \<Rightarrow> string option" where
  "held exes o1 = (if or_status o1 = offerOutstanding then Some (of_resource_class (or_offer o1)) else assigned_live exes o1)"

lemma collect_held: "collect (held exes) m = collect outstanding_class m + collect (assigned_live exes) m"
proof (induction m)
  case (Cons io m)
  obtain i o1 where "io = (i, o1)" by force
  moreover have "opt_mset (held exes o1) = opt_mset (outstanding_class o1) + opt_mset (assigned_live exes o1)"
    by (simp add: held_def outstanding_class_def assigned_live_def)
  ultimately show ?case using Cons by (simp add: ac_simps)
qed simp

lemma collect_assigned_live:
  assumes ok: "core_ok offs reqs exes"
  shows "collect (assigned_live exes) offs = collect live_class exes"
proof (rule multiset_eqI)
  fix c
  let ?O = "{i. \<exists>o1. map_of offs i = Some o1 \<and> assigned_live exes o1 = Some c}"
  let ?E = "{x. \<exists>r. map_of exes x = Some r \<and> live_class r = Some c}"
  let ?f = "\<lambda>x. er_offerID (the (map_of exes x))"
  have inj: "inj_on ?f ?E"
  proof (rule inj_onI)
    fix x y assume "x \<in> ?E" "y \<in> ?E" "?f x = ?f y"
    then obtain r s where "map_of exes x = Some r" "map_of exes y = Some s" "er_offerID r = er_offerID s" by auto
    then show "x = y" using core_matched[OF ok, of x r] core_matched[OF ok, of y s] by (auto simp: matched_def)
  qed
  have into: "?f x \<in> ?O" if "x \<in> ?E" for x
  proof -
    from that obtain r where r: "map_of exes x = Some r" "live_class r = Some c" by auto
    from core_matched[OF ok r(1)] obtain o1 where "map_of offs (er_offerID r) = Some o1" "matched (er_offerID r) o1 x r" by auto
    with r show ?thesis by (auto simp: matched_def assigned_live_def live_class_def split: if_splits)
  qed
  have onto: "i \<in> ?f ` ?E" if "i \<in> ?O" for i
  proof -
    from that obtain o1 where o1: "map_of offs i = Some o1" "assigned_live exes o1 = Some c" by auto
    then have st: "or_status o1 = offerAssigned" by (simp add: assigned_live_def split: if_splits)
    from core_assigned[OF ok o1(1) st] obtain r where r: "map_of exes (or_execution o1) = Some r" "matched i o1 (or_execution o1) r" by auto
    have "or_execution o1 \<in> ?E" "?f (or_execution o1) = i"
      using o1(2) st r by (auto simp: assigned_live_def matched_def live_class_def split: if_splits)
    then show ?thesis by blast
  qed
  have "bij_betw ?f ?E ?O" using inj into onto unfolding bij_betw_def by blast
  then have "card ?E = card ?O" by (rule bij_betw_same_card)
  then show "count (collect (assigned_live exes) offs) c = count (collect live_class exes) c"
    using count_collect[OF core_wf(1)[OF ok], of "assigned_live exes" c] count_collect[OF core_wf(3)[OF ok], of live_class c] by simp
qed

lemma load_capacity_tracks:
  assumes "\<forall>(i, o1)\<in>set m. or_status o1 = offerAssigned \<longrightarrow> (\<exists>r. map_of exes (or_execution o1) = Some r
      \<and> er_offerID r = of_offer_id (or_offer o1) \<and> er_resourceClass r = of_resource_class (or_offer o1))"
    and "ledger.tracks l H" "\<forall>c. count (H + collect (held exes) m) c \<le> slot_limit l c"
  shows "\<exists>l'. load_capacity exes m l = Inr l' \<and> ledger.tracks l' (H + collect (held exes) m) \<and> limits l' = limits l"
  using assms
proof (induction m arbitrary: l H)
  case (Cons io m)
  obtain i o1 where io: "io = (i, o1)" by force
  let ?c = "of_resource_class (or_offer o1)"
  have match: "\<not> (or_status o1 = offerAssigned \<and> (case map_of exes (or_execution o1) of None \<Rightarrow> True
      | Some r \<Rightarrow> er_offerID r \<noteq> of_offer_id (or_offer o1) \<or> er_resourceClass r \<noteq> ?c))"
    using Cons.prems(1) io by (auto split: option.split)
  show ?case
  proof (cases "held exes o1")
    case None
    then have "load_capacity exes (io # m) l = load_capacity exes m l"
      using match io by (auto simp: held_def assigned_live_def Let_def split: if_splits option.splits)
    with Cons None io show ?thesis by simp
  next
    case (Some d)
    then have d: "d = ?c" by (auto simp: held_def assigned_live_def split: if_splits option.splits)
    have "count H ?c < slot_limit l ?c" using Cons.prems(3)[rule_format, of ?c] io Some d by simp
    then obtain l1 where l1: "reserve ?c l = (None, l1)"
      using ledger.tracks_free[OF Cons.prems(2), of ?c] by (cases "reserve ?c l") auto
    have t1: "ledger.tracks l1 (add_mset ?c H)" "limits l1 = limits l"
      using ledger.tracks_take[OF Cons.prems(2), of ?c] reserve_limits[of ?c l] l1 by auto
    have "load_capacity exes (io # m) l = load_capacity exes m l1"
      using match io Some l1 by (auto simp: held_def assigned_live_def Let_def split: if_splits option.splits)
    moreover have "\<forall>c. count (add_mset ?c H + collect (held exes) m) c \<le> slot_limit l1 c"
      using Cons.prems(3) io Some d t1(2) by (simp add: slot_limit_def)
    ultimately show ?thesis using Cons.IH[OF _ t1(1)] Cons.prems(1) io Some d t1(2) by auto
  qed
qed simp

lemma release_empty: "ledger.tracks l {#} \<Longrightarrow> release c l = l"
  using ledger.tracks_def[of l "{#}"] by (auto simp: release_def slots_in_use_def fun_eq_iff unat_eq_zero word_less_nat_alt)

lemma expire_loop_empty: "ledger.tracks l {#} \<Longrightarrow> fst (snd (expire_loop W now m l)) = l"
  by (induction W now m l rule: expire_loop.induct) (auto simp: release_empty split: prod.splits)

lemma expire_loop_offers: "fst (expire_loop W now m l) = fst (expire_loop W now m l')"
proof (induction m arbitrary: l l')
  case (Cons io m)
  obtain i o1 where io: "io = (i, o1)" by force
  show ?case using Cons[of l l'] Cons[of "release (of_resource_class (or_offer o1)) l" "release (of_resource_class (or_offer o1)) l'"] io
    by (auto split: prod.splits)
qed simp

section \<open>Restart\<close>

lemma expire_loop_request_keys:
  "map (\<lambda>(i, o1). (offer_key o1, i)) (fst (expire_loop W now m l)) = map (\<lambda>(i, o1). (offer_key o1, i)) m"
  by (induction W now m l rule: expire_loop.induct) (auto simp: offer_key_def split: prod.splits)

lemma wf_keys:
  assumes "core_ok offs reqs exes"
  shows "wf_map (map (\<lambda>(i, o1). (offer_key o1, i)) offs)"
proof -
  have "inj_on (\<lambda>(i, o1). offer_key o1) (set offs)"
  proof (rule inj_onI, clarify)
    fix i o1 j o2 assume io: "(i, o1) \<in> set offs" "(j, o2) \<in> set offs" "offer_key o1 = offer_key o2"
    then have "map_of offs i = Some o1" "map_of offs j = Some o2" using map_of_in[OF core_wf(1)[OF assms]] by auto
    with offer_key_unique[OF assms this io(3)] show "i = j \<and> o1 = o2" by simp
  qed
  moreover have "distinct offs" using core_wf(1)[OF assms] by (simp add: wf_map_def distinct_map)
  ultimately show ?thesis by (simp add: wf_map_def distinct_map comp_def case_prod_unfold)
qed

lemma core_ok_reload:
  assumes ok: "core_ok offs reqs exes"
  shows "core_ok offs (map (\<lambda>(i, o1). (offer_key o1, i)) offs) (map (\<lambda>(x, r). (x, reload t b r)) exes)"
proof -
  have ex: "map_of (map (\<lambda>(x, r). (x, reload t b r)) exes) x = map_option (reload t b) (map_of exes x)" for x
    by (simp add: map_of_map)
  have keys: "map fst (map (\<lambda>(x, r). (x, reload t b r)) exes) = map fst exes" by (auto simp: comp_def case_prod_unfold)
  show ?thesis unfolding core_ok_def
  proof (intro conjI allI impI)
    show "wf_map offs" "wf_map (map (\<lambda>(i, o1). (offer_key o1, i)) offs)" using core_wf(1)[OF ok] wf_keys[OF ok] by auto
    show "wf_map (map (\<lambda>(x, r). (x, reload t b r)) exes)" using core_wf(3)[OF ok] unfolding wf_map_def keys .
    show "offer_ok i o1" if "map_of offs i = Some o1" for i o1 using core_offer[OF ok that] .
    show "exec_ok x r" if "map_of (map (\<lambda>(x, r). (x, reload t b r)) exes) x = Some r" for x r
      using that core_exec[OF ok, of x] by (auto simp: ex)
    show "(map_of (map (\<lambda>(i, o1). (offer_key o1, i)) offs) k = Some i) = (\<exists>o1. map_of offs i = Some o1 \<and> offer_key o1 = k)" for k i
      unfolding map_of_in[OF wf_keys[OF ok], symmetric] map_of_in[OF core_wf(1)[OF ok], symmetric] by force
    show "\<exists>r. map_of (map (\<lambda>(x, r). (x, reload t b r)) exes) (or_execution o1) = Some r \<and> matched i o1 (or_execution o1) r"
      if "map_of offs i = Some o1" "or_status o1 = offerAssigned" for i o1
      using core_assigned[OF ok that] by (auto simp: ex)
    show "\<exists>o1. map_of offs (er_offerID r) = Some o1 \<and> matched (er_offerID r) o1 x r"
      if "map_of (map (\<lambda>(x, r). (x, reload t b r)) exes) x = Some r" for x r
      using that core_matched[OF ok, of x] by (auto simp: ex)
  qed
qed

lemma offer_execution_valid:
  assumes "core_ok offs reqs exes" "map_of offs i = Some o1"
  shows "valid_utf8 (or_execution o1)"
proof (cases "or_status o1 = offerAssigned")
  case True
  from core_assigned[OF assms True] core_exec[OF assms(1)] show ?thesis by (auto simp: exec_ok_def)
qed (use core_offer[OF assms] in \<open>simp add: offer_ok_def\<close>)

lemma execution_texts:
  assumes "core_ok offs reqs exes" "map_of exes x = Some r"
  shows "exec_texts r"
proof -
  obtain o1 where o1: "map_of offs (er_offerID r) = Some o1" "matched (er_offerID r) o1 x r" using core_matched[OF assms] by blast
  then show ?thesis using core_offer[OF assms(1) o1(1)] by (simp add: exec_texts_def offer_ok_def matched_def)
qed

lemma tombstones_reload: "dead_ok ds \<Longrightarrow> json_keys (map (\<lambda>(k, d). (k, json_tombstone d)) ds) = ds"
proof -
  assume ok: "dead_ok ds"
  have each: "td_OfferID d = k \<and> valid_utf8 k \<and> valid_utf8 (td_RequestID d) \<and> valid_utf8 (td_ExecutionID d)" if "(k, d) \<in> set ds" for k d
    using ok that map_of_in[of ds k d] by (auto simp: dead_ok_def)
  have "map (\<lambda>(k, d). (k, json_tombstone d)) ds = ds"
    by (rule map_idI) (use each in \<open>auto simp: json_tombstone_def json_string_valid_id\<close>)
  moreover have "\<forall>k\<in>fst ` set ds. valid_utf8 k" using each by auto
  ultimately show ?thesis using ok json_keys_id[of ds] by (simp add: dead_ok_def)
qed

lemma json_snapshot:
  assumes "alloc_ok a"
  shows "ps_Offers (json_state (persisted_snapshot a)) = map (\<lambda>(i, o1). saved_offer o1) (al_offers a)"
    "ps_Executions (json_state (persisted_snapshot a)) = map (\<lambda>(x, r). saved_execution r) (al_executions a)"
    "ps_Replay (json_state (persisted_snapshot a)) = map (\<lambda>ke. json_replay (persist_replay ke)) (rc_entries (al_replay a))"
    "ps_Tombstones (json_state (persisted_snapshot a)) = al_tombstones a"
    "ps_Version (json_state (persisted_snapshot a)) = stateVersion" "ps_Identity (json_state (persisted_snapshot a)) = al_identity a"
    "ps_HighWater (json_state (persisted_snapshot a)) = al_highWater a"
  using tombstones_reload[OF ok_dead[OF assms]]
  by (simp_all add: json_state_def persisted_snapshot_def saved_offer_def saved_execution_def comp_def case_prod_unfold)

text \<open>The allocator a snapshot loads into: freshly constructed under the configuration of the saved one.\<close>

definition fresh_for :: "Allocator \<Rightarrow> Allocator \<Rightarrow> bool" where
  "fresh_for a b \<longleftrightarrow> al_offers b = [] \<and> al_requests b = [] \<and> al_executions b = [] \<and> rc_entries (al_replay b) = []
     \<and> ledger.tracks (al_capacity b) {#} \<and> al_tunnels b = NewRegistry \<and> al_identity b = al_identity a
     \<and> limits (al_capacity b) = limits (al_capacity a) \<and> al_maxRecords b = al_maxRecords a
     \<and> rc_capacity (al_replay b) = rc_capacity (al_replay a)"

definition restored :: "pblib \<Rightarrow> gotime \<Rightarrow> gotime \<Rightarrow> Allocator \<Rightarrow> Allocator \<Rightarrow> Allocator" where
  "restored W t1 t2 a b = b\<lparr>al_highWater := al_highWater a, al_tombstones := al_tombstones a,
     al_offers := al_offers (fst (expireOffersLocked W t2 a)),
     al_requests := map (\<lambda>(i, o1). (offer_key o1, i)) (al_offers a),
     al_executions := map (\<lambda>(x, r). (x, reload t1 (b\<lparr>al_highWater := al_highWater a, al_tombstones := al_tombstones a\<rparr>) r)) (al_executions a),
     al_replay := (al_replay b)\<lparr>rc_entries := reload_entries (rc_entries (al_replay a))\<rparr>\<rparr>"

lemma load_snapshot:
  assumes ok: "alloc_ok a" and fresh: "fresh_for a b"
  shows "load_state W t1 t2 (json_state (persisted_snapshot a)) b =
    (case load_capacity (al_executions (restored W t1 t2 a b)) (al_offers (restored W t1 t2 a b)) (al_capacity b) of
       Inl e \<Rightarrow> Inl e | Inr l \<Rightarrow> Inr ((restored W t1 t2 a b)\<lparr>al_capacity := l\<rparr>))"
proof -
  note core = ok_core[OF ok] and js = json_snapshot[OF ok]
  let ?b1 = "b\<lparr>al_highWater := al_highWater a, al_tombstones := al_tombstones a\<rparr>"
  have each: "\<forall>(i, o1)\<in>set (al_offers a). offer_ok i o1 \<and> valid_utf8 (or_execution o1)"
    "\<forall>(x, r)\<in>set (al_executions a). exec_ok x r \<and> exec_texts r"
    using core_offer[OF core] offer_execution_valid[OF core] core_exec[OF core] execution_texts[OF core]
      map_of_in[OF core_wf(1)[OF core]] map_of_in[OF core_wf(3)[OF core]] by auto
  have offs: "load_offers (map (\<lambda>(i, o1). saved_offer o1) (al_offers a)) ([], []) =
      Inr (al_offers a, map (\<lambda>(i, o1). (offer_key o1, i)) (al_offers a))"
    using load_offers_saved[of "al_offers a" "[]" "[]", OF each(1)] core_wf(1)[OF core] wf_keys[OF core] by simp
  have exes: "load_executions t1 ?b1 (map (\<lambda>(x, r). saved_execution r) (al_executions a)) [] =
      Inr (map (\<lambda>(x, r). (x, reload t1 ?b1 r)) (al_executions a))"
    using load_executions_saved[of "al_executions a" "[]" t1 ?b1, OF each(2)] core_wf(3)[OF core] by simp
  have rep: "load_replay (map (\<lambda>ke. json_replay (persist_replay ke)) (rc_entries (al_replay a))) [] =
      Inr (reload_entries (rc_entries (al_replay a)))"
    using load_replay_saved[of "rc_entries (al_replay a)" "[]"] ok_cache[OF ok] by (simp add: cache_ok_def reload_entries_def json_keys_def)
  let ?b2 = "?b1\<lparr>al_offers := al_offers a, al_requests := map (\<lambda>(i, o1). (offer_key o1, i)) (al_offers a),
      al_executions := map (\<lambda>(x, r). (x, reload t1 ?b1 r)) (al_executions a),
      al_replay := (al_replay b)\<lparr>rc_entries := reload_entries (rc_entries (al_replay a))\<rparr>\<rparr>"
  have exp: "fst (expireOffersLocked W t2 ?b2) = restored W t1 t2 a b"
  proof -
    have "fst (snd (expire_loop W t2 (al_offers a) (al_capacity b))) = al_capacity b"
      using expire_loop_empty fresh by (simp add: fresh_for_def)
    moreover have "fst (expire_loop W t2 (al_offers a) (al_capacity b)) = al_offers (fst (expireOffersLocked W t2 a))"
      unfolding expire_parts by (rule expire_loop_offers)
    ultimately show ?thesis by (simp add: restored_def expireOffersLocked_def prod.case_eq_if)
  qed
  have cap: "al_capacity (restored W t1 t2 a b) = al_capacity b" by (simp add: restored_def)
  show ?thesis using fresh offs exes rep exp
    by (simp add: load_state_def js fresh_for_def Let_def cap stateVersion_def cong: sum.case_cong split del: if_split)
      (simp add: restored_def)
qed

lemma alloc_ok_restored:
  assumes ok: "alloc_ok a" and fresh: "fresh_for a b"
  shows "\<exists>l. load_state W t1 t2 (json_state (persisted_snapshot a)) b = Inr ((restored W t1 t2 a b)\<lparr>al_capacity := l\<rparr>)
     \<and> alloc_ok ((restored W t1 t2 a b)\<lparr>al_capacity := l\<rparr>) \<and> limits l = limits (al_capacity a)"
proof -
  let ?a = "fst (expireOffersLocked W t2 a)" and ?r = "restored W t1 t2 a b"
  have ok1: "alloc_ok ?a" using ok by auto
  note core1 = ok_core[OF ok1]
  let ?f = "reload t1 (b\<lparr>al_highWater := al_highWater a, al_tombstones := al_tombstones a\<rparr>)"
  have keys: "map (\<lambda>(i, o1). (offer_key o1, i)) (al_offers ?a) = map (\<lambda>(i, o1). (offer_key o1, i)) (al_offers a)"
    unfolding expire_parts by (rule expire_loop_request_keys)
  have core: "core_ok (al_offers ?r) (al_requests ?r) (al_executions ?r)"
    using core_ok_reload[OF core1] keys by (simp add: restored_def)
  have live: "collect live_class (al_executions ?r) = collect live_class (al_executions a)"
  proof -
    have "collect live_class (map (\<lambda>(x, r). (x, ?f r)) m) = collect live_class m" for m by (induction m) auto
    then show ?thesis by (simp add: restored_def)
  qed
  have held: "collect (held (al_executions ?r)) (al_offers ?r) = holders ?a"
    unfolding collect_held collect_assigned_live[OF core] live by (simp add: holders_def restored_def)
  have match: "\<forall>(i, o1)\<in>set (al_offers ?r). or_status o1 = offerAssigned \<longrightarrow> (\<exists>r. map_of (al_executions ?r) (or_execution o1) = Some r
      \<and> er_offerID r = of_offer_id (or_offer o1) \<and> er_resourceClass r = of_resource_class (or_offer o1))"
    using core_assigned[OF core] core_offer[OF core] map_of_in[OF core_wf(1)[OF core]] by (fastforce simp: matched_def offer_ok_def)
  have bound: "\<forall>c. count ({#} + collect (held (al_executions ?r)) (al_offers ?r)) c \<le> slot_limit (al_capacity b) c"
    using ledger.tracks_bounded[OF ok_ledger[OF ok1]] fresh held
    by (simp add: slot_limit_def fresh_for_def expire_parts expire_loop_limits)
  obtain l where l: "load_capacity (al_executions ?r) (al_offers ?r) (al_capacity b) = Inr l" "ledger.tracks l (holders ?a)"
      "limits l = limits (al_capacity b)"
    using load_capacity_tracks[OF match _ bound] fresh held by (auto simp: fresh_for_def)
  have "holders (?r\<lparr>al_capacity := l\<rparr>) = holders ?a"
    using live by (simp add: holders_def restored_def)
  moreover have "cache_ok (al_replay ?r)"
  proof -
    have "cache_ok ((al_replay a)\<lparr>rc_entries := reload_entries (rc_entries (al_replay a))\<rparr>)" using cache_ok_reload ok_cache[OF ok] by blast
    then show ?thesis using fresh by (simp add: cache_ok_def restored_def fresh_for_def)
  qed
  moreover have "registry_ok (al_tunnels ?r)" using fresh by (simp add: restored_def fresh_for_def registry_ok_new)
  moreover have "budget_ok (?r\<lparr>al_capacity := l\<rparr>)"
    using ok_budget[OF ok1] fresh by (simp add: budget_ok_def restored_def fresh_for_def)
  ultimately have "alloc_ok (?r\<lparr>al_capacity := l\<rparr>)"
    using core l(2) ok_dead[OF ok] by (simp add: alloc_ok_def) (simp add: restored_def)
  then show ?thesis using load_snapshot[OF ok fresh] l fresh by (auto simp: fresh_for_def)
qed

end
