(* ===== verification/Alloc_System.thy ===== *)
theory Alloc_System
  imports Alloc_Workers Alloc_Restart
begin

text \<open>
  The allocator process as a whole: one allocator, the commands it is handling, its background worker, and
  crashes followed by a restart from the store.  A step is one section under the allocator's lock, so the steps are
  all interleavings of the goroutines.  The invariant of the system shows in every reachable state that capacity
  is never oversubscribed, that no section panics, that one command is never applied by two goroutines at once,
  and that a restart succeeds.
\<close>

section \<open>Reachability and invariants\<close>

inductive reach :: "('s \<Rightarrow> bool) \<Rightarrow> ('s \<Rightarrow> 's \<Rightarrow> bool) \<Rightarrow> 's \<Rightarrow> bool" for start step where
  reach_start: "start s \<Longrightarrow> reach start step s"
| reach_step: "reach start step s \<Longrightarrow> step s t \<Longrightarrow> reach start step t"

locale inductive_invariant =
  fixes start :: "'s \<Rightarrow> bool" and step :: "'s \<Rightarrow> 's \<Rightarrow> bool" and inv :: "'s \<Rightarrow> bool"
  assumes start_inv: "start s \<Longrightarrow> inv s"
    and step_inv: "inv s \<Longrightarrow> step s t \<Longrightarrow> inv t"
begin

lemma reach_inv: "reach start step s \<Longrightarrow> inv s"
  by (induction rule: reach.induct) (auto intro: start_inv step_inv)

lemma steps_inv: "step\<^sup>*\<^sup>* s t \<Longrightarrow> inv s \<Longrightarrow> inv t"
  by (induction rule: rtranclp_induct) (auto intro: step_inv)

end

section \<open>The system\<close>

record system =
  sy_alloc :: Allocator
  sy_threads :: "thread list"
  sy_worker :: worker

text \<open>Finishing a command closes the channel its duplicates wait for.\<close>

fun wake :: "thread \<Rightarrow> thread \<Rightarrow> thread" where
  "wake (Replying key e rs er) (Waiting k d) = (if k = key then Woken d rs er else Waiting k d)"
| "wake _ t = t"

definition stored_of :: "persistedState option option \<Rightarrow> stored option" where
  "stored_of st = map_option (\<lambda>s. case s of None \<Rightarrow> NoData | Some p \<Rightarrow> Stored p) st"

definition boot :: "bool \<Rightarrow> Allocator \<Rightarrow> system" where
  "boot recoverable a = \<lparr>sy_alloc = a, sy_threads = [], sy_worker = recover_start recoverable a\<rparr>"

definition sys_start :: "pblib \<Rightarrow> Config \<Rightarrow> bool \<Rightarrow> system \<Rightarrow> bool" where
  "sys_start W c recoverable s \<longleftrightarrow> (\<exists>t1 t2 store b. (store = None \<or> store = Some NoData)
     \<and> New W t1 t2 c False store = Inr b \<and> s = boot recoverable b)"

text \<open>The steps of a running process, and those of the system, which may also crash and start again.\<close>

inductive live_step :: "pblib \<Rightarrow> system \<Rightarrow> system \<Rightarrow> bool" for W where
  arrive: "proto_text e \<Longrightarrow> live_step W s (s\<lparr>sy_threads := sy_threads s @ [Received e]\<rparr>)"
| command: "i < length (sy_threads s) \<Longrightarrow> t = sy_threads s ! i \<Longrightarrow> sane_world wd \<Longrightarrow>
    advance W wd t (sy_alloc s) = Some (b, t') \<Longrightarrow>
    live_step W s (s\<lparr>sy_alloc := b, sy_threads := map (wake t) ((sy_threads s)[i := t'])\<rparr>)"
| background: "sane_world wd \<Longrightarrow> work W wd (sy_worker s) (sy_alloc s) = Some (b, w) \<Longrightarrow>
    live_step W s (s\<lparr>sy_alloc := b, sy_worker := w\<rparr>)"
| completion: "zero_time < now \<Longrightarrow> live_step W s
    (s\<lparr>sy_alloc := fst (completionReporter x now sv outcome (sy_alloc s))\<rparr>)"
| tunnel_open: "live_step W s (s\<lparr>sy_alloc := fst (openSession_open x key (sy_alloc s))\<rparr>)"
| tunnel_recheck: "live_step W s (s\<lparr>sy_alloc := fst (openSession_recheck x session (sy_alloc s))\<rparr>)"
| tunnel_close: "live_step W s (s\<lparr>sy_alloc := CloseTunnel session (sy_alloc s)\<rparr>)"
| expiry: "live_step W s (s\<lparr>sy_alloc := fst (SweepExpired W now sv (sy_alloc s))\<rparr>)"
| availability: "live_step W s (s\<lparr>sy_alloc := fst (Available W now class (sy_alloc s))\<rparr>)"

inductive sys_step :: "pblib \<Rightarrow> Config \<Rightarrow> bool \<Rightarrow> system \<Rightarrow> system \<Rightarrow> bool" for W c recoverable where
  live: "live_step W s s' \<Longrightarrow> sys_step W c recoverable s s'"
| restart: "New W t1 t2 c False (stored_of (al_store (sy_alloc s))) = Inr b \<Longrightarrow>
    sys_step W c recoverable s (boot recoverable b)"

section \<open>Configuration and store\<close>

definition accepts :: "Config \<Rightarrow> capacityLedger \<Rightarrow> bool" where
  "accepts c cap \<longleftrightarrow> newCapacityLedger (cf_Capacity c) = Inr cap \<and> 2 \<le> defaulted (cf_MaxRecords c) DefaultMaxRecords
     \<and> 0 \<le> defaulted (cf_ReplayCapacity c) defaultReplayCapacity
     \<and> (\<forall>W t1 t2 store. New W t1 t2 c False store = loadLocked W t1 t2 store (empty_allocator c cap store))"

definition configured :: "Config \<Rightarrow> Allocator \<Rightarrow> bool" where
  "configured c a \<longleftrightarrow> (\<exists>cap. accepts c cap \<and> config_same (empty_allocator c cap None) a)"

definition store_ok :: "Config \<Rightarrow> persistedState option option \<Rightarrow> bool" where
  "store_ok c st \<longleftrightarrow> (\<forall>p. st = Some (Some p) \<longrightarrow> (\<exists>a. alloc_ok a \<and> configured c a \<and> p = persisted_snapshot a))"

lemma New_accepts:
  assumes "New W t1 t2 c False store = Inr b"
  shows "\<exists>cap. accepts c cap \<and> loadLocked W t1 t2 store (empty_allocator c cap store) = Inr b"
  using assms by (auto simp: New_def accepts_def split: sum.splits if_splits option.splits)

lemma alloc_ok_empty:
  assumes "accepts c cap"
  shows "alloc_ok (empty_allocator c cap store)"
  using assms new_ledger_tracks[of "cf_Capacity c" cap]
  by (simp add: accepts_def alloc_ok_def empty_allocator_def core_ok_def holders_def cache_ok_def newReplayCache_def
      registry_ok_new dead_ok_def budget_ok_def)

lemma config_empty [simp]: "config_same (empty_allocator c cap st) (empty_allocator c cap st')"
  by (simp add: config_same_def empty_allocator_def)

lemma config_same_trans: "config_same a b \<Longrightarrow> config_same b d \<Longrightarrow> config_same a d"
  by (simp add: config_same_def)

lemma configured_step: "configured c a \<Longrightarrow> evolution a b \<Longrightarrow> configured c b"
  using config_same_trans by (fastforce simp: configured_def evolution_def)

lemma store_ok_step: "store_ok c (al_store a) \<Longrightarrow> configured c a \<Longrightarrow> evolution a b \<Longrightarrow> alloc_ok b \<Longrightarrow> store_ok c (al_store b)"
  using configured_step[of c a b] by (fastforce simp: store_ok_def evolution_def)

lemma fresh_empty:
  assumes "accepts c cap" "config_same (empty_allocator c cap None) a"
  shows "fresh_for a (empty_allocator c cap st)"
  using assms new_ledger_tracks[of "cf_Capacity c" cap]
  by (simp add: accepts_def fresh_for_def config_same_def empty_allocator_def newReplayCache_def)

lemma config_restored: "config_same b ((restored W t1 t2 a b)\<lparr>al_capacity := l\<rparr>) \<longleftrightarrow> limits l = limits (al_capacity b)"
  by (simp add: config_same_def restored_def)

text \<open>A restart from the snapshot of a state that satisfies the invariant always succeeds.\<close>

lemma New_snapshot:
  assumes ok: "alloc_ok a" and cfg: "configured c a"
  shows "\<exists>cap l. let e = empty_allocator c cap (Some (Stored (persisted_snapshot a))); b = (restored W t1 t2 a e)\<lparr>al_capacity := l\<rparr>
     in accepts c cap \<and> New W t1 t2 c False (Some (Stored (persisted_snapshot a))) = Inr b \<and> alloc_ok b \<and> configured c b"
proof -
  obtain cap where cap: "accepts c cap" "config_same (empty_allocator c cap None) a" using cfg by (auto simp: configured_def)
  let ?e = "empty_allocator c cap (Some (Stored (persisted_snapshot a)))"
  from alloc_ok_restored[OF ok fresh_empty[OF cap]] obtain l where
    l: "load_state W t1 t2 (json_state (persisted_snapshot a)) ?e = Inr ((restored W t1 t2 a ?e)\<lparr>al_capacity := l\<rparr>)"
      "alloc_ok ((restored W t1 t2 a ?e)\<lparr>al_capacity := l\<rparr>)" "limits l = limits (al_capacity a)" by blast
  have "limits l = limits (al_capacity ?e)" using l(3) cap(2) by (simp add: config_same_def empty_allocator_def)
  then have "config_same ?e ((restored W t1 t2 a ?e)\<lparr>al_capacity := l\<rparr>)" by (simp add: config_restored)
  then have "configured c ((restored W t1 t2 a ?e)\<lparr>al_capacity := l\<rparr>)"
    using cap(1) config_same_trans[OF config_empty] by (auto simp: configured_def)
  moreover have "New W t1 t2 c False (Some (Stored (persisted_snapshot a))) = Inr ((restored W t1 t2 a ?e)\<lparr>al_capacity := l\<rparr>)"
    using cap(1) l(1) by (simp add: accepts_def loadLocked_def)
  ultimately show ?thesis using cap(1) l(2) unfolding Let_def by blast
qed

section \<open>The invariant\<close>

definition exclusive :: "thread list \<Rightarrow> bool" where
  "exclusive ts \<longleftrightarrow> (\<forall>i<length ts. \<forall>j<length ts. i \<noteq> j \<longrightarrow> owned (ts ! i) \<noteq> None \<longrightarrow> owned (ts ! i) \<noteq> owned (ts ! j))"

definition sys_ok :: "pblib \<Rightarrow> Config \<Rightarrow> system \<Rightarrow> bool" where
  "sys_ok W c s \<longleftrightarrow> alloc_ok (sy_alloc s) \<and> configured c (sy_alloc s) \<and> store_ok c (al_store (sy_alloc s))
     \<and> (\<forall>t\<in>set (sy_threads s). thread_ok W (sy_alloc s) t) \<and> exclusive (sy_threads s) \<and> worker_ok (sy_alloc s) (sy_worker s)
     \<and> (\<forall>k. flying (sy_alloc s) k \<longrightarrow> (\<exists>t\<in>set (sy_threads s). owned t = Some k))"

lemma exclusive_update:
  assumes ex: "exclusive ts" and new: "\<And>j. j < length ts \<Longrightarrow> j \<noteq> i \<Longrightarrow> owned t \<noteq> None \<Longrightarrow> owned t \<noteq> owned (ts ! j)"
  shows "exclusive (ts[i := t])"
  unfolding exclusive_def
proof (intro allI impI)
  fix m n assume mn: "m < length (ts[i := t])" "n < length (ts[i := t])" "m \<noteq> n" and o: "owned (ts[i := t] ! m) \<noteq> None"
  consider "m = i" | "n = i" "m \<noteq> i" | "m \<noteq> i" "n \<noteq> i" by blast
  then show "owned (ts[i := t] ! m) \<noteq> owned (ts[i := t] ! n)"
  proof cases
    case 1
    then show ?thesis using mn o new[of n] by simp
  next
    case 2
    then have "owned (ts[i := t] ! m) = owned (ts ! m)" "owned (ts[i := t] ! n) = owned t" "m < length ts" using mn by simp_all
    then show ?thesis using o new[of m] 2(2) by metis
  next
    case 3
    then show ?thesis using mn o ex by (simp add: exclusive_def)
  qed
qed

lemma wake_owned [simp]: "owned (wake t u) = owned u"
  by (induction t u rule: wake.induct) simp_all

lemma wake_ok [simp]: "thread_ok W a u \<Longrightarrow> thread_ok W a (wake t u)"
  by (induction t u rule: wake.induct) simp_all

lemma owned_flight: "thread_ok W a t \<Longrightarrow> owned t = Some k \<Longrightarrow> \<exists>e. in_flight (al_replay a) k e"
  by (cases t) (auto simp: runs_def)

lemma worker_ok_start [simp]: "worker_ok a (recover_start recoverable b)"
  by (simp add: recover_start_def)

lemma sys_ok_section:
  assumes ok: "sys_ok W c s" and b: "alloc_ok b" "section_step (sy_alloc s) b"
  shows "sys_ok W c (s\<lparr>sy_alloc := b\<rparr>)"
proof -
  note ev = evolution_undisturbed[OF undisturbed_section[OF b(2), of None]]
  have "al_tombstones b = al_tombstones (sy_alloc s)" using b(2) by (simp add: section_step_def frame_def)
  note wk = worker_ok_tombstones[OF this]
  show ?thesis using ok b(1) configured_step[OF _ ev] store_ok_step[OF _ _ ev] thread_ok_section[OF b(2)] wk section_flying[OF b(2)]
    by (simp add: sys_ok_def)
qed

lemma sys_ok_command:
  assumes ok: "sys_ok W c s" and i: "i < length (sy_threads s)" "t = sy_threads s ! i"
    and b: "advances W (sy_alloc s) t b t'"
  shows "sys_ok W c (s\<lparr>sy_alloc := b, sy_threads := map (wake t) ((sy_threads s)[i := t'])\<rparr>)"
proof -
  let ?ts = "sy_threads s" and ?a = "sy_alloc s"
  let ?us = "?ts[i := t']"
  have th: "thread_ok W ?a (?ts ! j)" if "j < length ?ts" for j using ok that by (simp add: sys_ok_def)
  have ex: "owned (?ts ! j) = None \<or> owned (?ts ! j) \<noteq> owned t" if "j < length ?ts" "j \<noteq> i" for j
    using ok that i unfolding sys_ok_def exclusive_def by metis
  have un: "undisturbed (releases t) ?a b" using b by (simp add: advances_def)
  note ev = evolution_undisturbed[OF un]
  have new: "thread_ok W b (map (wake t) ?us ! j)" if "j < length ?ts" for j
  proof (cases "j = i")
    case True
    then show ?thesis using b that by (simp add: advances_def)
  next
    case False
    then have u: "map (wake t) ?us ! j = wake t (?ts ! j)" using that by simp
    show ?thesis
    proof (cases "needs (?ts ! j) \<noteq> None \<and> needs (?ts ! j) = releases t")
      case True
      then show ?thesis using ex[OF that False] unfolding u by (cases t; cases "?ts ! j") auto
    next
      case free: False
      then have "thread_ok W b (?ts ! j)" using thread_ok_undisturbed[OF un th[OF that]] by auto
      then show ?thesis unfolding u by (rule wake_ok)
    qed
  qed
  have fresh: "owned t' \<noteq> owned (?ts ! j)" if "j < length ?ts" "j \<noteq> i" "owned t' \<noteq> None" for j
    using b ex[OF that(1,2)] that(3) owned_flight[OF th[OF that(1)]] by (auto simp: advances_def)
  have "exclusive ?us" using ok fresh by (intro exclusive_update) (auto simp: sys_ok_def)
  then have "exclusive (map (wake t) ?us)" by (simp add: exclusive_def)
  moreover have "\<forall>u\<in>set (map (wake t) ?us). thread_ok W b u" unfolding set_conv_nth using new by fastforce
  moreover have "worker_ok b w = worker_ok ?a w" for w using un by (intro worker_ok_tombstones) (simp add: undisturbed_def)
  moreover have "\<exists>u\<in>set (map (wake t) ?us). owned u = Some k" if "flying b k" for k
  proof -
    have "owned t' = Some k \<or> owned t \<noteq> Some k \<and> flying ?a k" using b that by (simp add: advances_def)
    moreover have "\<exists>j<length ?ts. owned (?ts ! j) = Some k" if "flying ?a k"
      using ok that unfolding sys_ok_def by (metis in_set_conv_nth)
    ultimately obtain j where "j < length ?ts" "owned (map (wake t) ?us ! j) = Some k"
      using i by (metis length_list_update nth_list_update_eq nth_list_update_neq nth_map wake_owned)
    then show ?thesis by (metis length_list_update length_map nth_mem)
  qed
  ultimately show ?thesis using ok b configured_step[OF _ ev] store_ok_step[OF _ _ ev]
    by (simp add: sys_ok_def advances_def)
qed

lemma sys_ok_background:
  assumes ok: "sys_ok W c s" and b: "works W (sy_alloc s) (Some (b, w))"
  shows "sys_ok W c (s\<lparr>sy_alloc := b, sy_worker := w\<rparr>)"
proof -
  have ev: "evolution (sy_alloc s) b" using b by (simp add: works_def)
  show ?thesis using assms configured_step[OF _ ev] store_ok_step[OF _ _ ev] by (simp add: sys_ok_def works_def)
qed

lemma configured_empty: "accepts c cap \<Longrightarrow> configured c (empty_allocator c cap st)"
  unfolding configured_def using config_empty by blast

lemma sys_ok_boot:
  "alloc_ok b \<Longrightarrow> configured c b \<Longrightarrow> store_ok c (al_store b) \<Longrightarrow> (\<And>k. \<not> flying b k) \<Longrightarrow> sys_ok W c (boot recoverable b)"
  by (simp add: sys_ok_def boot_def exclusive_def)

text \<open>Nothing is in flight after a start: only completed entries are restored.\<close>

lemma not_flying_empty [simp]: "\<not> flying (empty_allocator c cap st) k"
  by (simp add: flying_def in_flight_def empty_allocator_def newReplayCache_def)

lemma json_keys_values: "map_of (json_keys m) k = Some v \<Longrightarrow> v \<in> snd ` set m"
proof -
  have "map_of (foldl (\<lambda>m (k, v). map_put (json_string k) v m) acc m) k = Some v \<Longrightarrow> map_of acc k = Some v \<or> v \<in> snd ` set m" for acc
  proof (induction m arbitrary: acc)
    case (Cons kv m)
    obtain k0 v0 where kv: "kv = (k0, v0)" by force
    from Cons.IH[of "map_put (json_string k0) v0 acc"] Cons.prems kv show ?case by (auto split: if_splits)
  qed simp
  from this[of "[]"] show "map_of (json_keys m) k = Some v \<Longrightarrow> v \<in> snd ` set m" by (simp add: json_keys_def)
qed

lemma not_flying_restored: "\<not> flying ((restored W t1 t2 a b)\<lparr>al_capacity := l\<rparr>) k"
  unfolding flying_def in_flight_def restored_def reload_entries_def
  by (auto simp: reload_entry_def dest!: json_keys_values)

lemma sys_ok_start:
  assumes "sys_start W c recoverable s"
  shows "sys_ok W c s"
proof -
  obtain t1 t2 store b where st: "store = None \<or> store = Some NoData" and n: "New W t1 t2 c False store = Inr b"
    and s: "s = boot recoverable b" using assms by (auto simp: sys_start_def)
  obtain cap where cap: "accepts c cap" "loadLocked W t1 t2 store (empty_allocator c cap store) = Inr b"
    using New_accepts[OF n] by blast
  then have b: "b = empty_allocator c cap store" using st by (auto simp: loadLocked_def)
  have "store_ok c (al_store b)" using b st by (auto simp: store_ok_def empty_allocator_def kept_def)
  then show ?thesis using s b alloc_ok_empty[OF cap(1)] configured_empty[OF cap(1)] by (simp add: sys_ok_boot)
qed

lemma sys_ok_restart:
  assumes ok: "sys_ok W c s" and n: "New W t1 t2 c False (stored_of (al_store (sy_alloc s))) = Inr b"
  shows "sys_ok W c (boot recoverable b)"
proof (cases "al_store (sy_alloc s)")
  case None
  then have "sys_start W c recoverable (boot recoverable b)" using n unfolding sys_start_def stored_of_def by auto
  then show ?thesis by (rule sys_ok_start)
next
  case (Some st)
  show ?thesis
  proof (cases st)
    case None
    then have "sys_start W c recoverable (boot recoverable b)" using Some n unfolding sys_start_def stored_of_def by auto
    then show ?thesis by (rule sys_ok_start)
  next
    case p: (Some p)
    then obtain a where a: "alloc_ok a" "configured c a" "p = persisted_snapshot a"
      using ok Some by (auto simp: sys_ok_def store_ok_def)
    have st: "stored_of (al_store (sy_alloc s)) = Some (Stored (persisted_snapshot a))" using Some p a by (simp add: stored_of_def)
    from New_snapshot[OF a(1,2), of W t1 t2] n[unfolded st] obtain cap l where b: "alloc_ok b" "configured c b"
      "b = (restored W t1 t2 a (empty_allocator c cap (Some (Stored p))))\<lparr>al_capacity := l\<rparr>"
      by (auto simp: Let_def a(3))
    have "al_store b = Some (Some p)" by (simp add: b(3) restored_def empty_allocator_def kept_def)
    then have "store_ok c (al_store b)" using a by (auto simp: store_ok_def)
    moreover have "\<not> flying b k" for k unfolding b(3) by (rule not_flying_restored)
    ultimately show ?thesis using b(1,2) by (intro sys_ok_boot)
  qed
qed

lemma sys_ok_live:
  assumes "sys_ok W c s" "live_step W s s'"
  shows "sys_ok W c s'"
proof -
  have ok: "alloc_ok (sy_alloc s)" using assms(1) by (simp add: sys_ok_def)
  from assms(2) show ?thesis
  proof cases
    case (command i t wd b t')
    have "thread_ok W (sy_alloc s) t" using assms(1) command by (simp add: sys_ok_def)
    from advance_total[OF ok this command(4)] command have "advances W (sy_alloc s) t b t'" by simp
    then show ?thesis using sys_ok_command[OF assms(1) command(2,3)] command(1) by simp
  next
    case (background wd b w)
    have "worker_ok (sy_alloc s) (sy_worker s)" using assms(1) by (simp add: sys_ok_def)
    from work_total[OF ok this background(2), of W] background show ?thesis using sys_ok_background[OF assms(1)] by simp
  next
    case (arrive e)
    then show ?thesis using assms(1) by (auto simp: sys_ok_def exclusive_def nth_append)
  next
    case (completion now x sv outcome)
    then show ?thesis using sys_ok_section[OF assms(1) alloc_ok_completionReporter[OF ok] completionReporter_step] by simp
  next
    case (tunnel_open x key)
    then show ?thesis using sys_ok_section[OF assms(1) alloc_ok_tunnel_sections(2)[OF ok] tunnel_sections_step(2)] by simp
  next
    case (tunnel_recheck x session)
    then show ?thesis using sys_ok_section[OF assms(1) alloc_ok_tunnel_sections(3)[OF ok] tunnel_sections_step(3)] by simp
  next
    case (tunnel_close session)
    then show ?thesis using sys_ok_section[OF assms(1) alloc_ok_tunnel_sections(4)[OF ok] tunnel_sections_step(4)] by simp
  next
    case (expiry now sv)
    then show ?thesis using sys_ok_section[OF assms(1) alloc_ok_views(1)[OF ok] views_step(1)] by simp
  next
    case (availability now cls)
    then show ?thesis using sys_ok_section[OF assms(1) alloc_ok_views(2)[OF ok] views_step(2)] by simp
  qed
qed

lemma sys_ok_step:
  assumes "sys_ok W c s" "sys_step W c recoverable s s'"
  shows "sys_ok W c s'"
  using assms(2)
proof cases
  case live
  then show ?thesis using sys_ok_live[OF assms(1)] by simp
next
  case (restart t1 t2 b)
  then show ?thesis using sys_ok_restart[OF assms(1)] by simp
qed

interpretation allocator_system: inductive_invariant "sys_start W c recoverable" "sys_step W c recoverable" "sys_ok W c"
  for W c recoverable
  by unfold_locales (auto intro: sys_ok_start sys_ok_step)

end
