(* ===== verification/Alloc_Demo.thy ===== *)
theory Alloc_Demo
  imports Alloc_System
begin

text \<open>
  A concrete run of the allocator: one client requests a slot, assigns the offer it gets, and the workload starts.
  Its states are reachable states of the system and serve as instances of the system's properties.
\<close>

section \<open>Running one command\<close>

text \<open>The last command of a system advances, one world per section.\<close>

fun drive :: "pblib \<Rightarrow> world list \<Rightarrow> system \<Rightarrow> system option" where
  "drive W [] s = Some s"
| "drive W (wd # wds) s = (case sy_threads s of [] \<Rightarrow> None | _ \<Rightarrow>
     (let i = length (sy_threads s) - 1; t = sy_threads s ! i in
      if \<not> sane_world wd then None
      else (case advance W wd t (sy_alloc s) of
         None \<Rightarrow> None
       | Some (b, t') \<Rightarrow> drive W wds (s\<lparr>sy_alloc := b, sy_threads := map (wake t) ((sy_threads s)[i := t'])\<rparr>))))"

lemma drive_steps: "drive W wds s = Some s' \<Longrightarrow> (live_step W)\<^sup>*\<^sup>* s s'"
proof (induction W wds s rule: drive.induct)
  case (2 W wd wds s)
  let ?i = "length (sy_threads s) - 1"
  let ?t = "sy_threads s ! ?i"
  have ne: "sy_threads s \<noteq> []" using "2.prems" by (auto split: list.splits)
  obtain t0 ts0 where ts: "sy_threads s = t0 # ts0" using ne by (cases "sy_threads s") auto
  have sane: "sane_world wd" using "2.prems" ts by (auto simp: Let_def split: if_splits)
  then obtain b t' where b: "advance W wd ?t (sy_alloc s) = Some (b, t')"
    and rest: "drive W wds (s\<lparr>sy_alloc := b, sy_threads := map (wake ?t) ((sy_threads s)[?i := t'])\<rparr>) = Some s'"
    using "2.prems" ts by (auto simp: Let_def split: option.splits)
  have "live_step W s (s\<lparr>sy_alloc := b, sy_threads := map (wake ?t) ((sy_threads s)[?i := t'])\<rparr>)"
    using live_step.command[OF _ refl sane b] ne by simp
  moreover have "(live_step W)\<^sup>*\<^sup>* (s\<lparr>sy_alloc := b, sy_threads := map (wake ?t) ((sy_threads s)[?i := t'])\<rparr>) s'"
    using "2.IH"[OF ts refl refl _ b refl rest] sane by simp
  ultimately show ?case by (rule converse_rtranclp_into_rtranclp)
qed simp

lemma reach_steps: "reach start step s \<Longrightarrow> step\<^sup>*\<^sup>* s s' \<Longrightarrow> reach start step s'"
  by (rotate_tac, induction rule: rtranclp_induct) (auto intro: reach_step)

lemma reach_live:
  assumes "reach start (sys_step W c rc) s" "(live_step W)\<^sup>*\<^sup>* s s'"
  shows "reach start (sys_step W c rc) s'"
  using assms(2,1) by (induction rule: rtranclp_induct) (auto intro: reach_step sys_step.live)

section \<open>The run\<close>

definition demo_config :: Config where
  "demo_config = \<lparr>cf_MaxRecords = 0, cf_Retention = 0, cf_Identity = [1], cf_Capacity = [(''s'', 1)], cf_OfferTTL = 0,
     cf_LeaseTTL = 0, cf_ReplayTTL = 0, cf_ReplayCapacity = 0,
     cf_Admission = \<lparr>ap_Profiles = [], ap_AllowedClients = None, ap_DefaultQuota = \<lparr>q_Offers = 0, q_Executions = 0\<rparr>,
       ap_ClientQuotas = []\<rparr>,
     cf_Tunnel = \<lparr>tc_Enabled = False, tc_Endpoint = \<lparr>ep_Address = [], ep_PubKey = []\<rparr>\<rparr>, cf_Node = None\<rparr>"

definition demo_client :: bytes where "demo_client = [7]"

definition demo_command :: "string \<Rightarrow> Envelope_Payload \<Rightarrow> Envelope" where
  "demo_command m p = \<lparr>message_id = m, sender = demo_client, correlation_id = [], sent_at = Some \<lparr>ts_seconds = 0, ts_nanos = 0\<rparr>,
     payload = Some p\<rparr>"

definition demo_query :: ExecutionRequest where
  "demo_query = \<lparr>rq_request_id = ''r'',
     rq_workload = Some \<lparr>wl_image = ''i'', wl_command = [], wl_args = [], wl_environment = [], wl_working_directory = []\<rparr>,
     rq_policy = Some ExecutionPolicy, rq_resource_class = ''s'', rq_constraints = None,
     rq_run_id = replicate 32 CHR ''0'', rq_attempt = 1\<rparr>"

definition demo_request :: Envelope where
  "demo_request = demo_command ''m'' (Envelope_ExecutionRequest (Some demo_query))"

definition demo_assign :: Envelope where
  "demo_assign = demo_command ''n'' (Envelope_ExecutionAssign (Some \<lparr>as_request_id = ''r'', as_offer_id = ''o'',
     as_execution_id = ''x''\<rparr>))"

definition demo_world :: world where
  "demo_world = \<lparr>wd_now = 1000, wd_now2 = 1000, wd_id1 = ''o'', wd_id2 = ''p'', wd_save = None, wd_answer = None, wd_logs = None\<rparr>"

definition demo_start :: system where
  "demo_start = boot True (empty_allocator demo_config \<lparr>limits = [(''s'', 1)], used = []\<rparr> (Some NoData))"

definition demo_offered :: system where
  "demo_offered = (case drive pb_doc (replicate 4 demo_world) (demo_start\<lparr>sy_threads := [Received demo_request]\<rparr>) of
     Some s \<Rightarrow> s | None \<Rightarrow> demo_start)"

definition demo_running :: system where
  "demo_running = (case drive pb_doc (replicate 5 demo_world)
       (demo_offered\<lparr>sy_threads := sy_threads demo_offered @ [Received demo_assign]\<rparr>) of
     Some s \<Rightarrow> s | None \<Rightarrow> demo_start)"

lemma demo_New: "New pb_doc 1 1 demo_config False (Some NoData)
    = Inr (empty_allocator demo_config \<lparr>limits = [(''s'', 1)], used = []\<rparr> (Some NoData))"
  by code_simp

abbreviation demo_reach :: "system \<Rightarrow> bool" where
  "demo_reach \<equiv> reach (sys_start pb_doc demo_config True) (sys_step pb_doc demo_config True)"

lemma demo_start_reach: "demo_reach demo_start"
proof (rule reach_start)
  show "sys_start pb_doc demo_config True demo_start"
    unfolding sys_start_def demo_start_def using demo_New by blast
qed

lemma demo_arrive:
  assumes "demo_reach s" "proto_text e" "drive pb_doc wds (s\<lparr>sy_threads := sy_threads s @ [Received e]\<rparr>) = Some s'"
  shows "demo_reach s'"
proof -
  have "demo_reach (s\<lparr>sy_threads := sy_threads s @ [Received e]\<rparr>)"
    using reach_step[OF assms(1) sys_step.live[OF live_step.arrive[OF assms(2)]]] .
  from reach_live[OF this drive_steps[OF assms(3)]] show ?thesis .
qed

lemma demo_texts: "proto_text demo_request" "proto_text demo_assign"
  by code_simp+

lemma demo_offered_run: "drive pb_doc (replicate 4 demo_world) (demo_start\<lparr>sy_threads := [Received demo_request]\<rparr>) = Some demo_offered"
proof -
  have "drive pb_doc (replicate 4 demo_world) (demo_start\<lparr>sy_threads := [Received demo_request]\<rparr>) \<noteq> None" by code_simp
  then show ?thesis by (auto simp: demo_offered_def)
qed

lemma demo_offered_reach: "demo_reach demo_offered"
  using demo_arrive[OF demo_start_reach demo_texts(1), of "replicate 4 demo_world"] demo_offered_run
  by (simp add: demo_start_def boot_def)

lemma demo_running_run: "drive pb_doc (replicate 5 demo_world)
    (demo_offered\<lparr>sy_threads := sy_threads demo_offered @ [Received demo_assign]\<rparr>) = Some demo_running"
proof -
  have "drive pb_doc (replicate 5 demo_world)
    (demo_offered\<lparr>sy_threads := sy_threads demo_offered @ [Received demo_assign]\<rparr>) \<noteq> None" by code_simp
  then show ?thesis by (auto simp: demo_running_def)
qed

lemma demo_running_reach: "demo_reach demo_running"
  using demo_arrive[OF demo_offered_reach demo_texts(2) demo_running_run] .

lemma demo_running_exec:
  "map_option er_phase (map_of (al_executions (sy_alloc demo_running)) ''x'') = Some EXECUTION_PHASE_RUNNING"
  by code_simp

end
