(* ===== verification/Alloc_Access.thy ===== *)
theory Alloc_Access
  imports Alloc_Demo
begin

text \<open>
  Access: what a command can do to the executions of other clients, and what it can read.  The lemmas go through the
  sections of a command; each touches at most the execution it names, and only when that belongs to its sender.
\<close>

section \<open>Executions of other clients\<close>

definition others_kept :: "bytes \<Rightarrow> Allocator \<Rightarrow> Allocator \<Rightarrow> bool" where
  "others_kept c a b \<longleftrightarrow> (\<forall>x r. map_of (al_executions a) x = Some r \<longrightarrow> er_client r \<noteq> c \<longrightarrow> map_of (al_executions b) x = Some r)"

lemma others_same: "al_executions b = al_executions a \<Longrightarrow> others_kept c a b"
  by (simp add: others_kept_def)

lemma others_put:
  "al_executions b = map_put x r' (al_executions a) \<Longrightarrow>
   (\<And>r. map_of (al_executions a) x = Some r \<Longrightarrow> er_client r = c) \<Longrightarrow> others_kept c a b"
  by (auto simp: others_kept_def)

lemma issueOffer_executions: "al_executions (fst (issueOffer W now id1 id2 sv env req a)) = al_executions a"
  by (subst issueOffer_cases) (simp add: withdraw_def offer_state_def)

lemma handleRequest_executions: "al_executions (fst (handleRequest W now id1 id2 sv env req a)) = al_executions a"
  using issueOffer_executions by (simp add: handleRequest_def Let_def split: option.split)

lemma assignOffer_executions:
  "al_executions (fst (assignOffer now sv x i o1 a)) = al_executions a
   \<or> (\<exists>r. al_executions (fst (assignOffer now sv x i o1 a)) = map_put x r (al_executions a))
   \<or> (\<exists>r. al_executions (fst (assignOffer now sv x i o1 a)) = map_delete x (map_put x r (al_executions a)))"
proof -
  define a1 where "a1 = a\<lparr>al_offers := map_put i (o1\<lparr>or_status := offerAssigned, or_execution := x\<rparr>) (al_offers a),
      al_executions := map_put x (new_execution now x o1 a) (al_executions a)\<rparr>"
  have ex: "al_executions a1 = map_put x (new_execution now x o1 a) (al_executions a)" by (simp add: a1_def)
  show ?thesis using ex
    by (cases rule: persist_cases[of sv a1]) (auto simp: assignOffer_def Let_def a1_def[symmetric])
qed

lemma handleAssign_begin_others: "others_kept c a (fst (handleAssign_begin W now mid sv e q a))"
proof -
  let ?a = "fst (expireOffersLocked W now a)"
  have same: "others_kept c a ?a" by (rule others_same) simp
  have new: "others_kept c a (fst (assignOffer now sv x i o1 ?a))" if "map_of (al_executions a) x = None" for x i o1
    using assignOffer_executions[of now sv x i o1 ?a] that by (auto simp: others_kept_def)
  show ?thesis using same new
    by (auto simp: handleAssign_begin_def Let_def split: option.splits if_splits)
qed

lemma handleCancel_begin_others: "others_kept (sender e) a (fst (handleCancel_begin W now mid sv e q a))"
proof (cases "map_of (al_executions a) (ca_execution_id q)")
  case None
  then show ?thesis by (simp add: handleCancel_begin_def others_same)
next
  case (Some r)
  define a1 where "a1 = a\<lparr>al_executions := map_put (ca_execution_id q) (mark_cancelling (ca_reason q) now r) (al_executions a)\<rparr>"
  have ex: "al_executions a1 = map_put (ca_execution_id q) (mark_cancelling (ca_reason q) now r) (al_executions a)" by (simp add: a1_def)
  show ?thesis
  proof (cases "er_client r = sender e")
    case True
    then have put: "others_kept (sender e) a b" if "al_executions b = al_executions a \<or> (\<exists>r'. al_executions b = map_put (ca_execution_id q) r' (al_executions a))" for b
      using that Some by (auto simp: others_kept_def)
    show ?thesis using Some True ex
      by (intro put, cases rule: persist_cases[of sv a1]) (auto simp: handleCancel_begin_def Let_def a1_def[symmetric])
  qed (use Some in \<open>simp add: handleCancel_begin_def others_same\<close>)
qed

lemma handleLeaseRenew_others: "others_kept (sender e) a (fst (handleLeaseRenew W now mid sv e q a))"
proof (cases "map_of (al_executions a) (rn_execution_id q)")
  case None
  then show ?thesis by (simp add: handleLeaseRenew_def others_same)
next
  case (Some r)
  show ?thesis
  proof (cases "er_client r = sender e")
    case True
    then have put: "others_kept (sender e) a b" if "al_executions b = al_executions a \<or> (\<exists>r'. al_executions b = map_put (rn_execution_id q) r' (al_executions a))" for b
      using that Some by (auto simp: others_kept_def)
    define d where "d = (case rn_lease_duration q of None \<Rightarrow> pd_AsDuration W \<lparr>pd_seconds = 0, pd_nanos = 0\<rparr> | Some d \<Rightarrow> pd_AsDuration W d)"
    define a1 where "a1 = a\<lparr>al_executions := map_put (rn_execution_id q) (r\<lparr>er_leaseUntil := now + d\<rparr>) (al_executions a)\<rparr>"
    have ex: "al_executions a1 = map_put (rn_execution_id q) (r\<lparr>er_leaseUntil := now + d\<rparr>) (al_executions a)" by (simp add: a1_def)
    show ?thesis
    proof (cases "Terminal (er_phase r) \<or> er_phase r = EXECUTION_PHASE_CANCELLING \<or> d > maxLeaseTTL")
      case True
      then show ?thesis using Some \<open>er_client r = sender e\<close>
        by (intro others_same) (auto simp: handleLeaseRenew_def Let_def d_def[symmetric])
    next
      case False
      then have "fst (handleLeaseRenew W now mid sv e q a) = (case persistLocked sv a1 of
          (a2, Some x) \<Rightarrow> a2\<lparr>al_executions := map_put (rn_execution_id q) r (al_executions a2)\<rparr> | (a2, None) \<Rightarrow> a2)"
        using Some True by (simp add: handleLeaseRenew_def Let_def d_def[symmetric] a1_def[symmetric] prod.case_eq_if split: option.split)
      then show ?thesis using ex by (intro put, cases rule: persist_cases[of sv a1]) auto
    qed
  qed (use Some in \<open>simp add: handleLeaseRenew_def others_same\<close>)
qed

lemma beginReplay_executions: "al_executions (fst (beginReplay W key e now sv a)) = al_executions a"
proof -
  obtain c e1 d1 where c: "begin_replay W key e now (al_replay a) = (c, e1, d1)" by (metis surj_pair)
  define b1 where "b1 = (fst (expireOffersLocked W now a))\<lparr>al_replay := c\<rparr>"
  have "al_executions b1 = al_executions a" by (simp add: b1_def)
  then show ?thesis unfolding beginReplay_cases[OF c b1_def]
    by (cases rule: persist_cases[of sv b1]; cases e1) simp_all
qed

lemma handleOfferRelease_executions: "al_executions (fst (handleOfferRelease W now mid sv e q a)) = al_executions a"
proof (cases "map_of (al_offers a) (rl_offer_id q)")
  case None
  then show ?thesis by (simp add: handleOfferRelease_def split: option.split)
next
  case (Some o1)
  show ?thesis unfolding handleOfferRelease_cases[OF Some] Let_def by (simp add: ended_state_def unended_def)
qed

lemma tunnel_bind_executions: "al_executions (fst (handleTunnelOpen_bind W now mid e q a)) = al_executions a"
  by (simp add: handleTunnelOpen_bind_def Let_def prod.case_eq_if split: sum.split option.split)

text \<open>\<open>touches x\<close>: at most the record of \<open>x\<close> is written.\<close>

definition touches :: "string \<Rightarrow> Allocator \<Rightarrow> Allocator \<Rightarrow> bool" where
  "touches x a b \<longleftrightarrow> al_executions b = al_executions a \<or> (\<exists>r. al_executions b = map_put x r (al_executions a))"

lemma touches_refl [simp]: "touches x a a"
  by (simp add: touches_def)

lemma touches_put [simp]: "touches x a (a\<lparr>al_executions := map_put x r (al_executions a)\<rparr>)"
  by (auto simp: touches_def)

lemma touches_finish [simp]: "touches x a (finishLocked x r p d c t a)"
  using finishLocked_exec[of x r p d c t a] unfolding touches_def by blast

lemma touches_persist [simp]: "touches x a (fst (persistLocked sv b)) = touches x a b"
  by (simp add: touches_def)

lemma touches_others: "touches x a b \<Longrightarrow> map_of (al_executions a) x = Some r \<Longrightarrow> er_client r = c \<Longrightarrow> others_kept c a b"
  by (auto simp: touches_def others_kept_def)

lemma assign_finish_touches: "handleAssign_finish W t1 t2 mid sv e x ans a = Some (b, rep) \<Longrightarrow> touches x a b"
  by (cases "map_of (al_executions a) x"; cases ans) (auto simp: handleAssign_finish_def Let_def prod.case_eq_if)

lemma cancel_finish_touches: "handleCancel_finish W t1 t2 mid sv e x p d reason ans a = Some (b, rep) \<Longrightarrow> touches x a b"
  by (cases "map_of (al_executions a) x"; cases ans) (auto simp: handleCancel_finish_def Let_def prod.case_eq_if)

fun envelope_of :: "thread \<Rightarrow> Envelope" where
  "envelope_of (Received e) = e"
| "envelope_of (ReadingLogs e q) = e"
| "envelope_of (Fresh e) = e"
| "envelope_of (Waiting key e) = e"
| "envelope_of (Woken e rs er) = e"
| "envelope_of (Begun key e) = e"
| "envelope_of (Starting key e q) = e"
| "envelope_of (Stopping key e q p d) = e"
| "envelope_of (Binding key e q) = e"
| "envelope_of (Replying key e rs er) = e"
| "envelope_of (Answered e rs er) = e"

lemma handle_others: "handle W wd key e a = Some (b, t') \<Longrightarrow> others_kept (sender e) a b"
  using handleRequest_executions[of W "wd_now wd" "wd_id1 wd" "wd_id2 wd" "wd_save wd" e]
    handleAssign_begin_others[of "sender e" a W "wd_now wd" "wd_id1 wd" "wd_save wd" e]
    handleCancel_begin_others[of e a W "wd_now wd" "wd_id1 wd" "wd_save wd"]
    handleOfferRelease_executions[of W "wd_now wd" "wd_id1 wd" "wd_save wd" e]
    handleLeaseRenew_others[of e a W "wd_now wd" "wd_id1 wd" "wd_save wd"]
  by (auto simp: handle_def Let_def prod.case_eq_if intro: others_same
      split: option.splits Envelope_Payload.splits assign_step.splits cancel_step.splits)

lemma advance_others:
  assumes th: "thread_ok W a t" and adv: "advance W wd t a = Some (b, t')"
  shows "others_kept (sender (envelope_of t)) a b"
proof (cases t)
  case (Received e)
  have "al_executions (fst (checkFreshness W (wd_now wd) e a)) = al_executions a"
    by (simp add: checkFreshness_def prod.case_eq_if Let_def)
  then show ?thesis using adv Received
    by (intro others_same) (auto simp: receive_def split: prod.splits option.splits Envelope_Payload.splits if_splits)
next
  case (Fresh e)
  have "b = fst (beginReplay W (replay_key e) e (wd_now wd) (wd_save wd) a)"
    using adv Fresh by (auto simp: enter_def split: prod.splits option.splits bool.splits if_splits)
  then show ?thesis using beginReplay_executions by (intro others_same) simp
next
  case (Begun key e)
  then show ?thesis using adv handle_others[of W wd key e a b t'] by simp
next
  case (Starting key e q)
  then obtain r where "map_of (al_executions a) (as_execution_id q) = Some r" "er_client r = sender e" using th by auto
  moreover have "touches (as_execution_id q) a b" using adv Starting by (auto split: option.splits dest: assign_finish_touches)
  ultimately show ?thesis using Starting touches_others by simp
next
  case (Stopping key e q p d)
  then obtain r where "map_of (al_executions a) (ca_execution_id q) = Some r" "er_client r = sender e" using th by auto
  moreover have "touches (ca_execution_id q) a b" using adv Stopping by (auto split: option.splits dest: cancel_finish_touches)
  ultimately show ?thesis using Stopping touches_others by simp
next
  case (Binding key e q)
  then show ?thesis using adv tunnel_bind_executions[of W "wd_now wd" "wd_id1 wd" e q a]
    by (intro others_same) (auto simp: prod.case_eq_if)
next
  case (Replying key e rs er)
  then show ?thesis using adv
    by (intro others_same) (auto simp: answer_def finishReplay_def prod.case_eq_if split: option.splits)
qed (use adv in \<open>auto intro!: others_same split: prod.splits option.splits\<close>)

section \<open>Properties\<close>

text \<open>C3: clients are isolated.  In every reachable state, no section of a command changes, creates over or removes an
  execution that belongs to another client than the command's sender.\<close>

theorem client_isolation:
  assumes "reach (sys_start W c rc) (sys_step W c rc) s" "t \<in> set (sy_threads s)"
    and "advance W wd t (sy_alloc s) = Some (b, t')"
    and "map_of (al_executions (sy_alloc s)) x = Some r" "er_client r \<noteq> sender (envelope_of t)"
  shows "map_of (al_executions b) x = Some r"
proof -
  have "thread_ok W (sy_alloc s) t" using allocator_system.reach_inv[OF assms(1)] assms(2) by (simp add: sys_ok_def)
  from advance_others[OF this assms(3)] assms(4,5) show ?thesis by (simp add: others_kept_def)
qed

definition demo_intruder :: system where
  "demo_intruder = demo_running\<lparr>sy_threads := sy_threads demo_running @ [Received (demo_assign\<lparr>sender := [8]\<rparr>)]\<rparr>"

theorem client_isolation_witness:
  "\<exists>b t' r. advance pb_doc demo_world (Received (demo_assign\<lparr>sender := [8]\<rparr>)) (sy_alloc demo_intruder) = Some (b, t')
     \<and> map_of (al_executions b) ''x'' = Some r \<and> er_client r = demo_client"
proof -
  have p: "proto_text (demo_assign\<lparr>sender := [8]\<rparr>)" by code_simp
  have "demo_reach demo_intruder" unfolding demo_intruder_def
    using reach_step[OF demo_running_reach sys_step.live[OF live_step.arrive[OF p]]] .
  note iso = client_isolation[OF this, of "Received (demo_assign\<lparr>sender := [8]\<rparr>)" demo_world]
  have "map_option er_client (map_of (al_executions (sy_alloc demo_intruder)) ''x'') = Some demo_client" by code_simp
  then obtain r where r: "map_of (al_executions (sy_alloc demo_intruder)) ''x'' = Some r" "er_client r = demo_client" by auto
  obtain b t' where b: "advance pb_doc demo_world (Received (demo_assign\<lparr>sender := [8]\<rparr>)) (sy_alloc demo_intruder) = Some (b, t')" by force
  have "demo_client \<noteq> [8]" by (simp add: demo_client_def)
  then show ?thesis using iso[OF _ b r(1)] r b by (simp add: demo_intruder_def)
qed

text \<open>C17: an execution is read only by the client it belongs to: an answered inspection or log request names an
  execution of its sender.\<close>

theorem only_owner_reads:
  "(snd (handleInspect W now mid e q a) = None \<longrightarrow>
     (\<exists>r. map_of (al_executions a) (in_execution_id q) = Some r \<and> er_client r = sender e))
   \<and> (snd (handleLogs W now mid logs e lq a) = None \<longrightarrow>
     (\<exists>r. map_of (al_executions a) (lq_execution_id lq) = Some r \<and> er_client r = sender e))"
  by (auto simp: handleInspect_def handleLogs_def fail_def Let_def split: option.splits sum.splits if_splits)

theorem only_owner_reads_witness:
  "let e = demo_command ''i'' (Envelope_ExecutionInspect (Some \<lparr>in_execution_id = ''x''\<rparr>)); a = sy_alloc demo_running in
   snd (handleInspect pb_doc 1 ''a'' e \<lparr>in_execution_id = ''x''\<rparr> a) = None
   \<and> (\<exists>r. map_of (al_executions a) ''x'' = Some r \<and> er_client r = sender e)"
proof -
  let ?e = "demo_command ''i'' (Envelope_ExecutionInspect (Some \<lparr>in_execution_id = ''x''\<rparr>))"
  have "snd (handleInspect pb_doc 1 ''a'' ?e \<lparr>in_execution_id = ''x''\<rparr> (sy_alloc demo_running)) = None" by code_simp
  then show ?thesis using only_owner_reads[of pb_doc 1 "''a''" ?e "\<lparr>in_execution_id = ''x''\<rparr>" "sy_alloc demo_running"]
    unfolding Let_def by simp
qed

end
