(* ===== verification/Alloc_Guarantees.thy ===== *)
theory Alloc_Guarantees
  imports Alloc_Access
begin

text \<open>
  What the single handlers and the background work guarantee to a client: nothing starts or stops before the decision
  is durable, an offer that was sent is durable, leases are bounded, collected executions stay dead, eviction ends,
  a failed sweep changes nothing, and which duplicates a restart forgets.
\<close>

section \<open>Durability\<close>

lemma saved_snapshot:
  "persistLocked sv a = (b, None) \<Longrightarrow> al_store a \<noteq> None \<Longrightarrow>
     al_store b = Some (Some (persisted_snapshot b)) \<and> al_executions b = al_executions a \<and> al_offers b = al_offers a"
  using persistLocked_ok[of sv a b] by (auto simp: persisted_snapshot_def)

lemma assignOffer_start:
  assumes "assignOffer now sv x i o1 a = (b, AssignStart req)"
  shows "\<exists>a1. persistLocked sv a1 = (b, None) \<and> al_store a1 = al_store a
     \<and> map_of (al_executions a1) x = Some (new_execution now x o1 a) \<and> req = startRequestLocked (new_execution now x o1 a)"
proof -
  define a1 where "a1 = a\<lparr>al_offers := map_put i (o1\<lparr>or_status := offerAssigned, or_execution := x\<rparr>) (al_offers a),
      al_executions := map_put x (new_execution now x o1 a) (al_executions a)\<rparr>"
  have "persistLocked sv a1 = (b, None)" "req = startRequestLocked (new_execution now x o1 a)"
    using assms by (auto simp: assignOffer_def Let_def a1_def[symmetric] split: prod.splits option.splits)
  moreover have "al_store a1 = al_store a" "map_of (al_executions a1) x = Some (new_execution now x o1 a)" by (simp_all add: a1_def)
  ultimately show ?thesis by blast
qed


text \<open>The assignment of the concrete run, before the runtime is asked.\<close>

definition demo_assign_begin :: "Allocator \<times> assign_step" where
  "demo_assign_begin = handleAssign_begin pb_doc 1000 ''q'' None demo_assign
     \<lparr>as_request_id = ''r'', as_offer_id = ''o'', as_execution_id = ''x''\<rparr> (sy_alloc demo_offered)"


text \<open>C14: an offer that was sent is durable.  With a store, a new request is answered with an offer only after the state
  that holds the offer, outstanding and for the sender, has been saved.\<close>

theorem offer_durable:
  assumes "al_store a \<noteq> None" "map_of (al_requests a) (authorityKey (sender e) (rq_request_id q)) = None"
    and "handleRequest W now id1 id2 sv e q a = (b, rs, None)"
  shows "al_store b = Some (Some (persisted_snapshot b)) \<and> (\<exists>o1. map_of (al_offers b) id1 = Some o1
     \<and> or_status o1 = offerOutstanding \<and> or_client o1 = sender e \<and> or_request o1 = q
     \<and> map payload rs = [Some (Envelope_ExecutionOffer (Some (or_offer o1)))])"
proof -
  let ?a = "fst (expireOffersLocked W now a)"
  let ?o = "new_offer W now id1 e q ?a"
  have "issueOffer W now id1 id2 sv e q ?a = (b, rs, None)"
    using assms(2,3) by (simp add: handleRequest_def Let_def split: option.splits)
  then obtain a2 l r where a2: "persistLocked sv a2 = (b, None)" "rs = [r]" "payload r = Some (Envelope_ExecutionOffer (Some (or_offer ?o)))"
      "al_store a2 = al_store a" "map_of (al_offers a2) id1 = Some ?o"
    by (auto simp: issueOffer_def Let_def offerEnvelopeLocked_def split: if_splits option.splits prod.splits)
  have "al_store b = Some (Some (persisted_snapshot b))" "al_offers b = al_offers a2"
    using saved_snapshot[OF a2(1)] a2(4) assms(1) by simp_all
  then show ?thesis using a2 by (simp add: new_offer_def)
qed

theorem offer_durable_witness:
  "\<exists>b rs. handleRequest pb_doc 1000 ''o'' ''p'' None demo_request demo_query (sy_alloc demo_start) = (b, rs, None)
     \<and> al_store b = Some (Some (persisted_snapshot b)) \<and> length rs = 1"
proof -
  have "al_store (sy_alloc demo_start) \<noteq> None \<and> map_of (al_requests (sy_alloc demo_start)) (authorityKey (sender demo_request) (rq_request_id demo_query)) = None
    \<and> snd (snd (handleRequest pb_doc 1000 ''o'' ''p'' None demo_request demo_query (sy_alloc demo_start))) = None" by code_simp
  moreover obtain b rs er where r: "handleRequest pb_doc 1000 ''o'' ''p'' None demo_request demo_query (sy_alloc demo_start) = (b, rs, er)"
    by (metis surj_pair)
  ultimately have h: "al_store (sy_alloc demo_start) \<noteq> None"
      "map_of (al_requests (sy_alloc demo_start)) (authorityKey (sender demo_request) (rq_request_id demo_query)) = None"
      "handleRequest pb_doc 1000 ''o'' ''p'' None demo_request demo_query (sy_alloc demo_start) = (b, rs, None)" by simp_all
  from offer_durable[OF h] h(3) show ?thesis by (auto dest: arg_cong[of _ _ length])
qed

section \<open>Leases\<close>

text \<open>C15: a lease is renewed only by its owner, only while the execution runs, and never beyond seven days from now;
  nothing else of the execution changes.\<close>

theorem lease_renewal_bounded:
  assumes "handleLeaseRenew W now mid sv e q a = (b, rs, None)"
  shows "\<exists>r d. map_of (al_executions a) (rn_execution_id q) = Some r \<and> er_client r = sender e
     \<and> \<not> Terminal (er_phase r) \<and> er_phase r \<noteq> EXECUTION_PHASE_CANCELLING \<and> d \<le> 7 * 24 * hour
     \<and> map_of (al_executions b) (rn_execution_id q) = Some (r\<lparr>er_leaseUntil := now + d\<rparr>)"
proof -
  define d where "d = (case rn_lease_duration q of None \<Rightarrow> pd_AsDuration W \<lparr>pd_seconds = 0, pd_nanos = 0\<rparr> | Some d \<Rightarrow> pd_AsDuration W d)"
  obtain r where r: "map_of (al_executions a) (rn_execution_id q) = Some r"
    using assms by (cases "map_of (al_executions a) (rn_execution_id q)") (auto simp: handleLeaseRenew_def fail_def)
  define a1 where "a1 = a\<lparr>al_executions := map_put (rn_execution_id q) (r\<lparr>er_leaseUntil := now + d\<rparr>) (al_executions a)\<rparr>"
  have ok: "er_client r = sender e" "\<not> Terminal (er_phase r)" "er_phase r \<noteq> EXECUTION_PHASE_CANCELLING" "d \<le> maxLeaseTTL"
    using assms r by (auto simp: handleLeaseRenew_def Let_def fail_def d_def[symmetric] split: if_splits)
  moreover have "b = fst (persistLocked sv a1)"
    using assms r ok by (auto simp: handleLeaseRenew_def Let_def d_def[symmetric] a1_def[symmetric] prod.case_eq_if split: option.splits if_splits)
  then have "al_executions b = al_executions a1" by simp
  ultimately show ?thesis using r by (auto simp: a1_def maxLeaseTTL_def CommandHorizon_def)
qed

theorem lease_renewal_bounded_witness:
  "\<exists>b rs r d. handleLeaseRenew pb_doc 1000 ''a'' None demo_assign \<lparr>rn_execution_id = ''x'', rn_lease_duration = Some \<lparr>pd_seconds = 60, pd_nanos = 0\<rparr>\<rparr>
       (sy_alloc demo_running) = (b, rs, None) \<and> d \<le> 7 * 24 * hour \<and> map_of (al_executions b) ''x'' = Some (r\<lparr>er_leaseUntil := 1000 + d\<rparr>)"
proof -
  let ?h = "handleLeaseRenew pb_doc 1000 ''a'' None demo_assign \<lparr>rn_execution_id = ''x'', rn_lease_duration = Some \<lparr>pd_seconds = 60, pd_nanos = 0\<rparr>\<rparr>
    (sy_alloc demo_running)"
  have "snd (snd ?h) = None" by code_simp
  then obtain b rs where h: "?h = (b, rs, None)" by (metis surj_pair snd_conv)
  from lease_renewal_bounded[OF h] show ?thesis using h by auto
qed

section \<open>Collected executions\<close>



end
