(* ===== verification/Alloc_Properties.thy ===== *)
theory Alloc_Properties
  imports Alloc_Guarantees
begin

text \<open>
  What the invariant of the system gives for every reachable state of the allocator process: capacity is never
  oversubscribed, no section panics, one command is run by one goroutine, every command makes progress, executions
  only move forward, a restart succeeds and restores what was saved, and the eviction loop ends.  The last property
  shows where the durable replay cache forgets a command.
\<close>

section \<open>Capacity\<close>

lemma count_collect_filter: "count (collect f m) c = length (filter (\<lambda>(k, v). f v = Some c) m)"
  by (induction m) (auto simp: opt_mset_def split: option.splits)

lemma exec_ok_in: "alloc_ok a \<Longrightarrow> (x, r) \<in> set (al_executions a) \<Longrightarrow> exec_ok x r"
  using ok_core[of a] by (auto simp: core_ok_def map_of_in)

text \<open>The slots of a class that outstanding offers and live executions hold.\<close>

definition offered_slots :: "string \<Rightarrow> Allocator \<Rightarrow> nat" where
  "offered_slots k a = length (filter (\<lambda>(i, v). or_status v = offerOutstanding \<and> of_resource_class (or_offer v) = k) (al_offers a))"

definition running_slots :: "string \<Rightarrow> Allocator \<Rightarrow> nat" where
  "running_slots k a = length (filter (\<lambda>(x, r). \<not> Terminal (er_phase r) \<and> er_resourceClass r = k) (al_executions a))"

lemma holders_count:
  assumes "alloc_ok a"
  shows "count (holders a) k = offered_slots k a + running_slots k a"
proof -
  have "filter (\<lambda>(i, v). outstanding_class v = Some k) (al_offers a)
      = filter (\<lambda>(i, v). or_status v = offerOutstanding \<and> of_resource_class (or_offer v) = k) (al_offers a)"
    by (rule filter_cong) (auto simp: outstanding_class_def)
  moreover have "filter (\<lambda>(x, r). live_class r = Some k) (al_executions a)
      = filter (\<lambda>(x, r). \<not> Terminal (er_phase r) \<and> er_resourceClass r = k) (al_executions a)"
    by (rule filter_cong) (use exec_ok_in[OF assms] in \<open>auto simp: live_class_def exec_ok_def\<close>)
  ultimately show ?thesis
    by (simp add: holders_def count_collect_filter offered_slots_def running_slots_def)
qed

lemma configured_limits: "configured c a \<Longrightarrow> limits (al_capacity a) = cf_Capacity c"
  by (auto simp: configured_def accepts_def config_same_def empty_allocator_def newCapacityLedger_def split: if_splits)

lemma sys_okD:
  assumes "reach (sys_start W c rc) (sys_step W c rc) s"
  shows "alloc_ok (sy_alloc s)" "configured c (sy_alloc s)" "worker_ok (sy_alloc s) (sy_worker s)"
    "t \<in> set (sy_threads s) \<Longrightarrow> thread_ok W (sy_alloc s) t"
    "exclusive (sy_threads s)" "store_ok c (al_store (sy_alloc s))"
    "flying (sy_alloc s) k \<Longrightarrow> \<exists>t\<in>set (sy_threads s). owned t = Some k"
  using allocator_system.reach_inv[OF assms] by (simp_all add: sys_ok_def)

text \<open>C1: the allocator never oversubscribes a resource class.  In every reachable state, through any interleaving of
  commands, evictions, sweeps, failed saves, crashes and restarts, the outstanding offers and the executions that have not
  ended hold together at most the configured number of slots of each class, and \<open>Available\<close> answers exactly with the rest.\<close>

theorem capacity_respected:
  assumes "reach (sys_start W c rc) (sys_step W c rc) s"
  shows "offered_slots k (sy_alloc s) + running_slots k (sy_alloc s) \<le> unat (get_num (cf_Capacity c) k)
    \<and> unat (available k (al_capacity (sy_alloc s)))
        = unat (get_num (cf_Capacity c) k) - (offered_slots k (sy_alloc s) + running_slots k (sy_alloc s))"
proof -
  note ok = sys_okD(1)[OF assms] and lim = configured_limits[OF sys_okD(2)[OF assms]]
  let ?l = "al_capacity (sy_alloc s)"
  have use: "slots_in_use ?l k = offered_slots k (sy_alloc s) + running_slots k (sy_alloc s)" "ledger_invar ?l"
    using ok_ledger[OF ok] holders_count[OF ok, of k] by (simp_all add: ledger.tracks_def)
  moreover from use(2) have "get_num (used ?l) k \<le> get_num (limits ?l) k" by (simp add: ledger_invar_def)
  ultimately show ?thesis
    by (simp add: slots_in_use_def lim available_def Let_def word_le_nat_alt unat_sub)
qed

theorem capacity_respected_witness:
  "offered_slots ''s'' (sy_alloc demo_running) + running_slots ''s'' (sy_alloc demo_running) \<le> 1"
  using capacity_respected[OF demo_running_reach, of "''s''"] by (simp add: demo_config_def get_num_def)

section \<open>Commands\<close>

text \<open>C12: no section of a goroutine panics.  In every reachable state the next section of every command in the process and of
  the background worker runs to its end: no record that a section dereferences is missing, whatever happened since
  the goroutine gave up the lock.\<close>

theorem sections_never_panic:
  assumes "reach (sys_start W c rc) (sys_step W c rc) s" and "sane_world wd"
  shows "(t \<in> set (sy_threads s) \<longrightarrow> advance W wd t (sy_alloc s) \<noteq> None) \<and> work W wd (sy_worker s) (sy_alloc s) \<noteq> None"
proof -
  note ok = sys_okD(1)[OF assms(1)]
  have "works W (sy_alloc s) (work W wd (sy_worker s) (sy_alloc s))"
    by (rule work_total[OF ok sys_okD(3)[OF assms(1)] assms(2)])
  moreover have "advance W wd t (sy_alloc s) \<noteq> None" if "t \<in> set (sy_threads s)"
    using advance_total[OF ok sys_okD(4)[OF assms(1) that] assms(2)] by auto
  ultimately show ?thesis by (auto simp: works_def)
qed

theorem sections_never_panic_witness:
  "work pb_doc demo_world (sy_worker demo_running) (sy_alloc demo_running) \<noteq> None"
proof -
  have "sane_world demo_world" by code_simp
  from sections_never_panic[OF demo_running_reach this] show ?thesis by blast
qed

text \<open>C2: a command runs once.  In every reachable state two goroutines never hold the same command, where a command is
  held from its entry into the replay cache until its outcome is recorded; as long as it is held its entry is in flight,
  so a redelivery waits for the outcome instead of running the command again.\<close>

theorem command_runs_once:
  assumes "reach (sys_start W c rc) (sys_step W c rc) s" and "i < length (sy_threads s)" "j < length (sy_threads s)" "i \<noteq> j"
    and "owned (sy_threads s ! i) = Some k"
  shows "owned (sy_threads s ! j) \<noteq> Some k \<and> (\<exists>e. in_flight (al_replay (sy_alloc s)) k e)"
proof -
  have "owned (sy_threads s ! i) \<noteq> owned (sy_threads s ! j)"
    using sys_okD(5)[OF assms(1)] assms(2-5) unfolding exclusive_def by (metis option.distinct(1))
  moreover have "thread_ok W (sy_alloc s) (sy_threads s ! i)"
    using sys_okD(4)[OF assms(1)] assms(2) by simp
  ultimately show ?thesis using assms(5) owned_flight by fastforce
qed

text \<open>The demonstration run with a redelivered request in front of a running one.\<close>

definition demo_twice :: system where
  "demo_twice = (case drive pb_doc (replicate 2 demo_world) (demo_start\<lparr>sy_threads := [Received demo_request, Received demo_request]\<rparr>) of
     Some s \<Rightarrow> s | None \<Rightarrow> demo_start)"

lemma demo_twice_run:
  "drive pb_doc (replicate 2 demo_world) (demo_start\<lparr>sy_threads := [Received demo_request, Received demo_request]\<rparr>) = Some demo_twice"
proof -
  have "drive pb_doc (replicate 2 demo_world) (demo_start\<lparr>sy_threads := [Received demo_request, Received demo_request]\<rparr>) \<noteq> None"
    by code_simp
  then show ?thesis by (auto simp: demo_twice_def)
qed

lemma demo_twice_reach: "demo_reach demo_twice"
proof -
  have "demo_reach (demo_start\<lparr>sy_threads := [Received demo_request]\<rparr>)"
    using reach_step[OF demo_start_reach sys_step.live[OF live_step.arrive[OF demo_texts(1)]]]
    by (simp add: demo_start_def boot_def)
  from demo_arrive[OF this demo_texts(1), of "replicate 2 demo_world"] demo_twice_run show ?thesis by simp
qed

lemma demo_twice_owned: "map owned (sy_threads demo_twice) = [None, Some (replay_key demo_request)]"
  by code_simp

theorem command_runs_once_witness: "owned (sy_threads demo_twice ! 0) \<noteq> Some (replay_key demo_request)"
proof -
  have "length (sy_threads demo_twice) = 2" using arg_cong[OF demo_twice_owned, of length] by simp
  moreover have "owned (sy_threads demo_twice ! 1) = Some (replay_key demo_request)"
    using arg_cong[OF demo_twice_owned, of "\<lambda>xs. xs ! 1"] calculation by simp
  ultimately show ?thesis using command_runs_once[OF demo_twice_reach, of 1 0 "replay_key demo_request"] by simp
qed

text \<open>C8: every command makes progress.  In every reachable state the next section of a command brings it strictly closer
  to its answer, unless it is answered already or waits for the outcome of the same command; then some other goroutine
  holds that command, is itself not waiting, and so makes progress.\<close>

theorem command_progress:
  assumes "reach (sys_start W c rc) (sys_step W c rc) s" and "t \<in> set (sy_threads s)" and "sane_world wd"
  shows "\<exists>b t'. advance W wd t (sy_alloc s) = Some (b, t') \<and>
    (rank t' < rank t \<or> (\<exists>e rs er. t = Answered e rs er)
     \<or> (\<exists>k e u. t = Waiting k e \<and> u \<in> set (sy_threads s) \<and> owned u = Some k \<and> \<not> waits u \<and> 0 < rank u))"
proof -
  have th: "thread_ok W (sy_alloc s) t" by (rule sys_okD(4)[OF assms(1,2)])
  obtain b t' where b: "advance W wd t (sy_alloc s) = Some (b, t')"
    using advance_total[OF sys_okD(1)[OF assms(1)] th assms(3)] by blast
  have holder: "\<not> waits u \<and> 0 < rank u" if "owned u = Some k" for u k using that by (cases u) auto
  have "\<exists>k e u. t = Waiting k e \<and> u \<in> set (sy_threads s) \<and> owned u = Some k \<and> \<not> waits u \<and> 0 < rank u" if "waits t"
  proof -
    from that obtain k e where t: "t = Waiting k e" by (cases t) auto
    with th have "flying (sy_alloc s) k" by simp
    from sys_okD(7)[OF assms(1) this] t holder show ?thesis by blast
  qed
  with advance_rank[OF b] b rank_zero show ?thesis by blast
qed

theorem command_progress_witness:
  "\<exists>b t'. advance pb_doc demo_world (sy_threads demo_twice ! 1) (sy_alloc demo_twice) = Some (b, t')
     \<and> rank t' < rank (sy_threads demo_twice ! 1)"
proof -
  let ?t = "sy_threads demo_twice ! 1"
  have sane: "sane_world demo_world" by code_simp
  have len: "length (sy_threads demo_twice) = 2" using arg_cong[OF demo_twice_owned, of length] by simp
  have own: "owned ?t = Some (replay_key demo_request)"
    using arg_cong[OF demo_twice_owned, of "\<lambda>xs. xs ! 1"] len by simp
  have "?t \<in> set (sy_threads demo_twice)" using len by simp
  from command_progress[OF demo_twice_reach this sane] own show ?thesis by fastforce
qed

section \<open>Executions\<close>

lemma live_evolution:
  assumes "sys_ok W c s" "live_step W s s'"
  shows "evolution (sy_alloc s) (sy_alloc s')"
proof -
  have ok: "alloc_ok (sy_alloc s)" using assms(1) by (simp add: sys_ok_def)
  have plain: "evolution (sy_alloc s) b" if "section_step (sy_alloc s) b" for b
    by (rule evolution_undisturbed[OF undisturbed_section[OF that, of None]])
  from assms(2) show ?thesis
  proof cases
    case (command i t wd b t')
    have "thread_ok W (sy_alloc s) t" using assms(1) command by (simp add: sys_ok_def)
    from advance_total[OF ok this command(4)] command show ?thesis
      by (auto simp: advances_def intro: evolution_undisturbed)
  next
    case (background wd b w)
    have "worker_ok (sy_alloc s) (sy_worker s)" using assms(1) by (simp add: sys_ok_def)
    from work_total[OF ok this background(2), of W] background show ?thesis by (auto simp: works_def)
  qed (auto intro!: plain section_step_refl completionReporter_step tunnel_sections_step views_step)
qed

text \<open>C7: executions only move forward.  Every step of the running process leaves an execution as it is, moves its lease
  while it has not ended, or takes one step of the phase graph with the revision one higher and the same identity, client,
  offer and request; a terminal execution never changes again, and it disappears only after its retention has passed.\<close>

theorem execution_lifecycle:
  assumes "reach (sys_start W c rc) (sys_step W c rc) s" and "live_step W s s'"
    and "map_of (al_executions (sy_alloc s)) x = Some r"
  shows "(\<exists>r'. map_of (al_executions (sy_alloc s')) x = Some r' \<and> evolves r r' \<and> (Terminal (er_phase r) \<longrightarrow> r' = r))
    \<or> map_of (al_executions (sy_alloc s')) x = None \<and> Terminal (er_phase r)
        \<and> er_retainUntil r \<le> al_highWater (sy_alloc s')"
  using live_evolution[OF allocator_system.reach_inv[OF assms(1)] assms(2)] assms(3) evolves_final
  unfolding evolution_def by blast

theorem execution_lifecycle_witness:
  "\<exists>r'. map_of (al_executions (fst (SweepExpired pb_doc 5 None (sy_alloc demo_running)))) ''x'' = Some r'"
proof -
  obtain r where r: "map_of (al_executions (sy_alloc demo_running)) ''x'' = Some r" "er_phase r = EXECUTION_PHASE_RUNNING"
    using demo_running_exec by (cases "map_of (al_executions (sy_alloc demo_running)) ''x''") auto
  from execution_lifecycle[OF demo_running_reach live_step.expiry r(1), of 5 None] r(2) show ?thesis
    by (auto simp: Terminal_def)
qed

section \<open>Eviction ends\<close>

definition live_executions :: "Allocator \<Rightarrow> string set" where
  "live_executions a = {x. \<exists>r. map_of (al_executions a) x = Some r \<and> \<not> Terminal (er_phase r)}"

lemma finite_live: "finite (live_executions a)"
  by (rule finite_subset[OF _ finite_dom_map_of[of "al_executions a"]]) (auto simp: live_executions_def)

lemma card_live:
  assumes "alloc_ok a"
  shows "card (live_executions a) = length (filter (\<lambda>(x, r). \<not> Terminal (er_phase r)) (al_executions a))"
proof -
  have wf: "wf_map (al_executions a)" using ok_core[OF assms] by (simp add: core_ok_def)
  let ?f = "\<lambda>r. if Terminal (er_phase r) then None else Some ()"
  have "count (collect ?f (al_executions a)) () = card (live_executions a)"
    unfolding count_collect[OF wf] live_executions_def by (intro arg_cong[where f = card]) auto
  then show ?thesis unfolding count_collect_filter by (simp split: if_splits cong: if_cong)
qed

lemma beginEviction_executions:
  "beginEvictionLocked x now sv a = Some (b, d, None) \<Longrightarrow>
     \<exists>r. map_of (al_executions a) x = Some r \<and> al_executions b = map_put x (mark_cancelling LeaseExpiredDetail now r) (al_executions a)"
  by (auto simp: beginEvictionLocked_def Let_def persistLocked_def split: option.splits prod.splits)

lemma evict_round_stop:
  assumes "evict_round t ctx sv a = Some (b, EvictStop x p d)"
  shows "\<exists>r now. map_of (al_executions a) x = Some r \<and> al_executions b = map_put x (mark_cancelling LeaseExpiredDetail now r) (al_executions a)"
proof -
  obtain x1 p1 where n: "nextExpiredLeaseLocked (snd (effectiveNowLocked t a)) (fst (effectiveNowLocked t a)) = (x1, p1)" by force
  with assms have "beginEvictionLocked x (snd (effectiveNowLocked t a)) sv (fst (effectiveNowLocked t a)) = Some (b, d, None)"
    by (auto simp: evict_round_def Let_def prod.case_eq_if split: if_splits option.splits prod.splits)
  from beginEviction_executions[OF this] show ?thesis by auto
qed

lemma evict_round_live:
  assumes ok: "alloc_ok a" and t: "max t (al_highWater a) \<noteq> zero_time" and r: "evict_round t ctx sv a = Some (b, EvictStop x p d)"
  shows "x \<in> live_executions b" "live_executions b = live_executions a"
proof -
  obtain r where r1: "map_of (al_executions a) x = Some r" "lease_expired (max t (al_highWater a)) r"
    using evict_round_cases(2)[OF ok t r refl] by blast
  obtain r2 now where "map_of (al_executions a) x = Some r2"
    "al_executions b = map_put x (mark_cancelling LeaseExpiredDetail now r2) (al_executions a)"
    using evict_round_stop[OF r] by blast
  with r1 lease_expired_live[OF r1(2)] show "x \<in> live_executions b" "live_executions b = live_executions a"
    by (auto simp: live_executions_def mark_cancelling_def Terminal_def)
qed

lemma completeEviction_live:
  assumes "x \<in> live_executions a" "completeEviction now sv x p d stopErr a = (b, None)"
  shows "live_executions b = live_executions a - {x}"
proof -
  obtain r where r: "map_of (al_executions a) x = Some r" "\<not> Terminal (er_phase r)"
    using assms(1) by (auto simp: live_executions_def)
  have "stopErr = None \<or> errors_Is (the stopErr) RuntimeErrExecutionMissing"
    using assms(2) r(1) by (auto simp: completeEviction_def Join_def Let_def split: option.splits if_splits prod.splits)
  from completeEviction_stopped[OF r(1) this] assms(2)
  have "al_executions b = al_executions (stopped_state now x EXECUTION_PHASE_FAILED LeaseExpiredDetail a)"
    using persist_fields(3)[of sv "stopped_state now x EXECUTION_PHASE_FAILED LeaseExpiredDetail a" b None] by simp
  moreover have "stopped_state now x EXECUTION_PHASE_FAILED LeaseExpiredDetail a
      = finishLocked x r EXECUTION_PHASE_FAILED LeaseExpiredDetail None now a"
    using r by (simp add: stopped_state_def)
  ultimately show ?thesis
    by (auto simp: live_executions_def finishLocked_def Let_def Terminal_def split: if_splits)
qed

lemma evict_round_idle:
  assumes ok: "alloc_ok a" and "evict_round t ctx sv a = Some (b, EvictIdle)" and "map_of (al_executions b) x = Some r"
  shows "\<not> lease_expired (al_highWater b) r"
proof -
  let ?b = "fst (effectiveNowLocked t a)" and ?now = "snd (effectiveNowLocked t a)"
  obtain y p where n: "nextExpiredLeaseLocked ?now ?b = (y, p)" by force
  with assms(2) have b: "b = ?b" "y = []"
    by (auto simp: evict_round_def Let_def prod.case_eq_if split: if_splits option.splits prod.splits)
  have "alloc_ok ?b" using ok by simp
  moreover have "fst (nextExpiredLeaseLocked ?now ?b) = []" using n b(2) by simp
  moreover have "map_of (al_executions ?b) x = Some r" using assms(3) b(1) by simp
  ultimately have "\<not> lease_expired ?now r" by (rule nextExpired_none)
  then show ?thesis by (simp add: b(1))
qed

lemma evict_loop_ends:
  assumes "alloc_ok a" "\<forall>(t, ctx, sv, stop, t', sv')\<in>set rounds. zero_time < t \<and> zero_time < t'"
    and "card (live_executions a) < length rounds"
  shows "\<exists>b e. EvictExpiredLeases rounds a = Some (b, e) \<and> alloc_ok b
    \<and> (e = None \<longrightarrow> (\<forall>x r. map_of (al_executions b) x = Some r \<longrightarrow> \<not> lease_expired (al_highWater b) r))"
  using assms
proof (induction rounds arbitrary: a)
  case (Cons round rounds)
  obtain t ctx sv stop t' sv' where rd: "round = (t, ctx, sv, stop, t', sv')" by (metis prod_cases6)
  have times: "zero_time < t" "zero_time < t'" using Cons.prems(2) rd by auto
  then have nz: "max t (al_highWater a) \<noteq> zero_time" by simp
  obtain b st where r: "evict_round t ctx sv a = Some (b, st)" using evict_round_total[OF Cons.prems(1)] by fastforce
  note ok = evict_round_cases(1)[OF Cons.prems(1) nz r]
  show ?case
  proof (cases st)
    case EvictIdle
    with ok r rd evict_round_idle[OF Cons.prems(1)] show ?thesis by auto
  next
    case (EvictAbort e)
    with ok r rd show ?thesis by auto
  next
    case (EvictStop x p d)
    note stops = r[unfolded EvictStop]
    note live = evict_round_live[OF Cons.prems(1) nz stops]
    obtain r0 where r0: "map_of (al_executions a) x = Some r0" "er_phase r0 = p" "lease_expired (max t (al_highWater a)) r0"
      using evict_round_cases(2)[OF Cons.prems(1) nz stops refl] by blast
    have p: "\<not> Terminal p" "known_phase p"
      using r0 lease_expired_live[OF r0(3)] exec_ok_in[OF Cons.prems(1) map_of_SomeD[OF r0(1)]] by (auto simp: exec_ok_def)
    obtain b2 e where c: "completeEviction t' sv' x p d stop b = (b2, e)" by force
    have ok2: "alloc_ok b2" using alloc_ok_completeEviction[OF ok _ p, of t' sv' x d stop] times(2) c by simp
    show ?thesis
    proof (cases e)
      case None
      have "live_executions b2 = live_executions a - {x}" using completeEviction_live[OF live(1) c[unfolded None]] live(2) by simp
      then have "card (live_executions b2) < card (live_executions a)"
        using live card_Diff1_less[OF finite_live, of x a] by simp
      then have "card (live_executions b2) < length rounds" using Cons.prems(3) by simp
      from Cons.IH[OF ok2 _ this] Cons.prems(2) show ?thesis using stops rd c None by auto
    qed (use stops rd c ok2 in simp)
  qed
qed simp



section \<open>Restart\<close>

lemma New_stored:
  assumes "reach (sys_start W c rc) (sys_step W c rc) s" "al_store (sy_alloc s) = Some (Some p)"
  shows "\<exists>a e l. alloc_ok a \<and> p = persisted_snapshot a
    \<and> New W t1 t2 c False (stored_of (al_store (sy_alloc s))) = Inr ((restored W t1 t2 a e)\<lparr>al_capacity := l\<rparr>)"
proof -
  obtain a where a: "alloc_ok a" "configured c a" "p = persisted_snapshot a"
    using sys_okD(6)[OF assms(1)] assms(2) by (auto simp: store_ok_def)
  from New_snapshot[OF a(1,2), of W t1 t2] show ?thesis using a assms(2) by (auto simp: Let_def stored_of_def)
qed

lemma restored_execution:
  assumes "alloc_ok a" "x \<in> set (ps_Executions (persisted_snapshot a))"
  shows "\<exists>r. map_of (al_executions ((restored W t1 t2 a e)\<lparr>al_capacity := l\<rparr>)) (pe_ID x) = Some r \<and> er_id r = pe_ID x
    \<and> er_phase r = pe_Phase x \<and> er_client r = pe_Client x \<and> er_offerID r = pe_OfferID x \<and> Some (er_request r) = pe_Request x"
proof -
  obtain i r where r: "(i, r) \<in> set (al_executions a)" "x = persist_execution r"
    using assms(2) by (auto simp: persisted_snapshot_def)
  have wf: "wf_map (al_executions a)" using ok_core[OF assms(1)] by (simp add: core_ok_def)
  have i: "er_id r = i" using exec_ok_in[OF assms(1) r(1)] by (simp add: exec_ok_def)
  define f where "f = reload t1 (e\<lparr>al_highWater := al_highWater a, al_tombstones := al_tombstones a\<rparr>)"
  have "map_of (map (\<lambda>(x, r). (x, f r)) (al_executions a)) i = Some (f r)"
    using r(1) wf by (simp add: map_of_map map_of_in)
  then show ?thesis using r(2) i
    by (intro exI[of _ "f r"]) (simp add: restored_def persist_execution_def f_def reload_def)
qed


lemma demo_running_store: "\<exists>p. al_store (sy_alloc demo_running) = Some (Some p)"
proof -
  have "(case al_store (sy_alloc demo_running) of Some (Some p) \<Rightarrow> True | _ \<Rightarrow> False)" by code_simp
  then show ?thesis by (auto split: option.splits)
qed


text \<open>C13: the replay cache does not survive a restart for every client.  The durable key of a command contains the raw
  bytes of the sender's identity, which the JSON encoding of the state coerces to valid UTF-8; after a restart no command
  of a client whose identity is not valid UTF-8 is found in the cache, so a redelivery of it is run again.\<close>

theorem replay_lost_after_restart:
  assumes "reach (sys_start W c rc) (sys_step W c rc) s" and "al_store (sy_alloc s) = Some (Some p)"
    and "New W t1 t2 c False (stored_of (al_store (sy_alloc s))) = Inr b"
    and "\<not> valid_utf8 (string_of_bytes (sender e))"
  shows "map_of (rc_entries (al_replay b)) (replay_key e) = None"
proof (rule ccontr)
  assume "map_of (rc_entries (al_replay b)) (replay_key e) \<noteq> None"
  moreover obtain a a0 l where "b = (restored W t1 t2 a a0)\<lparr>al_capacity := l\<rparr>"
    using New_stored[OF assms(1,2), of t1 t2] assms(3) by auto
  ultimately have "valid_utf8 (replay_key e)"
    by (auto simp: restored_def reload_entries_def dest: json_keys_valid)
  then have "valid_utf8 (string_of_bytes (sender e))"
    using valid_utf8_before_zero by (simp add: replay_key_def authorityKey_def)
  with assms(4) show False by simp
qed

theorem replay_lost_after_restart_witness:
  "\<exists>b. New pb_doc 2000 2000 demo_config False (stored_of (al_store (sy_alloc demo_running))) = Inr b
     \<and> map_of (rc_entries (al_replay b)) (replay_key (demo_request\<lparr>sender := [0xFF]\<rparr>)) = None"
proof -
  obtain p where p: "al_store (sy_alloc demo_running) = Some (Some p)" using demo_running_store by blast
  then obtain b where b: "New pb_doc 2000 2000 demo_config False (stored_of (al_store (sy_alloc demo_running))) = Inr b"
    using New_stored[OF demo_running_reach p, of 2000 2000] by blast
  have "\<not> valid_utf8 (string_of_bytes (sender (demo_request\<lparr>sender := [0xFF]\<rparr>)))" by code_simp
  with replay_lost_after_restart[OF demo_running_reach p b] b show ?thesis by blast
qed

end
