(* ===== verification/Client_State.thy ===== *)
theory Client_State
  imports Alloc_State Sha256 "HOL-Library.Product_Lexorder"
begin

text \<open>
  The client core, \<open>internal/client\<close>: its state (\<open>client.go\<close>), the catalog of allocators and the ranking of
  offers (\<open>allocators.go\<close>), the commands it creates (\<open>commands.go\<close>, \<open>envelopes.go\<close>, \<open>selection.go\<close>, \<open>logs.go\<close>,
  \<open>tunnel.go\<close>), the lease intents (\<open>lease_intent.go\<close>, \<open>lease_ack.go\<close>), the offer releases (\<open>release.go\<close>) and
  the reactions to what allocators send (\<open>inbound.go\<close>, \<open>feedback.go\<close>).  Every method runs under the client's
  mutex and is one function of the state; a reading of the clock and a generated identifier are arguments.
  An operation returns the state it leaves and its results, \<open>Inl\<close> an error.  The code reads the record of
  a selected execution without checking that it is there; that would be a nil dereference and is
  \<open>None\<close> here.  Names that the allocator has too carry the prefix \<open>client_\<close>.
\<close>

section \<open>Errors\<close>

text \<open>The sentinels of \<open>errors.go\<close>; the quoted identifiers some sites append are left out.\<close>

datatype client_error =
    ClientInvalidConfig
  | ClientInvalidAllocator
  | ClientUnsupportedMessage
  | ClientRequestNotFound
  | ClientExecutionNotFound
  | ClientNoOffer
  | ClientConflict
  | ClientUnauthorized
  | ClientInvalid ValidationError

section \<open>Records\<close>

record CandidateAllocator =
  ca_Identity :: bytes
  ca_Destination :: string
  ca_Hops :: "8 word"
  ca_Capacity :: "(string, 32 word) gomap option"
  ca_Node :: "NodeCapabilities option"
  ca_TunnelHost :: string
  ca_TunnelPort :: int
  ca_TunnelDestination :: string

record releaseIntent =
  ri_MessageID :: string
  ri_SentAt :: gotime
  ri_Destination :: string
  ri_Acknowledged :: bool

record client_offerRecord =
  co_offer :: ExecutionOffer
  co_allocatorID :: bytes
  co_receivedAt :: gotime
  co_release :: "releaseIntent option"

record requestRecord =
  cq_request :: ExecutionRequest
  cq_messageID :: string
  cq_createdAt :: gotime
  cq_offers :: "(string, client_offerRecord) gomap"
  cq_executionID :: string

record client_executionRecord =
  cx_id :: string
  cx_requestID :: string
  cx_offerID :: string
  cx_allocatorID :: bytes
  cx_destination :: string
  cx_assignmentMessageID :: string
  cx_assignmentSentAt :: gotime
  cx_inspectMessageID :: string
  cx_inspectSentAt :: gotime
  cx_cancelMessageID :: string
  cx_cancelSentAt :: gotime
  cx_cancelReason :: string
  cx_state :: "ExecutionState option"
  cx_leaseDuration :: duration
  cx_leaseAllocators :: "string list"
  cx_leaseLost :: bool
  cx_leaseRenewedAt :: gotime
  cx_leaseRenewMessageID :: string
  cx_leaseExpiresAt :: gotime

record RequestSnapshot =
  qs_Request :: ExecutionRequest
  qs_CreatedAt :: gotime
  qs_OfferCount :: nat
  qs_ExecutionID :: string

record ExecutionSnapshot =
  xs_ExecutionID :: string
  xs_RequestID :: string
  xs_OfferID :: string
  xs_Allocator :: bytes
  xs_Destination :: string
  xs_State :: "ExecutionState option"

record PendingRelease =
  pl_Destination :: string
  pl_Envelope :: Envelope

type_synonym allocatorCatalog = "(string, CandidateAllocator) gomap"

record Client =
  cl_logMessageID :: string
  cl_logRequest :: "ExecutionLogsRequest option"
  cl_identity :: bytes
  cl_allocators :: allocatorCatalog
  cl_requests :: "(string, requestRecord) gomap"
  cl_executions :: "(string, client_executionRecord) gomap"

text \<open>A command the client has created: the destination it is for and the envelope.\<close>

type_synonym outgoing = "string \<times> Envelope"

definition newAllocatorCatalog :: allocatorCatalog where
  "newAllocatorCatalog = []"

definition client_New :: "bytes \<Rightarrow> client_error + Client" where
  "client_New identity =
     (if length identity = 0 then Inl ClientInvalidConfig
      else Inr \<lparr>cl_logMessageID = [], cl_logRequest = None, cl_identity = identity,
             cl_allocators = newAllocatorCatalog, cl_requests = [], cl_executions = []\<rparr>)"

text \<open>The identifier generator of the default configuration: sixteen random bytes in hexadecimal.\<close>

definition randomID :: "bytes \<Rightarrow> string" where
  "randomID entropy = hex_EncodeToString (take 16 entropy)"

section \<open>The catalog of allocators\<close>

definition cloneAllocator :: "CandidateAllocator \<Rightarrow> CandidateAllocator" where
  "cloneAllocator v = \<lparr>ca_Identity = ca_Identity v, ca_Destination = ca_Destination v, ca_Hops = ca_Hops v,
     ca_Capacity = (case ca_Capacity v of None \<Rightarrow> None | Some m \<Rightarrow> Some m),
     ca_Node = (case ca_Node v of None \<Rightarrow> None | Some n \<Rightarrow> Some n),
     ca_TunnelHost = ca_TunnelHost v, ca_TunnelPort = ca_TunnelPort v, ca_TunnelDestination = ca_TunnelDestination v\<rparr>"

definition catalog_lookup :: "bytes \<Rightarrow> allocatorCatalog \<Rightarrow> CandidateAllocator option" where
  "catalog_lookup identity c = map_of c (hex_EncodeToString identity)"

definition catalog_put :: "CandidateAllocator \<Rightarrow> allocatorCatalog \<Rightarrow> allocatorCatalog" where
  "catalog_put candidate c = map_put (hex_EncodeToString (ca_Identity candidate)) (cloneAllocator candidate) c"

definition catalog_remove :: "bytes \<Rightarrow> allocatorCatalog \<Rightarrow> allocatorCatalog" where
  "catalog_remove identity c = map_delete (hex_EncodeToString identity) c"

definition catalog_all :: "allocatorCatalog \<Rightarrow> CandidateAllocator list" where
  "catalog_all c = map (\<lambda>(i, v). cloneAllocator v) c"

text \<open>The three blocks of \<open>RegisterAllocator\<close> that keep what an earlier registration advertised.\<close>

definition merge_registration :: "CandidateAllocator option \<Rightarrow> CandidateAllocator \<Rightarrow> CandidateAllocator" where
  "merge_registration prev candidate = (case prev of None \<Rightarrow> candidate | Some previous \<Rightarrow>
     let c1 = (if ca_Capacity candidate = None
               then candidate\<lparr>ca_Capacity := ca_Capacity previous, ca_Hops := ca_Hops previous\<rparr> else candidate);
         c2 = (if ca_Node c1 = None then c1\<lparr>ca_Node := ca_Node previous\<rparr> else c1)
     in if ca_TunnelPort c2 = 0
        then c2\<lparr>ca_TunnelHost := ca_TunnelHost previous, ca_TunnelPort := ca_TunnelPort previous,
                ca_TunnelDestination := ca_TunnelDestination previous\<rparr> else c2)"

definition RegisterAllocator :: "CandidateAllocator \<Rightarrow> Client \<Rightarrow> Client \<times> client_error option" where
  "RegisterAllocator candidate c =
     (if length (ca_Identity candidate) = 0 \<or> blank (ca_Destination candidate) then (c, Some ClientInvalidAllocator)
      else (c\<lparr>cl_allocators := catalog_put
               (merge_registration (catalog_lookup (ca_Identity candidate) (cl_allocators c)) candidate)
               (cl_allocators c)\<rparr>, None))"

text \<open>Reading a class from a capacity map, nil included, gives 0 for a missing class.\<close>

definition advertised :: "CandidateAllocator \<Rightarrow> string \<Rightarrow> 32 word" where
  "advertised a class = (case ca_Capacity a of None \<Rightarrow> 0 | Some m \<Rightarrow> get_num m class)"

definition AllocatorDestinations :: "string \<Rightarrow> PlacementConstraints option \<Rightarrow> Client \<Rightarrow> string list" where
  "AllocatorDestinations class constraints c =
     sort (map ca_Destination (filter (\<lambda>a. \<not> (advertised a class = 0 \<or> \<not> PlacementCompatible constraints (ca_Node a)))
       (catalog_all (cl_allocators c))))"

section \<open>Ranking of offers\<close>

definition zero_allocator :: CandidateAllocator where
  "zero_allocator = \<lparr>ca_Identity = [], ca_Destination = [], ca_Hops = 0, ca_Capacity = None, ca_Node = None,
     ca_TunnelHost = [], ca_TunnelPort = 0, ca_TunnelDestination = []\<rparr>"

text \<open>A lookup whose second result is ignored: a missing entry gives the zero struct.\<close>

definition entry_of :: "allocatorCatalog \<Rightarrow> bytes \<Rightarrow> CandidateAllocator" where
  "entry_of c i = (case catalog_lookup i c of None \<Rightarrow> zero_allocator | Some a \<Rightarrow> a)"

text \<open>\<open>sort.Slice\<close> with a comparison function, as an insertion sort.  The ranking below is a strict total order on
  the offers of a request, so every sorting routine gives the same list.\<close>

fun insert_slice :: "('a \<Rightarrow> 'a \<Rightarrow> bool) \<Rightarrow> 'a \<Rightarrow> 'a list \<Rightarrow> 'a list" where
  "insert_slice lt x [] = [x]"
| "insert_slice lt x (y # ys) = (if lt y x then y # insert_slice lt x ys else x # y # ys)"

definition sort_slice :: "('a \<Rightarrow> 'a \<Rightarrow> bool) \<Rightarrow> 'a list \<Rightarrow> 'a list" where
  "sort_slice lt xs = foldr (insert_slice lt) xs []"

definition nodeCaches :: "NodeCapabilities option \<Rightarrow> string \<Rightarrow> bool" where
  "nodeCaches node img = (case node of None \<Rightarrow> False | Some n \<Rightarrow> list_ex (\<lambda>cached. cached = img) (nc_cached_images n))"

definition usable_offer ::
  "pblib \<Rightarrow> allocatorCatalog \<Rightarrow> gotime \<Rightarrow> PlacementConstraints option \<Rightarrow> client_offerRecord \<Rightarrow> bool" where
  "usable_offer W c now constraints v = (case catalog_lookup (co_allocatorID v) c of None \<Rightarrow> False
     | Some allocator \<Rightarrow>
         if blank (ca_Destination allocator) \<or> \<not> AsTime W (of_expires_at (co_offer v)) > now then False
         else PlacementMatches constraints
                (case of_node (co_offer v) of None \<Rightarrow> ca_Node allocator | Some n \<Rightarrow> Some n))"

definition offer_less :: "allocatorCatalog \<Rightarrow> string \<Rightarrow> client_offerRecord \<Rightarrow> client_offerRecord \<Rightarrow> bool" where
  "offer_less c img left right =
     (if ca_Hops (entry_of c (co_allocatorID left)) \<noteq> ca_Hops (entry_of c (co_allocatorID right))
      then ca_Hops (entry_of c (co_allocatorID left)) < ca_Hops (entry_of c (co_allocatorID right))
      else let leftCached = (img \<noteq> [] \<and> nodeCaches (of_node (co_offer left)) img);
               rightCached = (img \<noteq> [] \<and> nodeCaches (of_node (co_offer right)) img)
      in if leftCached \<noteq> rightCached then leftCached
         else if co_allocatorID left \<noteq> co_allocatorID right then co_allocatorID left < co_allocatorID right
         else of_offer_id (co_offer left) < of_offer_id (co_offer right))"

definition chooseWithPreferences ::
  "pblib \<Rightarrow> allocatorCatalog \<Rightarrow> (string, client_offerRecord) gomap \<Rightarrow> gotime \<Rightarrow> PlacementConstraints option \<Rightarrow> string
     \<Rightarrow> ((string \<times> client_offerRecord) \<times> CandidateAllocator) option" where
  "chooseWithPreferences W c offers now constraints img =
     (let candidates = filter (\<lambda>(i, v). usable_offer W c now constraints v) offers in
      if length candidates = 0 then None
      else let selected = hd (sort_slice (\<lambda>l r. offer_less c img (snd l) (snd r)) candidates) in
           Some (selected, entry_of c (co_allocatorID (snd selected))))"

definition catalog_choose ::
  "pblib \<Rightarrow> allocatorCatalog \<Rightarrow> (string, client_offerRecord) gomap \<Rightarrow> gotime
     \<Rightarrow> ((string \<times> client_offerRecord) \<times> CandidateAllocator) option" where
  "catalog_choose W c offers now = chooseWithPreferences W c offers now None []"

section \<open>Creating commands\<close>

definition requestEnvelopeLocked :: "pblib \<Rightarrow> Client \<Rightarrow> ExecutionRequest \<Rightarrow> string \<Rightarrow> gotime \<Rightarrow> Envelope" where
  "requestEnvelopeLocked W c request messageID sentAt =
     \<lparr>message_id = messageID, sender = cl_identity c, correlation_id = [], sent_at = Some (ts_New W sentAt),
      payload = Some (Envelope_ExecutionRequest (Some request))\<rparr>"

definition assignmentEnvelopeLocked :: "pblib \<Rightarrow> Client \<Rightarrow> client_executionRecord \<Rightarrow> Envelope" where
  "assignmentEnvelopeLocked W c r =
     \<lparr>message_id = cx_assignmentMessageID r, sender = cl_identity c, correlation_id = [],
      sent_at = Some (ts_New W (cx_assignmentSentAt r)),
      payload = Some (Envelope_ExecutionAssign (Some
        \<lparr>as_request_id = cx_requestID r, as_offer_id = cx_offerID r, as_execution_id = cx_id r\<rparr>))\<rparr>"

definition uniqueIDLocked :: "string \<Rightarrow> (string, requestRecord) gomap \<Rightarrow> string" where
  "uniqueIDLocked val existing = (if val = [] \<or> map_of existing val \<noteq> None then [] else val)"

definition uniqueExecutionIDLocked :: "string \<Rightarrow> Client \<Rightarrow> string" where
  "uniqueExecutionIDLocked val c = (if val = [] \<or> map_of (cl_executions c) val \<noteq> None then [] else val)"

definition bytes_of_string :: "string \<Rightarrow> bytes" where
  "bytes_of_string s = map (\<lambda>c. word_of_nat (of_char c)) s"

definition initialRunID :: "string \<Rightarrow> string" where
  "initialRunID requestID = hex_EncodeToString (take 16 (Sum256 (bytes_of_string requestID)))"

text \<open>\<open>gen\<close> and \<open>messageID\<close> are the two identifiers the generator returns.\<close>

definition createRequest ::
  "pblib \<Rightarrow> string \<Rightarrow> string \<Rightarrow> gotime \<Rightarrow> Workload option \<Rightarrow> ExecutionPolicy option \<Rightarrow> string \<Rightarrow> PlacementConstraints option
     \<Rightarrow> string \<Rightarrow> 64 word \<Rightarrow> Client \<Rightarrow> Client \<times> (client_error + (string \<times> Envelope))" where
  "createRequest W gen messageID now workload policy class constraints runID attempt c =
     (let requestID = uniqueIDLocked gen (cl_requests c) in
      if requestID = [] \<or> messageID = [] then (c, Inl ClientInvalidConfig)
      else let request = \<lparr>rq_request_id = requestID, rq_workload = workload, rq_policy = policy, rq_resource_class = class,
                 rq_constraints = constraints, rq_run_id = (if runID = [] then initialRunID requestID else runID),
                 rq_attempt = attempt\<rparr>;
               envelope = requestEnvelopeLocked W c request messageID now
      in (case ValidateEnvelope W (Some envelope) of
            Some e \<Rightarrow> (c, Inl (ClientInvalid e))
          | None \<Rightarrow> (c\<lparr>cl_requests := map_put requestID
               \<lparr>cq_request = request, cq_messageID = messageID, cq_createdAt = now, cq_offers = [], cq_executionID = []\<rparr>
               (cl_requests c)\<rparr>, Inr (requestID, envelope))))"

definition CreateRequest ::
  "pblib \<Rightarrow> string \<Rightarrow> string \<Rightarrow> gotime \<Rightarrow> Workload option \<Rightarrow> ExecutionPolicy option \<Rightarrow> string
     \<Rightarrow> Client \<Rightarrow> Client \<times> (client_error + (string \<times> Envelope))" where
  "CreateRequest W gen mid now workload policy class c = createRequest W gen mid now workload policy class None [] 1 c"

definition CreateRequestWithConstraints ::
  "pblib \<Rightarrow> string \<Rightarrow> string \<Rightarrow> gotime \<Rightarrow> Workload option \<Rightarrow> ExecutionPolicy option \<Rightarrow> string \<Rightarrow> PlacementConstraints option
     \<Rightarrow> Client \<Rightarrow> Client \<times> (client_error + (string \<times> Envelope))" where
  "CreateRequestWithConstraints W gen mid now workload policy class constraints c =
     createRequest W gen mid now workload policy class constraints [] 1 c"

definition CreateNextAttempt ::
  "pblib \<Rightarrow> string \<Rightarrow> string \<Rightarrow> gotime \<Rightarrow> ExecutionRequest option \<Rightarrow> Client \<Rightarrow> Client \<times> (client_error + (string \<times> Envelope))" where
  "CreateNextAttempt W gen mid now prev c = (case prev of None \<Rightarrow> (c, Inl ClientInvalidConfig)
     | Some previous \<Rightarrow>
         if rq_attempt previous = NOT 0 then (c, Inl ClientInvalidConfig)
         else createRequest W gen mid now (rq_workload previous) (rq_policy previous) (rq_resource_class previous)
                (rq_constraints previous) (rq_run_id previous) (rq_attempt previous + 1) c)"

definition RequestEnvelope :: "pblib \<Rightarrow> string \<Rightarrow> Client \<Rightarrow> Envelope option" where
  "RequestEnvelope W requestID c = (case map_of (cl_requests c) requestID of None \<Rightarrow> None
     | Some r \<Rightarrow> Some (requestEnvelopeLocked W c (cq_request r) (cq_messageID r) (cq_createdAt r)))"

abbreviation put_execution :: "string \<Rightarrow> client_executionRecord \<Rightarrow> Client \<Rightarrow> Client" where
  "put_execution x r c \<equiv> c\<lparr>cl_executions := map_put x r (cl_executions c)\<rparr>"

definition client_Inspect :: "pblib \<Rightarrow> string \<Rightarrow> gotime \<Rightarrow> string \<Rightarrow> Client \<Rightarrow> Client \<times> (client_error + outgoing)" where
  "client_Inspect W mid now executionID c = (case map_of (cl_executions c) executionID of
     None \<Rightarrow> (c, Inl ClientExecutionNotFound)
   | Some r \<Rightarrow>
      let r1 = r\<lparr>cx_inspectMessageID := mid, cx_inspectSentAt := now\<rparr> in
      if cx_inspectMessageID r1 = []
      then (put_execution executionID (r1\<lparr>cx_inspectMessageID := cx_inspectMessageID r, cx_inspectSentAt := cx_inspectSentAt r\<rparr>) c,
            Inl ClientInvalidConfig)
      else (put_execution executionID r1 c, Inr (cx_destination r1,
        \<lparr>message_id = cx_inspectMessageID r1, sender = cl_identity c, correlation_id = [],
         sent_at = Some (ts_New W (cx_inspectSentAt r1)),
         payload = Some (Envelope_ExecutionInspect (Some \<lparr>in_execution_id = executionID\<rparr>))\<rparr>)))"

definition cancel_envelope :: "pblib \<Rightarrow> Client \<Rightarrow> string \<Rightarrow> string \<Rightarrow> client_executionRecord \<Rightarrow> outgoing" where
  "cancel_envelope W c executionID reason r = (cx_destination r,
     \<lparr>message_id = cx_cancelMessageID r, sender = cl_identity c, correlation_id = [],
      sent_at = Some (ts_New W (cx_cancelSentAt r)),
      payload = Some (Envelope_ExecutionCancel (Some \<lparr>ca_execution_id = executionID, ca_reason = reason\<rparr>))\<rparr>)"

definition client_Cancel ::
  "pblib \<Rightarrow> string \<Rightarrow> gotime \<Rightarrow> string \<Rightarrow> string \<Rightarrow> Client \<Rightarrow> Client \<times> (client_error + outgoing)" where
  "client_Cancel W mid now executionID reason c = (case map_of (cl_executions c) executionID of
     None \<Rightarrow> (c, Inl ClientExecutionNotFound)
   | Some r \<Rightarrow>
      if cx_cancelMessageID r = []
      then let r1 = r\<lparr>cx_cancelMessageID := mid, cx_cancelSentAt := now, cx_cancelReason := reason\<rparr>;
               c1 = put_execution executionID r1 c
           in if cx_cancelMessageID r1 = [] then (c1, Inl ClientInvalidConfig)
              else (c1, Inr (cancel_envelope W c executionID reason r1))
      else if cx_cancelReason r \<noteq> reason then (c, Inl ClientConflict)
      else (c, Inr (cancel_envelope W c executionID reason r)))"

section \<open>Selection\<close>

definition newReleaseLocked ::
  "string \<Rightarrow> gotime \<Rightarrow> client_offerRecord \<Rightarrow> allocatorCatalog \<Rightarrow> client_error + releaseIntent" where
  "newReleaseLocked mid now v c = (case catalog_lookup (co_allocatorID v) c of None \<Rightarrow> Inl ClientInvalidAllocator
     | Some allocator \<Rightarrow>
         if ca_Destination allocator = [] then Inl ClientInvalidAllocator
         else if mid = [] then Inl ClientInvalidConfig
         else Inr \<lparr>ri_MessageID = mid, ri_SentAt = now, ri_Destination = ca_Destination allocator, ri_Acknowledged = False\<rparr>)"

text \<open>The loop that prepares a release for every losing offer, and the loop that then records them, as one pass
  that gives the new offers or the first error; \<open>ids\<close> and \<open>clock\<close> are the identifiers and clock readings it takes.\<close>

fun prepare_releases ::
  "allocatorCatalog \<Rightarrow> string \<Rightarrow> (nat \<Rightarrow> string) \<Rightarrow> (nat \<Rightarrow> gotime) \<Rightarrow> nat \<Rightarrow> (string, client_offerRecord) gomap
     \<Rightarrow> client_error + (string, client_offerRecord) gomap" where
  "prepare_releases c selected ids clock n [] = Inr []"
| "prepare_releases c selected ids clock n ((i, v) # m) =
     (if i = selected \<or> co_release v \<noteq> None
      then (case prepare_releases c selected ids clock n m of Inl e \<Rightarrow> Inl e | Inr m' \<Rightarrow> Inr ((i, v) # m'))
      else (case newReleaseLocked (ids n) (clock n) v c of Inl e \<Rightarrow> Inl e
            | Inr intent \<Rightarrow> (case prepare_releases c selected ids clock (Suc n) m of Inl e \<Rightarrow> Inl e
                | Inr m' \<Rightarrow> Inr ((i, v\<lparr>co_release := Some intent\<rparr>) # m'))))"

definition selected_execution ::
  "string \<Rightarrow> string \<Rightarrow> string \<Rightarrow> gotime \<Rightarrow> client_offerRecord \<Rightarrow> CandidateAllocator \<Rightarrow> client_executionRecord" where
  "selected_execution executionID requestID messageID now v allocator =
     \<lparr>cx_id = executionID, cx_requestID = requestID, cx_offerID = of_offer_id (co_offer v),
      cx_allocatorID = co_allocatorID v, cx_destination = ca_Destination allocator,
      cx_assignmentMessageID = messageID, cx_assignmentSentAt = now, cx_inspectMessageID = [],
      cx_inspectSentAt = zero_time, cx_cancelMessageID = [], cx_cancelSentAt = zero_time, cx_cancelReason = [],
      cx_state = None, cx_leaseDuration = 0, cx_leaseAllocators = [], cx_leaseLost = False,
      cx_leaseRenewedAt = zero_time, cx_leaseRenewMessageID = [], cx_leaseExpiresAt = zero_time\<rparr>"

definition request_image :: "ExecutionRequest \<Rightarrow> string" where
  "request_image q = (case rq_workload q of None \<Rightarrow> [] | Some w \<Rightarrow> wl_image w)"

text \<open>\<open>ids 0\<close> is the identifier for the execution, \<open>ids 1\<close> for the assignment, the following ones for the releases.\<close>

definition Select ::
  "pblib \<Rightarrow> (nat \<Rightarrow> string) \<Rightarrow> (nat \<Rightarrow> gotime) \<Rightarrow> string \<Rightarrow> Client \<Rightarrow> (Client \<times> (client_error + outgoing)) option" where
  "Select W ids clock requestID c = (case map_of (cl_requests c) requestID of
     None \<Rightarrow> Some (c, Inl ClientRequestNotFound)
   | Some r \<Rightarrow>
      if cq_executionID r \<noteq> []
      then (case map_of (cl_executions c) (cq_executionID r) of None \<Rightarrow> None
            | Some x \<Rightarrow> Some (c, Inr (cx_destination x, assignmentEnvelopeLocked W c x)))
      else (case chooseWithPreferences W (cl_allocators c) (cq_offers r) (clock 0) (rq_constraints (cq_request r))
                   (request_image (cq_request r)) of
         None \<Rightarrow> Some (c, Inl ClientNoOffer)
       | Some ((key, v), allocator) \<Rightarrow>
           let executionID = uniqueExecutionIDLocked (ids 0) c; messageID = ids 1 in
           if executionID = [] \<or> messageID = [] then Some (c, Inl ClientInvalidConfig)
           else let x = selected_execution executionID requestID messageID (clock 0) v allocator in
             (case prepare_releases (cl_allocators c) key ids clock 2 (cq_offers r) of
                Inl e \<Rightarrow> Some (c, Inl e)
              | Inr offers \<Rightarrow> Some (c\<lparr>cl_requests := map_put requestID (r\<lparr>cq_offers := offers, cq_executionID := executionID\<rparr>)
                    (cl_requests c), cl_executions := map_put executionID x (cl_executions c)\<rparr>,
                  Inr (cx_destination x, assignmentEnvelopeLocked W c x)))))"

section \<open>Offer releases\<close>

definition release_pending :: "pblib \<Rightarrow> gotime \<Rightarrow> client_offerRecord \<Rightarrow> bool" where
  "release_pending W now v = (case co_release v of None \<Rightarrow> False
     | Some intent \<Rightarrow> \<not> (ri_Acknowledged intent \<or> \<not> AsTime W (of_expires_at (co_offer v)) > now))"

definition pending_release :: "pblib \<Rightarrow> Client \<Rightarrow> requestRecord \<Rightarrow> client_offerRecord \<Rightarrow> PendingRelease" where
  "pending_release W c r v = (let intent = the (co_release v) in
     \<lparr>pl_Destination = ri_Destination intent, pl_Envelope =
       \<lparr>message_id = ri_MessageID intent, sender = cl_identity c, correlation_id = [],
        sent_at = Some (ts_New W (ri_SentAt intent)),
        payload = Some (Envelope_ExecutionOfferRelease (Some
          \<lparr>rl_request_id = rq_request_id (cq_request r), rl_offer_id = of_offer_id (co_offer v)\<rparr>))\<rparr>\<rparr>)"

definition PendingReleases :: "pblib \<Rightarrow> gotime \<Rightarrow> Client \<Rightarrow> PendingRelease list" where
  "PendingReleases W now c =
     sort_slice (\<lambda>l r. message_id (pl_Envelope l) < message_id (pl_Envelope r))
       (concat (map (\<lambda>(i, r). map (\<lambda>(j, v). pending_release W c r v)
          (filter (\<lambda>(j, v). release_pending W now v) (cq_offers r))) (cl_requests c)))"

section \<open>Log reads and tunnels\<close>

definition client_Logs ::
  "pblib \<Rightarrow> string \<Rightarrow> gotime \<Rightarrow> string \<Rightarrow> string \<Rightarrow> 64 word \<Rightarrow> 32 word \<Rightarrow> Client \<Rightarrow> Client \<times> (client_error + outgoing)" where
  "client_Logs W mid now i stream offset limit c = (case map_of (cl_executions c) i of
     None \<Rightarrow> (c, Inl ClientExecutionNotFound)
   | Some r \<Rightarrow>
      let request = \<lparr>lq_execution_id = i, lq_stream = stream, lq_offset = offset, lq_max_bytes = limit\<rparr>;
          e = \<lparr>message_id = mid, sender = cl_identity c, correlation_id = [], sent_at = Some (ts_New W now),
               payload = Some (Envelope_ExecutionLogsRequest (Some request))\<rparr>
      in (case ValidateEnvelope W (Some e) of Some er \<Rightarrow> (c, Inl (ClientInvalid er))
          | None \<Rightarrow> (c\<lparr>cl_logMessageID := message_id e, cl_logRequest := Some request\<rparr>, Inr (cx_destination r, e))))"

definition client_TunnelOpen ::
  "pblib \<Rightarrow> string \<Rightarrow> gotime \<Rightarrow> string \<Rightarrow> bytes \<Rightarrow> Target list \<Rightarrow> Client \<Rightarrow> client_error + outgoing" where
  "client_TunnelOpen W mid now executionID peerKey targets c = (case map_of (cl_executions c) executionID of
     None \<Rightarrow> Inl ClientExecutionNotFound
   | Some r \<Rightarrow>
      if length peerKey = 0 \<or> length peerKey > MaxPeerKeySize then Inl ClientInvalidConfig
      else let protoTargets = TargetsToProto targets in
      (case ValidateTunnelTargets protoTargets of Inl e \<Rightarrow> Inl (ClientInvalid e)
       | Inr _ \<Rightarrow>
          let envelope = \<lparr>message_id = mid, sender = cl_identity c, correlation_id = [], sent_at = Some (ts_New W now),
                payload = Some (Envelope_ExecutionTunnelOpen (Some
                  \<lparr>to_execution_id = executionID, to_ygg_peer_pubkey = peerKey, to_targets = protoTargets\<rparr>))\<rparr>
          in (case ValidateEnvelope W (Some envelope) of Some e \<Rightarrow> Inl (ClientInvalid e)
              | None \<Rightarrow> Inr (cx_destination r, envelope))))"

section \<open>Lease intents\<close>

definition clientDefaultLease :: duration where "clientDefaultLease = DefaultLease"

definition isLostLeaseState :: "ExecutionState \<Rightarrow> bool" where
  "isLostLeaseState s \<longleftrightarrow> st_phase s = EXECUTION_PHASE_FAILED \<and> st_detail s = LeaseExpiredDetail"

definition ended :: "client_executionRecord \<Rightarrow> bool" where
  "ended r = (case cx_state r of None \<Rightarrow> False | Some s \<Rightarrow> Terminal (st_phase s))"

definition markLeaseLostLocked :: "client_executionRecord \<Rightarrow> client_executionRecord" where
  "markLeaseLostLocked r = r\<lparr>cx_leaseLost := True\<rparr>"

text \<open>The duration an intent has after a call with \<open>leaseDuration\<close>.\<close>

definition intend_lease :: "duration \<Rightarrow> client_executionRecord \<Rightarrow> client_executionRecord" where
  "intend_lease leaseDuration r =
     (let r1 = (if leaseDuration > 0 then r\<lparr>cx_leaseDuration := leaseDuration\<rparr> else r)
      in if cx_leaseDuration r1 \<le> 0 then r1\<lparr>cx_leaseDuration := clientDefaultLease\<rparr> else r1)"

text \<open>The results of \<open>Maintain\<close>: the destination, the renewal unless the lease is lost, and whether it is lost.\<close>

definition Maintain ::
  "pblib \<Rightarrow> string \<Rightarrow> gotime \<Rightarrow> string \<Rightarrow> duration \<Rightarrow> Client \<Rightarrow> Client \<times> (client_error + (string \<times> Envelope option \<times> bool))" where
  "Maintain W mid now executionID leaseDuration c = (case map_of (cl_executions c) executionID of
     None \<Rightarrow> (c, Inl ClientExecutionNotFound)
   | Some r \<Rightarrow>
      if cx_leaseLost r then (c, Inr (cx_destination r, None, True))
      else if ended r
      then (if isLostLeaseState (the (cx_state r))
            then (put_execution executionID (markLeaseLostLocked r) c, Inr (cx_destination r, None, True))
            else (c, Inl ClientConflict))
      else let r2 = intend_lease leaseDuration r
      in if mid = [] then (put_execution executionID r2 c, Inl ClientInvalidConfig)
         else let r3 = r2\<lparr>cx_leaseRenewMessageID := mid, cx_leaseRenewedAt := now\<rparr> in
           (put_execution executionID r3 c, Inr (cx_destination r3, Some
              \<lparr>message_id = mid, sender = cl_identity c, correlation_id = [], sent_at = Some (ts_New W now),
               payload = Some (Envelope_ExecutionLeaseRenew (Some
                 \<lparr>rn_execution_id = cx_id r3, rn_lease_duration = Some (pd_New W (cx_leaseDuration r3))\<rparr>))\<rparr>, False)))"

text \<open>Go's integer division truncates; the quotient is taken of a positive duration only.\<close>

definition renewal_due :: "gotime \<Rightarrow> client_executionRecord \<Rightarrow> bool" where
  "renewal_due now r =
     (if cx_leaseDuration r \<le> 0 \<or> cx_leaseLost r then False
      else if ended r then False
      else \<not> (\<not> IsZero (cx_leaseRenewedAt r) \<and> now < cx_leaseRenewedAt r + cx_leaseDuration r div 3))"

definition DueLeaseRenewals :: "gotime \<Rightarrow> Client \<Rightarrow> string list" where
  "DueLeaseRenewals now c = map (\<lambda>(i, r). cx_id r) (filter (\<lambda>(i, r). renewal_due now r) (cl_executions c))"

definition LeaseDue :: "gotime \<Rightarrow> string \<Rightarrow> Client \<Rightarrow> bool" where
  "LeaseDue now executionID c = (case map_of (cl_executions c) executionID of None \<Rightarrow> False
     | Some r \<Rightarrow>
        if cx_leaseDuration r \<le> 0 \<or> cx_leaseLost r then False
        else if ended r then False
        else IsZero (cx_leaseRenewedAt r) \<or> \<not> now < cx_leaseRenewedAt r + cx_leaseDuration r div 3)"

fun pin_loop :: "string list \<Rightarrow> string list \<Rightarrow> string list" where
  "pin_loop seen [] = []"
| "pin_loop seen (d # ds) = (if d = [] \<or> d \<in> set seen then pin_loop seen ds else d # pin_loop (d # seen) ds)"

definition pinnedAllocators :: "string list \<Rightarrow> string list" where
  "pinnedAllocators destinations = (if length destinations = 0 then [] else pin_loop [] destinations)"

definition RecordLeaseIntent :: "string \<Rightarrow> duration \<Rightarrow> string list \<Rightarrow> Client \<Rightarrow> Client \<times> client_error option" where
  "RecordLeaseIntent executionID leaseDuration allocators c = (case map_of (cl_executions c) executionID of
     None \<Rightarrow> (c, Some ClientExecutionNotFound)
   | Some r \<Rightarrow>
      if cx_leaseLost r \<or> ended r then (c, Some ClientConflict)
      else (put_execution executionID (r\<lparr>
             cx_leaseDuration := (if leaseDuration \<le> 0 then clientDefaultLease else leaseDuration),
             cx_leaseAllocators := pinnedAllocators allocators\<rparr>) c, None))"

definition LeaseIntentAllocators :: "string \<Rightarrow> Client \<Rightarrow> string list" where
  "LeaseIntentAllocators executionID c = (case map_of (cl_executions c) executionID of None \<Rightarrow> []
     | Some r \<Rightarrow> cx_leaseAllocators r)"

definition LeaseIntentLost :: "string \<Rightarrow> Client \<Rightarrow> bool" where
  "LeaseIntentLost executionID c = (case map_of (cl_executions c) executionID of None \<Rightarrow> False | Some r \<Rightarrow> cx_leaseLost r)"

definition LostLeaseIntents :: "Client \<Rightarrow> string list" where
  "LostLeaseIntents c = map (\<lambda>(i, r). cx_id r)
     (filter (\<lambda>(i, r). cx_leaseLost r \<and> cx_leaseDuration r > 0) (cl_executions c))"

definition RequestForExecution :: "string \<Rightarrow> Client \<Rightarrow> ExecutionRequest option" where
  "RequestForExecution executionID c = (case map_of (cl_executions c) executionID of None \<Rightarrow> None
     | Some r \<Rightarrow> (case map_of (cl_requests c) (cx_requestID r) of None \<Rightarrow> None | Some q \<Rightarrow> Some (cq_request q)))"

text \<open>Two records are the same pointer exactly when they are stored under the same identifier.\<close>

definition RebindLeaseIntent :: "string \<Rightarrow> string \<Rightarrow> Client \<Rightarrow> Client \<times> client_error option" where
  "RebindLeaseIntent old new c = (case (map_of (cl_executions c) old, map_of (cl_executions c) new) of
     (Some previous, Some replacement) \<Rightarrow>
       if old = new then (c, Some ClientExecutionNotFound)
       else if cx_leaseDuration previous \<le> 0 then (c, Some ClientConflict)
       else (put_execution new (replacement\<lparr>cx_leaseDuration := cx_leaseDuration previous,
                cx_leaseAllocators := cx_leaseAllocators previous, cx_leaseLost := False, cx_leaseExpiresAt := zero_time\<rparr>)
             (put_execution old (previous\<lparr>cx_leaseDuration := 0, cx_leaseLost := False, cx_leaseAllocators := []\<rparr>) c), None)
   | _ \<Rightarrow> (c, Some ClientExecutionNotFound))"

section \<open>Snapshots\<close>

definition client_Requests :: "Client \<Rightarrow> RequestSnapshot list" where
  "client_Requests c = sort_slice (\<lambda>l r. qs_CreatedAt l < qs_CreatedAt r)
     (map (\<lambda>(i, r). \<lparr>qs_Request = cq_request r, qs_CreatedAt = cq_createdAt r, qs_OfferCount = length (cq_offers r),
        qs_ExecutionID = cq_executionID r\<rparr>) (cl_requests c))"

definition snapshotExecution :: "client_executionRecord \<Rightarrow> ExecutionSnapshot" where
  "snapshotExecution r = \<lparr>xs_ExecutionID = cx_id r, xs_RequestID = cx_requestID r, xs_OfferID = cx_offerID r,
     xs_Allocator = cx_allocatorID r, xs_Destination = cx_destination r,
     xs_State = (case cx_state r of None \<Rightarrow> None | Some s \<Rightarrow> Some s)\<rparr>"

definition client_Execution :: "string \<Rightarrow> Client \<Rightarrow> ExecutionSnapshot option" where
  "client_Execution i c = (case map_of (cl_executions c) i of None \<Rightarrow> None | Some r \<Rightarrow> Some (snapshotExecution r))"

definition client_Executions :: "Client \<Rightarrow> ExecutionSnapshot list" where
  "client_Executions c = sort_slice (\<lambda>l r. xs_ExecutionID l < xs_ExecutionID r)
     (map (\<lambda>(i, r). snapshotExecution r) (cl_executions c))"

section \<open>Reactions to received messages\<close>

type_synonym reaction = "Client \<times> client_error option"

definition logAuthorityLocked :: "Envelope \<Rightarrow> Client \<Rightarrow> bool" where
  "logAuthorityLocked e c = (case cl_logRequest c of None \<Rightarrow> False | Some q \<Rightarrow>
     if correlation_id e \<noteq> cl_logMessageID c then False
     else (case map_of (cl_executions c) (lq_execution_id q) of None \<Rightarrow> False
           | Some r \<Rightarrow> cx_allocatorID r = sender e))"

definition handleLogsLocked :: "Envelope \<Rightarrow> ExecutionLogsResponse \<Rightarrow> Client \<Rightarrow> client_error option" where
  "handleLogsLocked e r c =
     (if \<not> logAuthorityLocked e c then Some ClientUnauthorized
      else (case cl_logRequest c of None \<Rightarrow> Some ClientUnauthorized | Some q \<Rightarrow>
        if lr_execution_id r \<noteq> lq_execution_id q \<or> lr_stream r \<noteq> lq_stream q \<or> lr_offset r \<noteq> lq_offset q
           \<or> length (lr_data r) > unat (lq_max_bytes q)
        then Some ClientConflict else None))"

definition markRenewalFailureLocked :: "string \<Rightarrow> string \<Rightarrow> Client \<Rightarrow> Client" where
  "markRenewalFailureLocked executionID code c =
     (if code = ''NOT_FOUND'' \<or> code = ''EXPIRED''
      then (case map_of (cl_executions c) executionID of None \<Rightarrow> c
            | Some r \<Rightarrow> put_execution executionID (r\<lparr>cx_leaseRenewMessageID := [], cx_leaseLost := True\<rparr>) c)
      else c)"

text \<open>The loop over the requests: whether the error answers a request or a release of an offer.\<close>

fun request_authority :: "Envelope \<Rightarrow> Client \<Rightarrow> (string, requestRecord) gomap \<Rightarrow> bool \<Rightarrow> bool" where
  "request_authority e c [] authorized = authorized"
| "request_authority e c ((i, r) # m) authorized =
     (let a1 = (if cq_messageID r = correlation_id e then catalog_lookup (sender e) (cl_allocators c) \<noteq> None else authorized);
          a2 = (if list_ex (\<lambda>(j, v). (case co_release v of None \<Rightarrow> False
                   | Some intent \<Rightarrow> ri_MessageID intent = correlation_id e \<and> co_allocatorID v = sender e)) (cq_offers r)
                then True else a1)
      in request_authority e c m a2)"

definition error_answers :: "Envelope \<Rightarrow> client_executionRecord \<Rightarrow> bool" where
  "error_answers e r \<longleftrightarrow> cx_allocatorID r = sender e
     \<and> (correlation_id e = cx_assignmentMessageID r \<or> correlation_id e = cx_inspectMessageID r
        \<or> correlation_id e = cx_cancelMessageID r \<or> correlation_id e = cx_leaseRenewMessageID r)"

text \<open>The loop over the executions; each iteration looks at one record and changes at most that record.\<close>

fun execution_errors ::
  "Envelope \<Rightarrow> string \<Rightarrow> (string, client_executionRecord) gomap \<Rightarrow> Client \<Rightarrow> bool \<Rightarrow> Client \<times> bool" where
  "execution_errors e code [] c authorized = (c, authorized)"
| "execution_errors e code ((i, r) # m) c authorized =
     (if error_answers e r
      then execution_errors e code m
             (if correlation_id e = cx_leaseRenewMessageID r \<or> correlation_id e = cx_inspectMessageID r
              then markRenewalFailureLocked (cx_id r) code c else c) True
      else execution_errors e code m c authorized)"

definition handleErrorLocked :: "Envelope \<Rightarrow> CommandError \<Rightarrow> Client \<Rightarrow> reaction" where
  "handleErrorLocked e failure c =
     (let authorized = request_authority e c (cl_requests c) (logAuthorityLocked e c) in
      (case execution_errors e (ce_code failure) (cl_executions c) c authorized of
         (c', authorized') \<Rightarrow> if \<not> authorized' then (c', Some ClientUnauthorized) else (c', None)))"

text \<open>\<open>mid\<close> and \<open>now2\<close> are for the release of an offer that arrives after the selection.\<close>

definition handleOfferLocked ::
  "pblib \<Rightarrow> string \<Rightarrow> gotime \<Rightarrow> gotime \<Rightarrow> Envelope \<Rightarrow> ExecutionOffer \<Rightarrow> Client \<Rightarrow> reaction option" where
  "handleOfferLocked W mid now now2 envelope v c = (case map_of (cl_requests c) (of_request_id v) of
     None \<Rightarrow> Some (c, Some ClientRequestNotFound)
   | Some r \<Rightarrow>
      if cq_messageID r \<noteq> correlation_id envelope \<or> of_resource_class v \<noteq> rq_resource_class (cq_request r)
      then Some (c, Some ClientConflict)
      else (case catalog_lookup (sender envelope) (cl_allocators c) of
         None \<Rightarrow> Some (c, Some ClientUnauthorized)
       | Some allocator \<Rightarrow>
          let c1 = (if of_node v \<noteq> None \<and> \<not> CapabilitiesEqual (ca_Node allocator) (of_node v)
                    then c\<lparr>cl_allocators := catalog_put ((cloneAllocator allocator)\<lparr>ca_Node := of_node v\<rparr>) (cl_allocators c)\<rparr>
                    else c)
          in (case map_of (cq_offers r) (of_offer_id v) of
            Some existing \<Rightarrow>
              if co_allocatorID existing \<noteq> sender envelope \<or> \<not> Equal_offer W (co_offer existing) v
              then Some (c1, Some ClientConflict) else Some (c1, None)
          | None \<Rightarrow>
              let newOffer = \<lparr>co_offer = v, co_allocatorID = sender envelope, co_receivedAt = now, co_release = None\<rparr>;
                  store = (\<lambda>w. c1\<lparr>cl_requests := map_put (of_request_id v)
                     (r\<lparr>cq_offers := map_put (of_offer_id v) w (cq_offers r)\<rparr>) (cl_requests c1)\<rparr>)
              in if cq_executionID r = [] then Some (store newOffer, None)
                 else (case map_of (cl_executions c1) (cq_executionID r) of None \<Rightarrow> None
                   | Some x \<Rightarrow>
                      if cx_offerID x = of_offer_id v \<and> cx_allocatorID x = sender envelope then Some (c1, Some ClientConflict)
                      else (case newReleaseLocked mid now2 newOffer (cl_allocators c1) of
                         Inl e \<Rightarrow> Some (c1, Some e)
                       | Inr intent \<Rightarrow> Some (store (newOffer\<lparr>co_release := Some intent\<rparr>), None))))))"

text \<open>The comparison with the state observed before: \<open>None\<close> when the new state is to be recorded, otherwise
  the result of the method.\<close>

definition stale_state :: "pblib \<Rightarrow> ExecutionState \<Rightarrow> ExecutionState \<Rightarrow> client_error option option" where
  "stale_state W old new =
     (let terminal_check = (if Terminal (st_phase old) \<and> \<not> Equal_state W old new then Some (Some ClientConflict) else None);
          same = (if Equal_state W old new then Some None else Some (Some ClientConflict))
      in if st_revision old > 0 \<or> st_revision new > 0
         then (if st_revision new < st_revision old then Some None
               else if st_revision new = st_revision old then same else terminal_check)
         else (if AsTime W (st_occurred_at new) < AsTime W (st_occurred_at old) then Some None
               else if AsTime W (st_occurred_at new) = AsTime W (st_occurred_at old) then same else terminal_check))"

definition observe_state :: "ExecutionState \<Rightarrow> client_executionRecord \<Rightarrow> client_executionRecord" where
  "observe_state s r = (let r1 = r\<lparr>cx_state := Some s\<rparr> in
     if Terminal (st_phase s) \<and> isLostLeaseState s then r1\<lparr>cx_leaseLost := True, cx_leaseRenewMessageID := []\<rparr> else r1)"

definition handleStateLocked :: "pblib \<Rightarrow> Envelope \<Rightarrow> ExecutionState \<Rightarrow> Client \<Rightarrow> reaction" where
  "handleStateLocked W envelope s c = (case map_of (cl_executions c) (st_execution_id s) of
     None \<Rightarrow> (c, Some ClientExecutionNotFound)
   | Some r \<Rightarrow>
      if cx_allocatorID r \<noteq> sender envelope then (c, Some ClientUnauthorized)
      else (case (case cx_state r of None \<Rightarrow> None | Some old \<Rightarrow> stale_state W old s) of
         Some result \<Rightarrow> (c, result)
       | None \<Rightarrow> (put_execution (st_execution_id s) (observe_state s r) c, None)))"

definition handleReleaseAckLocked :: "Envelope \<Rightarrow> ExecutionOfferReleaseAck \<Rightarrow> Client \<Rightarrow> reaction" where
  "handleReleaseAckLocked envelope ack c = (case map_of (cl_requests c) (ra_request_id ack) of
     None \<Rightarrow> (c, Some ClientRequestNotFound)
   | Some r \<Rightarrow>
      (case map_of (cq_offers r) (ra_offer_id ack) of
         None \<Rightarrow> (c, Some ClientConflict)
       | Some v \<Rightarrow>
          (case co_release v of None \<Rightarrow> (c, Some ClientConflict)
           | Some intent \<Rightarrow>
              if co_allocatorID v \<noteq> sender envelope then (c, Some ClientUnauthorized)
              else if ri_MessageID intent \<noteq> correlation_id envelope then (c, Some ClientConflict)
              else if ra_outcome ack = OFFER_RELEASE_OUTCOME_ASSIGNED then (c, Some ClientConflict)
              else if ri_Acknowledged intent then (c, None)
              else (c\<lparr>cl_requests := map_put (ra_request_id ack) (r\<lparr>cq_offers := map_put (ra_offer_id ack)
                      (v\<lparr>co_release := Some (intent\<lparr>ri_Acknowledged := True\<rparr>)\<rparr>) (cq_offers r)\<rparr>) (cl_requests c)\<rparr>, None))))"

definition handleRenewAckLocked :: "pblib \<Rightarrow> gotime \<Rightarrow> Envelope \<Rightarrow> ExecutionLeaseRenewAck \<Rightarrow> Client \<Rightarrow> reaction" where
  "handleRenewAckLocked W now envelope ack c = (case map_of (cl_executions c) (na_execution_id ack) of
     None \<Rightarrow> (c, Some ClientExecutionNotFound)
   | Some r \<Rightarrow>
      if cx_leaseRenewMessageID r = [] \<or> cx_allocatorID r \<noteq> sender envelope
         \<or> cx_leaseRenewMessageID r \<noteq> correlation_id envelope
      then (c, Some ClientUnauthorized)
      else if cx_leaseLost r then (c, Some ClientConflict)
      else (put_execution (na_execution_id ack) (r\<lparr>cx_leaseRenewMessageID := [], cx_leaseRenewedAt := now,
              cx_leaseExpiresAt := AsTime W (na_expires_at ack)\<rparr>) c, None))"

definition handleTunnelOpenAckLocked :: "Envelope \<Rightarrow> ExecutionTunnelOpenAck \<Rightarrow> Client \<Rightarrow> client_error option" where
  "handleTunnelOpenAckLocked envelope ack c = (case map_of (cl_executions c) (ta_execution_id ack) of
     None \<Rightarrow> Some ClientExecutionNotFound
   | Some r \<Rightarrow> if cx_allocatorID r \<noteq> sender envelope then Some ClientUnauthorized else None)"

text \<open>What a method reads besides its arguments: two clock readings and an identifier.\<close>

record client_world =
  cw_now :: gotime
  cw_now2 :: gotime
  cw_id :: string

text \<open>A payload whose message is nil does not pass the validation and never reaches the switch.\<close>

definition client_Handle :: "pblib \<Rightarrow> client_world \<Rightarrow> Envelope option \<Rightarrow> Client \<Rightarrow> reaction option" where
  "client_Handle W w env c = (case ValidateEnvelope W env of Some e \<Rightarrow> Some (c, Some (ClientInvalid e))
     | None \<Rightarrow> (case env of None \<Rightarrow> Some (c, Some ClientUnsupportedMessage) | Some envelope \<Rightarrow>
        (case payload envelope of
           Some (Envelope_ExecutionLogsResponse (Some r)) \<Rightarrow> Some (c, handleLogsLocked envelope r c)
         | Some (Envelope_CommandError (Some f)) \<Rightarrow> Some (handleErrorLocked envelope f c)
         | Some (Envelope_ExecutionOffer (Some v)) \<Rightarrow> handleOfferLocked W (cw_id w) (cw_now w) (cw_now2 w) envelope v c
         | Some (Envelope_ExecutionState (Some s)) \<Rightarrow> Some (handleStateLocked W envelope s c)
         | Some (Envelope_ExecutionOfferReleaseAck (Some a)) \<Rightarrow> Some (handleReleaseAckLocked envelope a c)
         | Some (Envelope_ExecutionLeaseRenewAck (Some a)) \<Rightarrow> Some (handleRenewAckLocked W (cw_now w) envelope a c)
         | Some (Envelope_ExecutionTunnelOpenAck (Some a)) \<Rightarrow> Some (c, handleTunnelOpenAckLocked envelope a c)
         | _ \<Rightarrow> Some (c, Some ClientUnsupportedMessage))))"

text \<open>\<open>RemoteFailure\<close> gives code, detail and whether a retry may help.\<close>

definition RemoteFailure :: "Envelope \<Rightarrow> (string \<times> string \<times> bool) option" where
  "RemoteFailure e = (case payload e of
     Some (Envelope_CommandError (Some f)) \<Rightarrow> Some (ce_code f, ce_detail f, ce_retryable f)
   | _ \<Rightarrow> None)"

end
