(* ===== verification/Client_Inv.thy ===== *)
theory Client_Inv
  imports Client_State Alloc_System
begin

text \<open>
  What every run of the client keeps.  \<open>client_step\<close> lists the methods that change the state; the invariant
  \<open>client_ok\<close> ties requests, offers and executions together: a request has at most one execution, the offer it
  was assigned to has no release, every other offer has one, and the record the code dereferences without a
  check is there.  \<open>client_evolves\<close> is what a step may change: a command that may be sent again stays the same.
\<close>

section \<open>Steps\<close>

inductive client_step :: "pblib \<Rightarrow> Client \<Rightarrow> Client \<Rightarrow> bool" for W where
  register: "client_step W c (fst (RegisterAllocator candidate c))"
| create: "client_step W c (fst (createRequest W i mid now workload policy class constraints runID attempt c))"
| attempt: "client_step W c (fst (CreateNextAttempt W i mid now previous c))"
| inspect: "client_step W c (fst (client_Inspect W mid now x c))"
| cancel: "client_step W c (fst (client_Cancel W mid now x reason c))"
| select: "Select W ids clock q c = Some (c', result) \<Longrightarrow> client_step W c c'"
| logs: "client_step W c (fst (client_Logs W mid now x stream offset limit c))"
| maintain: "client_step W c (fst (Maintain W mid now x d c))"
| intent: "client_step W c (fst (RecordLeaseIntent x d allocators c))"
| rebind: "client_step W c (fst (RebindLeaseIntent old new c))"
| handle: "client_Handle W w e c = Some (c', result) \<Longrightarrow> client_step W c c'"

definition client_start :: "Client \<Rightarrow> bool" where
  "client_start c \<longleftrightarrow> (\<exists>identity. client_New identity = Inr c)"

section \<open>The invariant\<close>

definition request_ok :: "(string \<Rightarrow> client_executionRecord option) \<Rightarrow> string \<Rightarrow> requestRecord \<Rightarrow> bool" where
  "request_ok X k r \<longleftrightarrow> k \<noteq> [] \<and> rq_request_id (cq_request r) = k \<and> wf_map (cq_offers r)
     \<and> (\<forall>j v. map_of (cq_offers r) j = Some v \<longrightarrow> of_offer_id (co_offer v) = j \<and> of_request_id (co_offer v) = k)
     \<and> (if cq_executionID r = [] then \<forall>j v. map_of (cq_offers r) j = Some v \<longrightarrow> co_release v = None
        else \<exists>x w. X (cq_executionID r) = Some x \<and> cx_requestID x = k
           \<and> map_of (cq_offers r) (cx_offerID x) = Some w \<and> co_allocatorID w = cx_allocatorID x
           \<and> (\<forall>j v. map_of (cq_offers r) j = Some v \<longrightarrow> (co_release v = None \<longleftrightarrow> j = cx_offerID x)))"

definition execution_ok :: "(string \<Rightarrow> requestRecord option) \<Rightarrow> string \<Rightarrow> client_executionRecord \<Rightarrow> bool" where
  "execution_ok Q k x \<longleftrightarrow> k \<noteq> [] \<and> cx_id x = k \<and> (\<exists>r. Q (cx_requestID x) = Some r \<and> cq_executionID r = k)"

definition client_ok :: "Client \<Rightarrow> bool" where
  "client_ok c \<longleftrightarrow> cl_identity c \<noteq> [] \<and> wf_map (cl_requests c) \<and> wf_map (cl_executions c)
     \<and> (\<forall>k r. map_of (cl_requests c) k = Some r \<longrightarrow> request_ok (map_of (cl_executions c)) k r)
     \<and> (\<forall>k x. map_of (cl_executions c) k = Some x \<longrightarrow> execution_ok (map_of (cl_requests c)) k x)"

lemma client_okD:
  assumes "client_ok c"
  shows "cl_identity c \<noteq> []" "wf_map (cl_requests c)" "wf_map (cl_executions c)"
    and "map_of (cl_requests c) k = Some r \<Longrightarrow> request_ok (map_of (cl_executions c)) k r"
    and "map_of (cl_executions c) i = Some x \<Longrightarrow> execution_ok (map_of (cl_requests c)) i x"
  using assms by (simp_all add: client_ok_def)

lemma client_okI:
  assumes "cl_identity c \<noteq> []" "wf_map (cl_requests c)" "wf_map (cl_executions c)"
    and "\<And>k r. map_of (cl_requests c) k = Some r \<Longrightarrow> request_ok (map_of (cl_executions c)) k r"
    and "\<And>i x. map_of (cl_executions c) i = Some x \<Longrightarrow> execution_ok (map_of (cl_requests c)) i x"
  shows "client_ok c"
  using assms by (simp add: client_ok_def)

text \<open>The part of an execution that is fixed when it is created.\<close>

definition same_binding :: "client_executionRecord \<Rightarrow> client_executionRecord \<Rightarrow> bool" where
  "same_binding x y \<longleftrightarrow> cx_id y = cx_id x \<and> cx_requestID y = cx_requestID x \<and> cx_offerID y = cx_offerID x
     \<and> cx_allocatorID y = cx_allocatorID x \<and> cx_destination y = cx_destination x
     \<and> cx_assignmentMessageID y = cx_assignmentMessageID x \<and> cx_assignmentSentAt y = cx_assignmentSentAt x"

lemma same_binding_refl [simp]: "same_binding x x"
  by (simp add: same_binding_def)

lemma request_ok_binding:
  assumes "request_ok X k r" and "\<And>i x. X i = Some x \<Longrightarrow> \<exists>y. Y i = Some y \<and> same_binding x y"
  shows "request_ok Y k r"
proof (cases "cq_executionID r = []")
  case False
  with assms(1) obtain x w where "X (cq_executionID r) = Some x" "cx_requestID x = k"
    "map_of (cq_offers r) (cx_offerID x) = Some w" "co_allocatorID w = cx_allocatorID x"
    "\<forall>j v. map_of (cq_offers r) j = Some v \<longrightarrow> (co_release v = None \<longleftrightarrow> j = cx_offerID x)"
    by (auto simp: request_ok_def)
  moreover from this(1) assms(2) obtain y where "Y (cq_executionID r) = Some y" "same_binding x y" by blast
  ultimately show ?thesis using assms(1) False by (auto simp: request_ok_def same_binding_def)
qed (use assms(1) in \<open>simp add: request_ok_def\<close>)

lemma client_ok_put_execution:
  assumes ok: "client_ok c" and x: "map_of (cl_executions c) i = Some x" and y: "same_binding x y"
  shows "client_ok (put_execution i y c)"
proof (rule client_okI)
  have "execution_ok (map_of (cl_requests c)) i y"
    using client_okD(5)[OF ok x] y by (simp add: execution_ok_def same_binding_def)
  then show "execution_ok (map_of (cl_requests (put_execution i y c))) k z"
    if "map_of (cl_executions (put_execution i y c)) k = Some z" for k z
    using that client_okD(5)[OF ok, of k z] by (auto split: if_splits)
  show "request_ok (map_of (cl_executions (put_execution i y c))) k r"
    if "map_of (cl_requests (put_execution i y c)) k = Some r" for k r
    by (rule request_ok_binding[of "map_of (cl_executions c)"])
      (use client_okD(4)[OF ok, of k r] that x y in auto)
qed (use client_okD[OF ok] in simp_all)

section \<open>What a step may change\<close>

definition release_kept :: "releaseIntent option \<Rightarrow> releaseIntent option \<Rightarrow> bool" where
  "release_kept a b = (case a of None \<Rightarrow> True | Some i \<Rightarrow>
     b = Some i \<or> b = Some (i\<lparr>ri_Acknowledged := True\<rparr>))"

definition offer_kept :: "client_offerRecord \<Rightarrow> client_offerRecord \<Rightarrow> bool" where
  "offer_kept v w \<longleftrightarrow> co_offer w = co_offer v \<and> co_allocatorID w = co_allocatorID v \<and> co_receivedAt w = co_receivedAt v
     \<and> release_kept (co_release v) (co_release w)"

definition request_kept :: "requestRecord \<Rightarrow> requestRecord \<Rightarrow> bool" where
  "request_kept r s \<longleftrightarrow> cq_request s = cq_request r \<and> cq_messageID s = cq_messageID r \<and> cq_createdAt s = cq_createdAt r
     \<and> (cq_executionID r \<noteq> [] \<longrightarrow> cq_executionID s = cq_executionID r)
     \<and> (\<forall>j v. map_of (cq_offers r) j = Some v \<longrightarrow> (\<exists>w. map_of (cq_offers s) j = Some w \<and> offer_kept v w))"

definition client_evolves :: "Client \<Rightarrow> Client \<Rightarrow> bool" where
  "client_evolves c d \<longleftrightarrow> cl_identity d = cl_identity c
     \<and> (\<forall>k r. map_of (cl_requests c) k = Some r \<longrightarrow> (\<exists>s. map_of (cl_requests d) k = Some s \<and> request_kept r s))
     \<and> (\<forall>k x. map_of (cl_executions c) k = Some x \<longrightarrow> (\<exists>y. map_of (cl_executions d) k = Some y \<and> same_binding x y))"

lemma release_kept_refl [simp]: "release_kept a a"
  by (simp add: release_kept_def split: option.split)

lemma release_kept_trans: "release_kept a b \<Longrightarrow> release_kept b c \<Longrightarrow> release_kept a c"
  by (auto simp: release_kept_def split: option.splits)

lemma offer_kept_refl [simp]: "offer_kept v v"
  by (simp add: offer_kept_def)

lemma offer_kept_trans: "offer_kept u v \<Longrightarrow> offer_kept v w \<Longrightarrow> offer_kept u w"
  by (auto simp: offer_kept_def intro: release_kept_trans)

lemma request_kept_refl [simp]: "request_kept r r"
  by (simp add: request_kept_def)

lemma request_kept_trans:
  assumes "request_kept q r" "request_kept r s"
  shows "request_kept q s"
proof -
  have "\<exists>w. map_of (cq_offers s) j = Some w \<and> offer_kept v w" if "map_of (cq_offers q) j = Some v" for j v
    using that assms offer_kept_trans unfolding request_kept_def by metis
  then show ?thesis using assms by (simp add: request_kept_def)
qed

lemma same_binding_trans: "same_binding x y \<Longrightarrow> same_binding y z \<Longrightarrow> same_binding x z"
  by (simp add: same_binding_def)

lemma client_evolves_refl [simp]: "client_evolves c c"
  by (simp add: client_evolves_def)

lemma client_evolvesD:
  assumes "client_evolves c d"
  shows "cl_identity d = cl_identity c"
    and "map_of (cl_requests c) k = Some r \<Longrightarrow> \<exists>s. map_of (cl_requests d) k = Some s \<and> request_kept r s"
    and "map_of (cl_executions c) k = Some x \<Longrightarrow> \<exists>y. map_of (cl_executions d) k = Some y \<and> same_binding x y"
  using assms by (simp_all add: client_evolves_def)

lemma client_evolves_trans:
  assumes "client_evolves b c" "client_evolves c d"
  shows "client_evolves b d"
proof -
  have "\<exists>s. map_of (cl_requests d) k = Some s \<and> request_kept r s" if "map_of (cl_requests b) k = Some r" for k r
    using client_evolvesD(2)[OF assms(1) that] client_evolvesD(2)[OF assms(2)] by (blast intro: request_kept_trans)
  moreover have "\<exists>y. map_of (cl_executions d) k = Some y \<and> same_binding x y" if "map_of (cl_executions b) k = Some x" for k x
    using client_evolvesD(3)[OF assms(1) that] client_evolvesD(3)[OF assms(2)] by (blast intro: same_binding_trans)
  ultimately show ?thesis using client_evolvesD(1)[OF assms(1)] client_evolvesD(1)[OF assms(2)]
    by (simp add: client_evolves_def)
qed

lemma client_evolves_put_execution:
  "map_of (cl_executions c) i = Some x \<Longrightarrow> same_binding x y \<Longrightarrow> client_evolves c (put_execution i y c)"
  by (auto simp: client_evolves_def)

text \<open>A good step keeps the invariant and evolves.\<close>

definition client_good :: "Client \<Rightarrow> Client \<Rightarrow> bool" where
  "client_good c d \<longleftrightarrow> client_ok d \<and> client_evolves c d"

lemma client_good_refl: "client_ok c \<Longrightarrow> client_good c c"
  by (simp add: client_good_def)

lemma client_good_trans: "client_good b c \<Longrightarrow> client_good c d \<Longrightarrow> client_good b d"
  by (auto simp: client_good_def intro: client_evolves_trans)

lemma client_good_put_execution:
  "client_ok c \<Longrightarrow> map_of (cl_executions c) i = Some x \<Longrightarrow> same_binding x y \<Longrightarrow> client_good c (put_execution i y c)"
  by (simp add: client_good_def client_ok_put_execution client_evolves_put_execution)

lemma client_good_catalog: "client_ok c \<Longrightarrow> client_good c (c\<lparr>cl_allocators := a\<rparr>)"
  by (simp add: client_good_def client_ok_def client_evolves_def)

lemma client_good_log: "client_ok c \<Longrightarrow> client_good c (c\<lparr>cl_logMessageID := m, cl_logRequest := q\<rparr>)"
  by (simp add: client_good_def client_ok_def client_evolves_def)

lemma client_good_put_request:
  assumes ok: "client_ok c" and r: "map_of (cl_requests c) k = Some r" and kept: "request_kept r s"
    and s: "request_ok (map_of (cl_executions c)) k s" and id: "cq_executionID s = cq_executionID r"
  shows "client_good c (c\<lparr>cl_requests := map_put k s (cl_requests c)\<rparr>)"
proof -
  have "client_ok (c\<lparr>cl_requests := map_put k s (cl_requests c)\<rparr>)"
  proof (rule client_okI)
    show "execution_ok (map_of (cl_requests (c\<lparr>cl_requests := map_put k s (cl_requests c)\<rparr>))) i x"
      if "map_of (cl_executions (c\<lparr>cl_requests := map_put k s (cl_requests c)\<rparr>)) i = Some x" for i x
      using client_okD(5)[OF ok, of i x] that r id by (auto simp: execution_ok_def)
    show "request_ok (map_of (cl_executions (c\<lparr>cl_requests := map_put k s (cl_requests c)\<rparr>))) j q"
      if "map_of (cl_requests (c\<lparr>cl_requests := map_put k s (cl_requests c)\<rparr>)) j = Some q" for j q
      using client_okD(4)[OF ok, of j q] that s by (auto split: if_splits)
  qed (use client_okD[OF ok] in simp_all)
  moreover have "client_evolves c (c\<lparr>cl_requests := map_put k s (cl_requests c)\<rparr>)"
    using r kept by (auto simp: client_evolves_def)
  ultimately show ?thesis by (simp add: client_good_def)
qed

section \<open>The single methods\<close>

lemma RegisterAllocator_good: "client_ok c \<Longrightarrow> client_good c (fst (RegisterAllocator a c))"
  by (simp add: RegisterAllocator_def client_good_refl client_good_catalog)

lemma client_good_new_request:
  assumes ok: "client_ok c" and i: "i \<noteq> []" "map_of (cl_requests c) i = None" "rq_request_id (cq_request r) = i"
    and r: "cq_offers r = []" "cq_executionID r = []"
  shows "client_good c (c\<lparr>cl_requests := map_put i r (cl_requests c)\<rparr>)"
proof -
  have "client_ok (c\<lparr>cl_requests := map_put i r (cl_requests c)\<rparr>)"
  proof (rule client_okI)
    show "execution_ok (map_of (cl_requests (c\<lparr>cl_requests := map_put i r (cl_requests c)\<rparr>))) k x"
      if "map_of (cl_executions (c\<lparr>cl_requests := map_put i r (cl_requests c)\<rparr>)) k = Some x" for k x
      using client_okD(5)[OF ok, of k x] that i by (auto simp: execution_ok_def)
    show "request_ok (map_of (cl_executions (c\<lparr>cl_requests := map_put i r (cl_requests c)\<rparr>))) j q"
      if "map_of (cl_requests (c\<lparr>cl_requests := map_put i r (cl_requests c)\<rparr>)) j = Some q" for j q
      using client_okD(4)[OF ok, of j q] that i r by (auto split: if_splits simp: request_ok_def)
  qed (use client_okD[OF ok] in simp_all)
  moreover have "client_evolves c (c\<lparr>cl_requests := map_put i r (cl_requests c)\<rparr>)"
    using i by (auto simp: client_evolves_def)
  ultimately show ?thesis by (simp add: client_good_def)
qed

lemma createRequest_good:
  "client_ok c \<Longrightarrow> client_good c (fst (createRequest W i mid now workload policy class constraints runID attempt c))"
  by (auto simp: createRequest_def uniqueIDLocked_def Let_def intro!: client_good_refl client_good_new_request
      split: option.split)

lemma CreateNextAttempt_good: "client_ok c \<Longrightarrow> client_good c (fst (CreateNextAttempt W i mid now previous c))"
  by (simp add: CreateNextAttempt_def createRequest_good client_good_refl split: option.split)

lemma client_Inspect_good: "client_ok c \<Longrightarrow> client_good c (fst (client_Inspect W mid now x c))"
  by (auto simp: client_Inspect_def Let_def same_binding_def intro!: client_good_refl client_good_put_execution
      split: option.split)

lemma client_Cancel_good: "client_ok c \<Longrightarrow> client_good c (fst (client_Cancel W mid now x reason c))"
  by (auto simp: client_Cancel_def Let_def same_binding_def intro!: client_good_refl client_good_put_execution
      split: option.split)

lemma client_Logs_good: "client_ok c \<Longrightarrow> client_good c (fst (client_Logs W mid now x stream offset limit c))"
  by (auto simp: client_Logs_def Let_def intro!: client_good_refl client_good_log split: option.split)

lemma Maintain_good:
  assumes ok: "client_ok c"
  shows "client_good c (fst (Maintain W mid now x d c))"
proof (cases "map_of (cl_executions c) x")
  case None
  then show ?thesis using ok by (simp add: Maintain_def client_good_refl)
next
  case (Some r)
  have "same_binding r (intend_lease d r)" "same_binding r (markLeaseLostLocked r)"
    "same_binding r ((intend_lease d r)\<lparr>cx_leaseRenewMessageID := mid, cx_leaseRenewedAt := now\<rparr>)"
    by (simp_all add: intend_lease_def Let_def same_binding_def markLeaseLostLocked_def)
  note good = this[THEN client_good_put_execution[OF ok Some]]
  show ?thesis
    using good client_good_refl[OF ok] unfolding Maintain_def Some option.case Let_def by simp
qed

lemma RecordLeaseIntent_good: "client_ok c \<Longrightarrow> client_good c (fst (RecordLeaseIntent x d allocators c))"
  by (auto simp: RecordLeaseIntent_def same_binding_def intro!: client_good_refl client_good_put_execution
      split: option.split)

lemma RebindLeaseIntent_good:
  assumes ok: "client_ok c"
  shows "client_good c (fst (RebindLeaseIntent old new c))"
proof -
  have "client_good c (put_execution new s (put_execution old r c))"
    if "map_of (cl_executions c) old = Some p" "map_of (cl_executions c) new = Some q" "old \<noteq> new"
      "same_binding p r" "same_binding q s" for p q r s
  proof -
    have "client_good c (put_execution old r c)" using ok that by (intro client_good_put_execution)
    moreover from this have "client_good (put_execution old r c) (put_execution new s (put_execution old r c))"
      using that by (intro client_good_put_execution[where x = q]) (auto simp: client_good_def)
    ultimately show ?thesis by (rule client_good_trans)
  qed
  then show ?thesis using ok
    by (auto simp: RebindLeaseIntent_def same_binding_def intro!: client_good_refl split: option.split)
qed

section \<open>Selection\<close>

text \<open>The ranking as a key: fewer hops, then a cached image, then the smaller identity, then the smaller offer.\<close>

definition offer_rank :: "allocatorCatalog \<Rightarrow> string \<Rightarrow> client_offerRecord \<Rightarrow> 8 word \<times> bool \<times> bytes \<times> string" where
  "offer_rank c img v = (ca_Hops (entry_of c (co_allocatorID v)),
     \<not> (img \<noteq> [] \<and> nodeCaches (of_node (co_offer v)) img), co_allocatorID v, of_offer_id (co_offer v))"

lemma offer_less_rank: "offer_less c img v w \<longleftrightarrow> offer_rank c img v < offer_rank c img w"
  unfolding offer_less_def offer_rank_def Let_def less_prod_simp by auto

lemma insert_slice_key: "(\<And>x y. lt x y \<longleftrightarrow> f x < f y) \<Longrightarrow> insert_slice lt x xs = insort_key f x xs"
  by (induction xs) (auto simp: not_le)

lemma sort_slice_key:
  assumes "\<And>x y. lt x y \<longleftrightarrow> f x < f y"
  shows "sort_slice lt xs = sort_key f xs"
proof -
  have "insert_slice lt = insort_key f" by (intro ext) (rule insert_slice_key[of lt f, OF assms])
  then show ?thesis by (simp add: sort_slice_def sort_key_def)
qed

lemma hd_sort_key: "xs \<noteq> [] \<Longrightarrow> hd (sort_key f xs) \<in> set xs \<and> (\<forall>x\<in>set xs. f (hd (sort_key f xs)) \<le> f x)"
proof -
  assume "xs \<noteq> []"
  then obtain y ys where y: "sort_key f xs = y # ys" by (metis list.exhaust set_empty set_sort)
  have "sorted (map f (y # ys))" "set (y # ys) = set xs" unfolding y[symmetric] by simp_all
  with y show ?thesis by auto
qed

lemma chooseWithPreferences_None:
  "chooseWithPreferences W c offers now k img = None \<longleftrightarrow> (\<forall>(j, v)\<in>set offers. \<not> usable_offer W c now k v)"
  by (auto simp: chooseWithPreferences_def Let_def filter_empty_conv)

lemma chooseWithPreferences_Some:
  assumes "chooseWithPreferences W c offers now k img = Some ((i, v), a)"
  shows "(i, v) \<in> set offers" "usable_offer W c now k v" "catalog_lookup (co_allocatorID v) c = Some a"
    "\<forall>(j, w)\<in>set offers. usable_offer W c now k w \<longrightarrow> offer_rank c img v \<le> offer_rank c img w"
proof -
  define cs where "cs = filter (\<lambda>(i, v). usable_offer W c now k v) offers"
  define f where "f = (\<lambda>l :: string \<times> client_offerRecord. offer_rank c img (snd l))"
  have sel: "cs \<noteq> []" "(i, v) = hd (sort_key f cs)" "a = entry_of c (co_allocatorID v)"
    using assms sort_slice_key[of "\<lambda>l r. offer_less c img (snd l) (snd r)" f]
    by (auto simp: chooseWithPreferences_def Let_def cs_def f_def offer_less_rank split: if_splits)
  from hd_sort_key[OF sel(1), of f] sel(2) have best: "(i, v) \<in> set cs" "\<forall>x\<in>set cs. f (i, v) \<le> f x" by simp_all
  then show "(i, v) \<in> set offers" and use: "usable_offer W c now k v" by (simp_all add: cs_def)
  then show "catalog_lookup (co_allocatorID v) c = Some a"
    using sel(3) by (auto simp: usable_offer_def entry_of_def split: option.splits)
  show "\<forall>(j, w)\<in>set offers. usable_offer W c now k w \<longrightarrow> offer_rank c img v \<le> offer_rank c img w"
    using best(2) by (auto simp: cs_def f_def)
qed

lemma newReleaseLocked_kept: "co_release v = None \<Longrightarrow> offer_kept v (v\<lparr>co_release := r\<rparr>)"
  by (simp add: offer_kept_def release_kept_def)

lemma prepare_releases_keys:
  "prepare_releases c k ids clock n m = Inr m' \<Longrightarrow> map fst m' = map fst m"
  by (induction c k ids clock n m arbitrary: m' rule: prepare_releases.induct) (auto split: if_splits sum.splits)

lemma prepare_releases_offers:
  "prepare_releases c k ids clock n m = Inr m' \<Longrightarrow> map_of m j = Some v \<Longrightarrow>
     \<exists>w. map_of m' j = Some w \<and> offer_kept v w \<and> (j = k \<longrightarrow> w = v) \<and> (j \<noteq> k \<longrightarrow> co_release w \<noteq> None)"
proof (induction c k ids clock n m arbitrary: m' rule: prepare_releases.induct)
  case (2 c k ids clock n i u m)
  show ?case
  proof (cases "i = k \<or> co_release u \<noteq> None")
    case True
    with 2 show ?thesis by (auto split: sum.splits if_splits)
  next
    case False
    with 2(3) obtain b m1 where new: "newReleaseLocked (ids n) (clock n) u c = Inr b"
      "prepare_releases c k ids clock (Suc n) m = Inr m1" "m' = (i, u\<lparr>co_release := Some b\<rparr>) # m1"
      by (auto split: sum.splits)
    show ?thesis
    proof (cases "j = i")
      case True
      with False 2(4) new(3) show ?thesis by (auto simp: newReleaseLocked_kept)
    next
      case neq: False
      with 2(4) have "map_of m j = Some v" by simp
      from 2(2)[OF False new(1,2) this] neq new(3) show ?thesis by simp
    qed
  qed
qed simp

lemma map_of_same_keys: "map fst m = map fst m' \<Longrightarrow> map_of m j = None \<longleftrightarrow> map_of m' j = None"
  by (metis map_of_None_keys set_map)

lemma client_good_selected:
  assumes ok: "client_ok c" and r: "map_of (cl_requests c) q = Some r" and unassigned: "cq_executionID r = []"
    and v: "map_of (cq_offers r) k = Some v" and x: "x \<noteq> []" "map_of (cl_executions c) x = None"
    and m: "prepare_releases cat k ids clock n (cq_offers r) = Inr m"
    and y: "cx_id y = x" "cx_requestID y = q" "cx_offerID y = of_offer_id (co_offer v)" "cx_allocatorID y = co_allocatorID v"
  shows "client_good c (c\<lparr>cl_requests := map_put q (r\<lparr>cq_offers := m, cq_executionID := x\<rparr>) (cl_requests c),
           cl_executions := map_put x y (cl_executions c)\<rparr>)" (is "client_good c ?d")
proof -
  let ?s = "r\<lparr>cq_offers := m, cq_executionID := x\<rparr>"
  have rok: "request_ok (map_of (cl_executions c)) q r" using client_okD(4)[OF ok r] .
  have none: "co_release w = None" if "map_of (cq_offers r) j = Some w" for j w
    using rok unassigned that by (auto simp: request_ok_def)
  have k: "cx_offerID y = k" using rok v y by (auto simp: request_ok_def)
  have offers: "\<exists>w. map_of m j = Some w \<and> offer_kept u w \<and> (j = k \<longrightarrow> w = u) \<and> (j \<noteq> k \<longrightarrow> co_release w \<noteq> None)"
    if "map_of (cq_offers r) j = Some u" for j u
    using prepare_releases_offers[OF m that] .
  have converse: "\<exists>u. map_of (cq_offers r) j = Some u \<and> offer_kept u w \<and> (co_release w = None \<longleftrightarrow> j = k)"
    if w: "map_of m j = Some w" for j w
  proof -
    from w obtain u where u: "map_of (cq_offers r) j = Some u"
      using map_of_same_keys[OF prepare_releases_keys[OF m], of j] by fastforce
    with offers[OF u] w none[OF u] show ?thesis by auto
  qed
  have "map_of m k = Some v" using offers[OF v] by auto
  moreover have "wf_map m" using rok prepare_releases_keys[OF m] by (simp add: request_ok_def wf_map_def)
  moreover have "of_offer_id (co_offer w) = j \<and> of_request_id (co_offer w) = q" if "map_of m j = Some w" for j w
    using converse[OF that] rok by (auto simp: request_ok_def offer_kept_def)
  ultimately have s: "request_ok (map_of (cl_executions ?d)) q ?s"
    using rok converse k y x by (auto simp: request_ok_def)
  have "client_ok ?d"
  proof (rule client_okI)
    show "request_ok (map_of (cl_executions ?d)) j t" if t: "map_of (cl_requests ?d) j = Some t" for j t
    proof (cases "j = q")
      case False
      have "request_ok (map_of (cl_executions c)) j t" using client_okD(4)[OF ok, of j t] t False by simp
      then show ?thesis by (rule request_ok_binding) (use x in auto)
    qed (use s t in simp)
    show "execution_ok (map_of (cl_requests ?d)) i z" if "map_of (cl_executions ?d) i = Some z" for i z
      using client_okD(5)[OF ok, of i z] that x y r unassigned
      by (cases "i = x") (auto simp: execution_ok_def)
  qed (use client_okD[OF ok] in simp_all)
  moreover have "request_kept r ?s" using offers unassigned by (fastforce simp: request_kept_def)
  ultimately show ?thesis using r x by (auto simp: client_good_def client_evolves_def)
qed

lemma Select_good:
  assumes ok: "client_ok c" and sel: "Select W ids clock q c = Some (d, result)"
  shows "client_good c d"
proof (cases "map_of (cl_requests c) q")
  case (Some r)
  show ?thesis
  proof (cases "d = c")
    case False
    with sel Some obtain k v a m where new: "cq_executionID r = []"
        "chooseWithPreferences W (cl_allocators c) (cq_offers r) (clock 0) (rq_constraints (cq_request r))
           (request_image (cq_request r)) = Some ((k, v), a)"
        "uniqueExecutionIDLocked (ids 0) c \<noteq> []" "prepare_releases (cl_allocators c) k ids clock 2 (cq_offers r) = Inr m"
        "d = c\<lparr>cl_requests := map_put q (r\<lparr>cq_offers := m, cq_executionID := uniqueExecutionIDLocked (ids 0) c\<rparr>) (cl_requests c),
             cl_executions := map_put (uniqueExecutionIDLocked (ids 0) c)
               (selected_execution (uniqueExecutionIDLocked (ids 0) c) q (ids 1) (clock 0) v a) (cl_executions c)\<rparr>"
      by (auto simp: Select_def Let_def split: option.splits if_splits sum.splits prod.splits)
    have "map_of (cq_offers r) k = Some v"
      using chooseWithPreferences_Some(1)[OF new(2)] client_okD(4)[OF ok Some] by (simp add: request_ok_def map_of_in)
    then show ?thesis
      unfolding new(5) by (intro client_good_selected[OF ok Some new(1) _ _ _ new(4)])
        (use new(3) in \<open>auto simp: selected_execution_def uniqueExecutionIDLocked_def split: if_splits\<close>)
  qed (use ok in \<open>simp add: client_good_refl\<close>)
qed (use ok sel in \<open>auto simp: Select_def client_good_refl\<close>)

section \<open>Received messages\<close>

lemma markRenewalFailure_good: "client_ok c \<Longrightarrow> client_good c (markRenewalFailureLocked x code c)"
  by (auto simp: markRenewalFailureLocked_def same_binding_def intro!: client_good_refl client_good_put_execution
      split: option.split)

lemma execution_errors_good: "client_ok c \<Longrightarrow> client_good c (fst (execution_errors e code m c authorized))"
proof (induction e code m c authorized rule: execution_errors.induct)
  case (2 e code i r m c authorized)
  let ?d = "if correlation_id e = cx_leaseRenewMessageID r \<or> correlation_id e = cx_inspectMessageID r
    then markRenewalFailureLocked (cx_id r) code c else c"
  have d: "client_good c ?d" using 2(3) by (simp add: markRenewalFailure_good client_good_refl)
  then have "client_ok ?d" by (simp add: client_good_def)
  with 2(1) d 2(2)[OF _ 2(3)] show ?case by (auto intro: client_good_trans)
qed (simp add: client_good_refl)

lemma handleErrorLocked_good: "client_ok c \<Longrightarrow> client_good c (fst (handleErrorLocked e f c))"
  using execution_errors_good[of c e "ce_code f" "cl_executions c"]
  by (simp add: handleErrorLocked_def Let_def prod.case_eq_if)

lemma same_binding_observe [simp]: "same_binding r (observe_state s r)"
  by (simp add: observe_state_def Let_def same_binding_def)

lemma handleStateLocked_good:
  assumes ok: "client_ok c"
  shows "client_good c (fst (handleStateLocked W e s c))"
proof (cases "map_of (cl_executions c) (st_execution_id s)")
  case (Some r)
  note good = client_good_refl[OF ok] client_good_put_execution[OF ok Some same_binding_observe]
  show ?thesis
    unfolding handleStateLocked_def Some option.case by (simp add: good split: option.split)
qed (simp add: handleStateLocked_def client_good_refl ok)

lemma handleRenewAckLocked_good: "client_ok c \<Longrightarrow> client_good c (fst (handleRenewAckLocked W now e a c))"
  by (auto simp: handleRenewAckLocked_def same_binding_def intro!: client_good_refl client_good_put_execution
      split: option.split)

text \<open>Replacing one offer by one that keeps its release, or adding an offer that was not there.\<close>

lemma request_ok_selectedI:
  assumes "k \<noteq> []" "rq_request_id (cq_request r) = k" "wf_map (cq_offers r)"
    and "\<And>j v. map_of (cq_offers r) j = Some v \<Longrightarrow> of_offer_id (co_offer v) = j \<and> of_request_id (co_offer v) = k"
    and "cq_executionID r \<noteq> []" "X (cq_executionID r) = Some x" "cx_requestID x = k"
    and "map_of (cq_offers r) (cx_offerID x) = Some w" "co_allocatorID w = cx_allocatorID x"
    and "\<And>j v. map_of (cq_offers r) j = Some v \<Longrightarrow> co_release v = None \<longleftrightarrow> j = cx_offerID x"
  shows "request_ok X k r"
  using assms by (simp add: request_ok_def)

lemma request_ok_update_offer:
  assumes "request_ok X k r" "map_of (cq_offers r) j = Some v" "offer_kept v w" "co_release w = None \<longleftrightarrow> co_release v = None"
  shows "request_ok X k (r\<lparr>cq_offers := map_put j w (cq_offers r)\<rparr>)"
proof (cases "cq_executionID r = []")
  case False
  with assms(1) obtain x u where "X (cq_executionID r) = Some x" "cx_requestID x = k"
    "map_of (cq_offers r) (cx_offerID x) = Some u" "co_allocatorID u = cx_allocatorID x"
    "\<forall>j v. map_of (cq_offers r) j = Some v \<longrightarrow> (co_release v = None \<longleftrightarrow> j = cx_offerID x)"
    by (auto simp: request_ok_def)
  then show ?thesis using assms False
    by (intro request_ok_selectedI[where x = x and w = "if cx_offerID x = j then w else u"])
      (auto simp: request_ok_def offer_kept_def split: if_splits)
qed (use assms in \<open>auto simp: request_ok_def offer_kept_def split: if_splits\<close>)

lemma request_ok_new_offer:
  assumes "request_ok X k r" "map_of (cq_offers r) j = None" "of_offer_id (co_offer w) = j" "of_request_id (co_offer w) = k"
    and "co_release w = None \<longleftrightarrow> cq_executionID r = []"
  shows "request_ok X k (r\<lparr>cq_offers := map_put j w (cq_offers r)\<rparr>)"
proof (cases "cq_executionID r = []")
  case False
  with assms(1) obtain x u where x: "X (cq_executionID r) = Some x" "cx_requestID x = k"
    "map_of (cq_offers r) (cx_offerID x) = Some u" "co_allocatorID u = cx_allocatorID x"
    "\<forall>j v. map_of (cq_offers r) j = Some v \<longrightarrow> (co_release v = None \<longleftrightarrow> j = cx_offerID x)"
    by (auto simp: request_ok_def)
  moreover have "cx_offerID x \<noteq> j" using x(3) assms(2) by auto
  ultimately show ?thesis using assms False
    by (intro request_ok_selectedI[where x = x and w = u]) (auto simp: request_ok_def split: if_splits)
qed (use assms in \<open>auto simp: request_ok_def split: if_splits\<close>)

lemma request_kept_put_offer:
  "(\<And>v. map_of (cq_offers r) j = Some v \<Longrightarrow> offer_kept v w) \<Longrightarrow> request_kept r (r\<lparr>cq_offers := map_put j w (cq_offers r)\<rparr>)"
  by (auto simp: request_kept_def)

lemma handleReleaseAckLocked_good:
  assumes ok: "client_ok c"
  shows "client_good c (fst (handleReleaseAckLocked e a c))"
proof -
  have "client_good c (c\<lparr>cl_requests := map_put (ra_request_id a) (r\<lparr>cq_offers := map_put (ra_offer_id a)
      (v\<lparr>co_release := Some (intent\<lparr>ri_Acknowledged := True\<rparr>)\<rparr>) (cq_offers r)\<rparr>) (cl_requests c)\<rparr>)"
    if r: "map_of (cl_requests c) (ra_request_id a) = Some r" and v: "map_of (cq_offers r) (ra_offer_id a) = Some v"
      and i: "co_release v = Some intent" for r v intent
  proof -
    have kept: "offer_kept v (v\<lparr>co_release := Some (intent\<lparr>ri_Acknowledged := True\<rparr>)\<rparr>)"
      using i by (simp add: offer_kept_def release_kept_def)
    show ?thesis
      by (rule client_good_put_request[OF ok r])
        (use kept v i in \<open>auto intro: request_kept_put_offer request_ok_update_offer[OF client_okD(4)[OF ok r] v]\<close>)
  qed
  then show ?thesis using ok by (auto simp: handleReleaseAckLocked_def intro!: client_good_refl split: option.split)
qed

lemma client_good_new_offer:
  assumes ok: "client_ok c" and r: "map_of (cl_requests c) k = Some r" and new: "map_of (cq_offers r) j = None"
    and w: "of_offer_id (co_offer w) = j" "of_request_id (co_offer w) = k" "co_release w = None \<longleftrightarrow> cq_executionID r = []"
  shows "client_good c (c\<lparr>cl_requests := map_put k (r\<lparr>cq_offers := map_put j w (cq_offers r)\<rparr>) (cl_requests c)\<rparr>)"
proof (rule client_good_put_request[OF ok r])
  show "request_ok (map_of (cl_executions c)) k (r\<lparr>cq_offers := map_put j w (cq_offers r)\<rparr>)"
    using request_ok_new_offer[OF client_okD(4)[OF ok r] new w] .
  show "request_kept r (r\<lparr>cq_offers := map_put j w (cq_offers r)\<rparr>)"
    by (rule request_kept_put_offer) (simp add: new)
qed simp

lemma handleOfferLocked_good:
  assumes ok: "client_ok c"
  shows "\<exists>d result. handleOfferLocked W mid now now2 e v c = Some (d, result) \<and> client_good c d"
proof (cases "map_of (cl_requests c) (of_request_id v)")
  case r: (Some r)
  show ?thesis
  proof (cases "catalog_lookup (sender e) (cl_allocators c)")
    case a: (Some a)
    define d where "d = (if of_node v \<noteq> None \<and> \<not> CapabilitiesEqual (ca_Node a) (of_node v)
      then c\<lparr>cl_allocators := catalog_put ((cloneAllocator a)\<lparr>ca_Node := of_node v\<rparr>) (cl_allocators c)\<rparr> else c)"
    have good: "client_good c d" using ok by (simp add: d_def client_good_refl client_good_catalog)
    then have dok: "client_ok d" by (simp add: client_good_def)
    have same: "cl_requests d = cl_requests c" "cl_executions d = cl_executions c" by (simp_all add: d_def)
    have store: "client_good c (d\<lparr>cl_requests := map_put (of_request_id v)
        (r\<lparr>cq_offers := map_put (of_offer_id v) w (cq_offers r)\<rparr>) (cl_requests c)\<rparr>)"
      if "map_of (cq_offers r) (of_offer_id v) = None" "co_offer w = v" "co_release w = None \<longleftrightarrow> cq_executionID r = []" for w
      by (rule client_good_trans[OF good])
        (use client_good_new_offer[OF dok, of "of_request_id v" r "of_offer_id v" w] that r in \<open>simp add: same\<close>)
    have "\<exists>x. map_of (cl_executions c) (cq_executionID r) = Some x" if "cq_executionID r \<noteq> []"
      using client_okD(4)[OF ok r] that by (auto simp: request_ok_def)
    with r a show ?thesis using good store client_good_refl[OF ok]
      unfolding handleOfferLocked_def r a option.case d_def[symmetric] Let_def same
      by (auto split: option.split sum.split)
  qed (use r ok in \<open>auto simp: handleOfferLocked_def client_good_refl\<close>)
qed (use ok in \<open>auto simp: handleOfferLocked_def client_good_refl\<close>)

definition reacts :: "Client \<Rightarrow> reaction option \<Rightarrow> bool" where
  "reacts c res = (case res of None \<Rightarrow> False | Some p \<Rightarrow> client_good c (fst p))"

lemma reacts_Some [simp]: "reacts c (Some p) = client_good c (fst p)"
  by (simp add: reacts_def)

lemma client_Handle_good:
  assumes ok: "client_ok c"
  shows "reacts c (client_Handle W w e c)"
proof -
  have offer: "reacts c (handleOfferLocked W mid now now2 env v c)" for mid now now2 env v
    using handleOfferLocked_good[OF ok, of W mid now now2 env v] by auto
  show ?thesis
    unfolding client_Handle_def
    by (simp add: offer handleErrorLocked_good[OF ok] handleStateLocked_good[OF ok] handleReleaseAckLocked_good[OF ok]
        handleRenewAckLocked_good[OF ok] client_good_refl[OF ok] split: option.split Envelope_Payload.split)
qed

lemma client_step_good:
  assumes "client_step W c d" "client_ok c"
  shows "client_good c d"
  using assms
proof (induction rule: client_step.induct)
  case (handle w e c d result)
  with client_Handle_good[OF handle(2), of W w e] show ?case by simp
qed (simp_all add: RegisterAllocator_good createRequest_good CreateNextAttempt_good client_Inspect_good client_Cancel_good
    Select_good client_Logs_good Maintain_good RecordLeaseIntent_good RebindLeaseIntent_good)

lemma client_start_ok: "client_start c \<Longrightarrow> client_ok c"
  by (auto simp: client_start_def client_New_def client_ok_def newAllocatorCatalog_def split: if_splits)

interpretation client_run: inductive_invariant client_start "client_step W" client_ok
proof
  show "client_ok c" if "client_start c" for c using that by (rule client_start_ok)
  show "client_ok d" if "client_ok c" "client_step W c d" for c d
    using client_step_good[OF that(2,1)] by (simp add: client_good_def)
qed

lemma client_steps_evolve: "(client_step W)\<^sup>*\<^sup>* c d \<Longrightarrow> client_ok c \<Longrightarrow> client_evolves c d"
proof (induction rule: rtranclp_induct)
  case (step d e)
  from step have "client_ok d" by (blast intro: client_run.steps_inv)
  with step show ?case using client_step_good by (auto simp: client_good_def intro: client_evolves_trans)
qed simp

lemma Select_total:
  assumes ok: "client_ok c"
  shows "Select W ids clock q c \<noteq> None"
proof (cases "map_of (cl_requests c) q")
  case (Some r)
  show ?thesis
  proof (cases "cq_executionID r = []")
    case False
    with client_okD(4)[OF ok Some] obtain x where "map_of (cl_executions c) (cq_executionID r) = Some x"
      by (auto simp: request_ok_def)
    with Some False show ?thesis by (simp add: Select_def)
  next
    case True
    with Some show ?thesis by (simp add: Select_def Let_def split: option.split sum.split)
  qed
qed (simp add: Select_def)

end
