(* ===== verification/Client_Guarantees.thy ===== *)
theory Client_Guarantees
  imports Client_Inv
begin

text \<open>
  What the client core guarantees to the run that drives it: one execution per request, the best live offer
  selected and every other one released, commands that are the same whenever they are sent again, observed states
  that never go back, no influence of one allocator on the executions of another, and the rhythm of lease renewals.
  The example run at the start serves the witnesses.
\<close>

section \<open>An example run\<close>

definition demo_node :: NodeCapabilities where
  "demo_node = \<lparr>nc_os = ''linux'', nc_arch = ''amd64'', nc_runtime = ''containerd'', nc_resource_profiles = [],
     nc_devices = [], nc_labels = [], nc_cached_images = [''img'']\<rparr>"

definition demo_allocator :: "byte \<Rightarrow> 8 word \<Rightarrow> CandidateAllocator" where
  "demo_allocator b h = \<lparr>ca_Identity = [b], ca_Destination = ''dest'', ca_Hops = h,
     ca_Capacity = Some [(''small'', 1)], ca_Node = None, ca_TunnelHost = [], ca_TunnelPort = 0, ca_TunnelDestination = []\<rparr>"

definition demo_offer :: "byte \<Rightarrow> string \<Rightarrow> Envelope" where
  "demo_offer b i = \<lparr>message_id = ''r'' @ i, sender = [b], correlation_id = ''m1'', sent_at = Some (ts_New pb_doc 5),
     payload = Some (Envelope_ExecutionOffer (Some \<lparr>of_offer_id = i, of_request_id = ''q1'', of_resource_class = ''small'',
       of_expires_at = Some (ts_New pb_doc 1000), of_node = Some demo_node\<rparr>))\<rparr>"

definition demo_state :: "byte \<Rightarrow> ExecutionPhase \<Rightarrow> 64 word \<Rightarrow> Envelope" where
  "demo_state b p n = \<lparr>message_id = ''s'', sender = [b], correlation_id = [], sent_at = Some (ts_New pb_doc 20),
     payload = Some (Envelope_ExecutionState (Some \<lparr>st_execution_id = ''x1'', st_phase = p,
       st_occurred_at = Some (ts_New pb_doc 20), st_detail = [], st_exit_code = None, st_revision = n\<rparr>))\<rparr>"

definition demo_ids :: "nat \<Rightarrow> string" where
  "demo_ids n = (if n = 0 then ''x1'' else if n = 1 then ''a1'' else ''l1'')"

definition demo_cw :: client_world where
  "demo_cw = \<lparr>cw_now = 10, cw_now2 = 10, cw_id = ''w1''\<rparr>"

definition demo_c1 :: Client where
  "demo_c1 = (case client_New [1] of Inr c \<Rightarrow>
     fst (RegisterAllocator (demo_allocator 7 1) (fst (RegisterAllocator (demo_allocator 9 2) c))))"

definition demo_request1 :: ExecutionRequest where
  "demo_request1 = \<lparr>rq_request_id = ''q1'', rq_workload = Some \<lparr>wl_image = ''img'', wl_command = [], wl_args = [],
     wl_environment = [], wl_working_directory = []\<rparr>, rq_policy = Some ExecutionPolicy, rq_resource_class = ''small'',
     rq_constraints = None, rq_run_id = ''00112233445566778899aabbccddeeff'', rq_attempt = 1\<rparr>"

definition demo_c2 :: Client where
  "demo_c2 = demo_c1\<lparr>cl_requests := [(''q1'', \<lparr>cq_request = demo_request1, cq_messageID = ''m1'', cq_createdAt = 1,
     cq_offers = [], cq_executionID = []\<rparr>)]\<rparr>"

definition demo_held :: "byte \<Rightarrow> string \<Rightarrow> client_offerRecord" where
  "demo_held b i = \<lparr>co_offer = \<lparr>of_offer_id = i, of_request_id = ''q1'', of_resource_class = ''small'',
       of_expires_at = Some (ts_New pb_doc 1000), of_node = Some demo_node\<rparr>,
     co_allocatorID = [b], co_receivedAt = 10, co_release = None\<rparr>"

definition demo_known :: allocatorCatalog where
  "demo_known = [(''09'', (demo_allocator 9 2)\<lparr>ca_Node := Some demo_node\<rparr>), (''07'', (demo_allocator 7 1)\<lparr>ca_Node := Some demo_node\<rparr>)]"

definition demo_c3 :: Client where
  "demo_c3 = demo_c2\<lparr>cl_allocators := demo_known, cl_requests := [(''q1'', \<lparr>cq_request = demo_request1, cq_messageID = ''m1'',
     cq_createdAt = 1, cq_offers = [(''o9'', demo_held 9 ''o9''), (''o7'', demo_held 7 ''o7'')], cq_executionID = []\<rparr>)]\<rparr>"

definition demo_c4 :: Client where
  "demo_c4 = demo_c3\<lparr>cl_requests := [(''q1'', \<lparr>cq_request = demo_request1, cq_messageID = ''m1'', cq_createdAt = 1,
       cq_offers = [(''o9'', (demo_held 9 ''o9'')\<lparr>co_release := Some \<lparr>ri_MessageID = ''l1'', ri_SentAt = 12,
         ri_Destination = ''dest'', ri_Acknowledged = False\<rparr>\<rparr>), (''o7'', demo_held 7 ''o7'')], cq_executionID = ''x1''\<rparr>)],
     cl_executions := [(''x1'', selected_execution ''x1'' ''q1'' ''a1'' 12 (demo_held 7 ''o7'') (demo_allocator 7 1))]\<rparr>"

definition demo_c5 :: Client where
  "demo_c5 = put_execution ''x1'' ((selected_execution ''x1'' ''q1'' ''a1'' 12 (demo_held 7 ''o7'') (demo_allocator 7 1))
     \<lparr>cx_state := Some \<lparr>st_execution_id = ''x1'', st_phase = EXECUTION_PHASE_RUNNING,
       st_occurred_at = Some (ts_New pb_doc 20), st_detail = [], st_exit_code = None, st_revision = 2\<rparr>\<rparr>) demo_c4"

lemma client_run_handle:
  "reach client_start (client_step W) c \<Longrightarrow> reach client_start (client_step W) (fst (the (client_Handle W w e c)))"
proof -
  assume r: "reach client_start (client_step W) c"
  from client_Handle_good[OF client_run.reach_inv[OF r], of W w e] obtain p where p: "client_Handle W w e c = Some p"
    by (auto simp: reacts_def split: option.splits)
  show ?thesis using r p by (auto intro!: reach_step[OF r] client_step.handle[of W w e c "fst p" "snd p"])
qed

lemma client_run_select:
  "reach client_start (client_step W) c \<Longrightarrow> reach client_start (client_step W) (fst (the (Select W ids clock q c)))"
proof -
  assume r: "reach client_start (client_step W) c"
  from Select_total[OF client_run.reach_inv[OF r], of W ids clock q] obtain p where p: "Select W ids clock q c = Some p"
    by auto
  show ?thesis using r p by (auto intro!: reach_step[OF r] client_step.select[of W ids clock q c "fst p" "snd p"])
qed

lemma demo_c1_reach: "reach client_start (client_step pb_doc) demo_c1"
proof -
  obtain c where c: "client_New [1] = Inr c" by (simp add: client_New_def)
  then have "reach client_start (client_step pb_doc) c" by (intro reach_start) (auto simp: client_start_def)
  from reach_step[OF reach_step[OF this client_step.register] client_step.register] show ?thesis
    by (simp add: demo_c1_def c)
qed

lemma demo_creates: "fst (createRequest pb_doc ''q1'' ''m1'' 1 (rq_workload demo_request1) (Some ExecutionPolicy)
    ''small'' None ''00112233445566778899aabbccddeeff'' 1 demo_c1) = demo_c2"
  by code_simp

lemma demo_offers:
  "client_Handle pb_doc demo_cw (Some (demo_offer 7 ''o7''))
     (fst (the (client_Handle pb_doc demo_cw (Some (demo_offer 9 ''o9'')) demo_c2))) = Some (demo_c3, None)"
  by code_simp

lemma demo_selects:
  "Select pb_doc demo_ids (\<lambda>n. 12) ''q1'' demo_c3 = Some (demo_c4, Inr (''dest'', assignmentEnvelopeLocked pb_doc demo_c4
     (selected_execution ''x1'' ''q1'' ''a1'' 12 (demo_held 7 ''o7'') (demo_allocator 7 1))))"
  by code_simp

lemma demo_observes:
  "client_Handle pb_doc demo_cw (Some (demo_state 7 EXECUTION_PHASE_RUNNING 2)) demo_c4 = Some (demo_c5, None)"
  by code_simp

lemma demo_c2_reach: "reach client_start (client_step pb_doc) demo_c2"
  unfolding demo_creates[symmetric] by (rule reach_step[OF demo_c1_reach client_step.create])

lemma demo_c3_reach: "reach client_start (client_step pb_doc) demo_c3"
  using client_run_handle[OF client_run_handle[OF demo_c2_reach], of demo_cw "Some (demo_offer 7 ''o7'')" demo_cw "Some (demo_offer 9 ''o9'')"]
  by (simp add: demo_offers)

lemma demo_c4_reach: "reach client_start (client_step pb_doc) demo_c4"
  by (rule reach_step[OF demo_c3_reach client_step.select[OF demo_selects]])

lemma demo_c5_step: "client_step pb_doc demo_c4 demo_c5"
  by (rule client_step.handle[OF demo_observes])

lemma demo_c5_reach: "reach client_start (client_step pb_doc) demo_c5"
  by (rule reach_step[OF demo_c4_reach demo_c5_step])

lemmas demo_client_defs = demo_c5_def demo_c4_def demo_c3_def demo_c2_def demo_held_def selected_execution_def

section \<open>One execution per request\<close>

text \<open>C9: in every reachable state of the client a request that was assigned has exactly one execution, which stays
  on record, and among its offers exactly the one the execution was assigned has no release intent: the client never
  releases its selection and gives back everything else.\<close>

theorem client_one_execution:
  assumes "reach client_start (client_step W) c" and "map_of (cl_requests c) k = Some r" and "cq_executionID r \<noteq> []"
  shows "\<exists>x. map_of (cl_executions c) (cq_executionID r) = Some x \<and> cx_requestID x = k
    \<and> (\<forall>i y. map_of (cl_executions c) i = Some y \<and> cx_requestID y = k \<longrightarrow> i = cq_executionID r)
    \<and> (\<forall>j v. map_of (cq_offers r) j = Some v \<longrightarrow> (co_release v = None \<longleftrightarrow> j = cx_offerID x))"
proof -
  have ok: "client_ok c" by (rule client_run.reach_inv[OF assms(1)])
  from client_okD(4)[OF ok assms(2)] assms(3) obtain x where x: "map_of (cl_executions c) (cq_executionID r) = Some x"
    "cx_requestID x = k" "\<forall>j v. map_of (cq_offers r) j = Some v \<longrightarrow> (co_release v = None \<longleftrightarrow> j = cx_offerID x)"
    by (auto simp: request_ok_def)
  moreover have "i = cq_executionID r" if "map_of (cl_executions c) i = Some y" "cx_requestID y = k" for i y
    using client_okD(5)[OF ok that(1)] that(2) assms(2) by (simp add: execution_ok_def)
  ultimately show ?thesis by blast
qed

theorem client_one_execution_witness:
  "\<exists>x. map_of (cl_executions demo_c4) ''x1'' = Some x \<and> cx_requestID x = ''q1''
    \<and> (\<forall>i y. map_of (cl_executions demo_c4) i = Some y \<and> cx_requestID y = ''q1'' \<longrightarrow> i = ''x1'')"
proof -
  obtain r where r: "map_of (cl_requests demo_c4) ''q1'' = Some r" "cq_executionID r = ''x1''"
    by (simp add: demo_c4_def)
  then show ?thesis using client_one_execution[OF demo_c4_reach r(1)] by auto
qed

text \<open>C22: the client never dereferences a missing record: in a reachable state every received envelope is handled
  and every selection returns.\<close>

theorem client_never_panics:
  assumes "reach client_start (client_step W) c"
  shows "(\<exists>d res. client_Handle W w e c = Some (d, res)) \<and> (\<exists>d res. Select W ids clock q c = Some (d, res))"
proof -
  have ok: "client_ok c" by (rule client_run.reach_inv[OF assms])
  have "client_Handle W w e c \<noteq> None" using client_Handle_good[OF ok, of W w e] by (auto simp: reacts_def split: option.splits)
  then show ?thesis using Select_total[OF ok, of W ids clock q] by auto
qed

theorem client_never_panics_witness:
  "\<exists>d res. Select pb_doc demo_ids (\<lambda>n. 12) ''q1'' demo_c4 = Some (d, res)"
  using client_never_panics[OF demo_c4_reach] by blast

section \<open>Commands that are sent again\<close>

lemma RequestEnvelope_stable:
  assumes "client_evolves c d" "RequestEnvelope W k c = Some e"
  shows "RequestEnvelope W k d = Some e"
proof -
  from assms(2) obtain r where r: "map_of (cl_requests c) k = Some r"
    "e = requestEnvelopeLocked W c (cq_request r) (cq_messageID r) (cq_createdAt r)"
    by (auto simp: RequestEnvelope_def split: option.splits)
  from client_evolvesD(2)[OF assms(1) r(1)] obtain s where "map_of (cl_requests d) k = Some s" "request_kept r s" by blast
  then show ?thesis using r client_evolvesD(1)[OF assms(1)]
    by (simp add: RequestEnvelope_def request_kept_def requestEnvelopeLocked_def)
qed

text \<open>The command a request is assigned with, when it is assigned.\<close>

definition assigned_command :: "pblib \<Rightarrow> string \<Rightarrow> Client \<Rightarrow> outgoing option" where
  "assigned_command W k c = (case map_of (cl_requests c) k of None \<Rightarrow> None | Some r \<Rightarrow>
     if cq_executionID r = [] then None
     else map_option (\<lambda>x. (cx_destination x, assignmentEnvelopeLocked W c x)) (map_of (cl_executions c) (cq_executionID r)))"

lemma Select_assigned: "assigned_command W k c = Some cmd \<Longrightarrow> Select W ids clock k c = Some (c, Inr cmd)"
  by (auto simp: assigned_command_def Select_def split: option.splits if_splits)

lemma Select_assigns: "Select W ids clock k c = Some (d, Inr cmd) \<Longrightarrow> assigned_command W k d = Some cmd"
  by (auto simp: assigned_command_def Select_def Let_def assignmentEnvelopeLocked_def
      split: option.splits if_splits sum.splits prod.splits)

lemma assigned_command_stable:
  assumes "client_evolves c d" "assigned_command W k c = Some cmd"
  shows "assigned_command W k d = Some cmd"
proof -
  from assms(2) obtain r x where r: "map_of (cl_requests c) k = Some r" "cq_executionID r \<noteq> []"
    "map_of (cl_executions c) (cq_executionID r) = Some x" "cmd = (cx_destination x, assignmentEnvelopeLocked W c x)"
    by (auto simp: assigned_command_def split: option.splits if_splits)
  from client_evolvesD(2)[OF assms(1) r(1)] obtain s where "map_of (cl_requests d) k = Some s" "request_kept r s" by blast
  moreover from client_evolvesD(3)[OF assms(1) r(3)] obtain y where
    "map_of (cl_executions d) (cq_executionID r) = Some y" "same_binding x y" by blast
  ultimately show ?thesis using r client_evolvesD(1)[OF assms(1)]
    by (simp add: assigned_command_def request_kept_def same_binding_def assignmentEnvelopeLocked_def)
qed

text \<open>C10: commands are stable under everything the client may do afterwards.  The request envelope that is sent to a
  late allocator, or sent again, is the one that was created, and selecting again gives the assignment of the first
  selection, whatever identifiers and times the later call would draw: a retransmission is a duplicate that the
  allocator's replay cache recognises, never a second command.\<close>

theorem client_commands_stable:
  assumes "reach client_start (client_step W) c" and "Select W ids clock k c = Some (d, Inr cmd)"
    and "(client_step W)\<^sup>*\<^sup>* d f"
  shows "Select W ids2 clock2 k f = Some (f, Inr cmd)
    \<and> (RequestEnvelope W j d = Some e \<longrightarrow> RequestEnvelope W j f = Some e)"
proof -
  have "client_ok c" by (rule client_run.reach_inv[OF assms(1)])
  from Select_good[OF this assms(2)] have "client_ok d" by (simp add: client_good_def)
  then have "client_evolves d f" by (rule client_steps_evolve[OF assms(3)])
  then show ?thesis
    using Select_assigned assigned_command_stable Select_assigns[OF assms(2)] RequestEnvelope_stable by blast
qed

theorem client_commands_stable_witness:
  "\<exists>cmd. Select pb_doc demo_ids (\<lambda>n. 12) ''q1'' demo_c3 = Some (demo_c4, Inr cmd)
     \<and> Select pb_doc (\<lambda>n. ''other'') (\<lambda>n. 99) ''q1'' demo_c5 = Some (demo_c5, Inr cmd)"
  using client_commands_stable[OF demo_c3_reach demo_selects r_into_rtranclp[of "client_step pb_doc", OF demo_c5_step]]
    demo_selects by blast

section \<open>Selection\<close>

text \<open>C18: a fresh selection assigns the best usable offer.  The assignment names an offer of the request from a known
  allocator, not expired and matching the placement constraints, and no usable offer of the request ranks before it by
  hops, cached image, identity and offer identifier; when the selection finds no offer, none is usable.\<close>

theorem select_best:
  assumes "map_of (cl_requests c) k = Some r" and "cq_executionID r = []"
  shows "(Select W ids clock k c = Some (d, Inr (dest, e)) \<longrightarrow>
      (\<exists>j v a. (j, v) \<in> set (cq_offers r) \<and> usable_offer W (cl_allocators c) (clock 0) (rq_constraints (cq_request r)) v
        \<and> catalog_lookup (co_allocatorID v) (cl_allocators c) = Some a \<and> dest = ca_Destination a
        \<and> payload e = Some (Envelope_ExecutionAssign (Some
            \<lparr>as_request_id = k, as_offer_id = of_offer_id (co_offer v), as_execution_id = ids 0\<rparr>))
        \<and> (\<forall>(i, w)\<in>set (cq_offers r). usable_offer W (cl_allocators c) (clock 0) (rq_constraints (cq_request r)) w
            \<longrightarrow> offer_rank (cl_allocators c) (request_image (cq_request r)) v
                \<le> offer_rank (cl_allocators c) (request_image (cq_request r)) w)))
    \<and> (Select W ids clock k c = Some (d, Inl ClientNoOffer) \<longrightarrow>
      (\<forall>(i, w)\<in>set (cq_offers r). \<not> usable_offer W (cl_allocators c) (clock 0) (rq_constraints (cq_request r)) w))"
proof (cases "chooseWithPreferences W (cl_allocators c) (cq_offers r) (clock 0) (rq_constraints (cq_request r))
    (request_image (cq_request r))")
  case None
  then have "Select W ids clock k c = Some (c, Inl ClientNoOffer)" using assms by (simp add: Select_def)
  with None show ?thesis unfolding chooseWithPreferences_None by auto
next
  case (Some z)
  obtain j v a where z: "z = ((j, v), a)" by (metis prod.collapse)
  note best = chooseWithPreferences_Some[OF Some[unfolded z]]
  have rel: "prepare_releases cat j ids clock n m \<noteq> Inl ClientNoOffer" for cat n m
    by (induction cat j ids clock n m rule: prepare_releases.induct)
      (auto simp: newReleaseLocked_def split: sum.splits option.splits if_splits)
  show ?thesis
  proof (intro conjI impI)
    assume "Select W ids clock k c = Some (d, Inr (dest, e))"
    then have "dest = ca_Destination a" "payload e = Some (Envelope_ExecutionAssign (Some
        \<lparr>as_request_id = k, as_offer_id = of_offer_id (co_offer v), as_execution_id = ids 0\<rparr>))"
      using assms Some z by (auto simp: Select_def Let_def selected_execution_def assignmentEnvelopeLocked_def
          uniqueExecutionIDLocked_def split: if_splits sum.splits)
    with best show "\<exists>j v a. (j, v) \<in> set (cq_offers r)
        \<and> usable_offer W (cl_allocators c) (clock 0) (rq_constraints (cq_request r)) v
        \<and> catalog_lookup (co_allocatorID v) (cl_allocators c) = Some a \<and> dest = ca_Destination a
        \<and> payload e = Some (Envelope_ExecutionAssign (Some
            \<lparr>as_request_id = k, as_offer_id = of_offer_id (co_offer v), as_execution_id = ids 0\<rparr>))
        \<and> (\<forall>(i, w)\<in>set (cq_offers r). usable_offer W (cl_allocators c) (clock 0) (rq_constraints (cq_request r)) w
            \<longrightarrow> offer_rank (cl_allocators c) (request_image (cq_request r)) v
                \<le> offer_rank (cl_allocators c) (request_image (cq_request r)) w)" by blast
  next
    assume "Select W ids clock k c = Some (d, Inl ClientNoOffer)"
    with assms Some z rel show "\<forall>(i, w)\<in>set (cq_offers r).
        \<not> usable_offer W (cl_allocators c) (clock 0) (rq_constraints (cq_request r)) w"
      by (auto simp: Select_def Let_def split: if_splits sum.splits)
  qed
qed

theorem select_best_witness:
  "\<exists>d dest e. Select pb_doc demo_ids (\<lambda>n. 12) ''q1'' demo_c3 = Some (d, Inr (dest, e))
    \<and> (\<exists>j v. (j, v) \<in> set [(''o9'', demo_held 9 ''o9''), (''o7'', demo_held 7 ''o7'')] \<and> payload e = Some (Envelope_ExecutionAssign
         (Some \<lparr>as_request_id = ''q1'', as_offer_id = of_offer_id (co_offer v), as_execution_id = ''x1''\<rparr>)))"
proof -
  obtain r where r: "map_of (cl_requests demo_c3) ''q1'' = Some r" "cq_executionID r = []"
    "cq_offers r = [(''o9'', demo_held 9 ''o9''), (''o7'', demo_held 7 ''o7'')]" by (simp add: demo_c3_def)
  have "demo_ids 0 = ''x1''" by (simp add: demo_ids_def)
  with select_best[OF r(1,2), THEN conjunct1, rule_format, OF demo_selects] demo_selects show ?thesis
    unfolding r(3) by (metis (no_types, lifting))
qed

lemma offer_rank_inject:
  "offer_rank c img v = offer_rank c img w \<Longrightarrow> of_offer_id (co_offer v) = of_offer_id (co_offer w)"
  by (simp add: offer_rank_def)

text \<open>C19: the selection does not depend on the order in which Go ranges over the offers: for any two iteration orders of
  the same map, whose keys are the offer identifiers, the same offer wins.\<close>

theorem choose_order_independent:
  assumes "mset m = mset m'" and "wf_map m" and "\<forall>(j, v)\<in>set m. of_offer_id (co_offer v) = j"
  shows "chooseWithPreferences W c m now k img = chooseWithPreferences W c m' now k img"
proof (cases "chooseWithPreferences W c m now k img")
  case None
  moreover from None mset_eq_setD[OF assms(1)] have "chooseWithPreferences W c m' now k img = None"
    by (simp only: chooseWithPreferences_None)
  ultimately show ?thesis by simp
next
  case (Some z)
  obtain i v a where z: "z = ((i, v), a)" by (metis prod.collapse)
  note p = chooseWithPreferences_Some[OF Some[unfolded z]]
  have "chooseWithPreferences W c m' now k img \<noteq> None"
    unfolding chooseWithPreferences_None using p(1,2) mset_eq_setD[OF assms(1)] by auto
  then obtain j w b where w: "chooseWithPreferences W c m' now k img = Some ((j, w), b)" by (metis not_Some_eq prod.collapse)
  note q = chooseWithPreferences_Some[OF w, folded mset_eq_setD[OF assms(1)]]
  have "offer_rank c img v = offer_rank c img w" using p q by fastforce
  from offer_rank_inject[OF this] bspec[OF assms(3) p(1)] bspec[OF assms(3) q(1)] have "i = j" by simp
  moreover from this have "v = w" using p(1) q(1) assms(2) by (simp add: map_of_in)
  ultimately show ?thesis using Some z w p(3) q(3) by simp
qed

theorem choose_order_independent_witness:
  "fst (fst (the (chooseWithPreferences pb_doc demo_known [(''o7'', demo_held 7 ''o7''), (''o9'', demo_held 9 ''o9'')] 12 None ''img''))) = ''o7''"
proof -
  let ?m = "[(''o9'', demo_held 9 ''o9''), (''o7'', demo_held 7 ''o7'')]"
  have "wf_map ?m" "\<forall>(j, v)\<in>set ?m. of_offer_id (co_offer v) = j" by (simp_all add: demo_held_def)
  with choose_order_independent[of ?m "rev ?m" pb_doc demo_known 12 None "''img''"]
  have "chooseWithPreferences pb_doc demo_known (rev ?m) 12 None ''img''
    = chooseWithPreferences pb_doc demo_known ?m 12 None ''img''" by simp
  moreover have "fst (fst (the (chooseWithPreferences pb_doc demo_known ?m 12 None ''img''))) = ''o7''"
    by code_simp
  ultimately show ?thesis by simp
qed

section \<open>Observed states\<close>

text \<open>What may happen to the observed state of an execution.\<close>

definition observed :: "client_executionRecord \<Rightarrow> client_executionRecord \<Rightarrow> bool" where
  "observed x y = (case cx_state x of None \<Rightarrow> True | Some old \<Rightarrow>
     (\<exists>new. cx_state y = Some new \<and> st_revision old \<le> st_revision new \<and> (Terminal (st_phase old) \<longrightarrow> new = old)))"

definition watches :: "Client \<Rightarrow> Client \<Rightarrow> bool" where
  "watches c d \<longleftrightarrow> (\<forall>i x. map_of (cl_executions c) i = Some x \<longrightarrow>
     (\<exists>y. map_of (cl_executions d) i = Some y \<and> observed x y))"

lemma observed_same: "cx_state y = cx_state x \<Longrightarrow> observed x y"
  by (simp add: observed_def split: option.split)

lemma observed_trans: "observed x y \<Longrightarrow> observed y z \<Longrightarrow> observed x z"
  by (auto simp: observed_def split: option.splits)

lemma watches_same: "cl_executions d = cl_executions c \<Longrightarrow> watches c d"
  by (simp add: watches_def observed_same)

lemma watches_trans:
  assumes "watches b c" "watches c d"
  shows "watches b d"
  unfolding watches_def
proof (intro allI impI)
  fix i x assume "map_of (cl_executions b) i = Some x"
  with assms(1) obtain y where y: "map_of (cl_executions c) i = Some y" "observed x y" unfolding watches_def by blast
  with assms(2) obtain z where "map_of (cl_executions d) i = Some z" "observed y z" unfolding watches_def by blast
  with y(2) show "\<exists>z. map_of (cl_executions d) i = Some z \<and> observed x z" by (blast intro: observed_trans)
qed

lemma watches_put: "map_of (cl_executions c) i = Some x \<Longrightarrow> observed x y \<Longrightarrow> watches c (put_execution i y c)"
  by (auto simp: watches_def observed_same)

lemma stale_state_advances:
  assumes "pb_equal_laws W" "stale_state W old new = None"
  shows "st_revision old \<le> st_revision new \<and> \<not> Terminal (st_phase old)"
proof -
  have eq: "Equal_state W old new \<longleftrightarrow> old = new" using assms(1) by (simp add: pb_equal_laws_def)
  show ?thesis
    using assms(2) unfolding stale_state_def eq Let_def by (cases "old = new") (auto simp: not_less split: if_splits)
qed

lemma observe_advances:
  "pb_equal_laws W \<Longrightarrow> (case cx_state r of None \<Rightarrow> None | Some old \<Rightarrow> stale_state W old s) = None \<Longrightarrow> observed r (observe_state s r)"
  using stale_state_advances[of W _ s] by (auto simp: observed_def observe_state_def Let_def split: option.splits)

lemma handleStateLocked_watches:
  assumes "pb_equal_laws W"
  shows "watches c (fst (handleStateLocked W e s c))"
proof (cases "map_of (cl_executions c) (st_execution_id s)")
  case (Some r)
  show ?thesis
  proof (cases "case cx_state r of None \<Rightarrow> None | Some old \<Rightarrow> stale_state W old s")
    case None
    from watches_put[OF Some observe_advances[OF assms None]] Some None show ?thesis
      by (simp add: handleStateLocked_def watches_same)
  next
    case (Some res)
    with \<open>map_of _ _ = Some r\<close> show ?thesis by (simp add: handleStateLocked_def watches_same)
  qed
qed (simp add: handleStateLocked_def watches_same)

lemma markRenewalFailure_watches: "watches c (markRenewalFailureLocked x code c)"
  by (auto simp: markRenewalFailureLocked_def watches_same intro!: watches_put observed_same split: option.split)

lemma execution_errors_watches: "watches c (fst (execution_errors e code m c authorized))"
proof (induction e code m c authorized rule: execution_errors.induct)
  case (2 e code i r m c authorized)
  let ?d = "if correlation_id e = cx_leaseRenewMessageID r \<or> correlation_id e = cx_inspectMessageID r
    then markRenewalFailureLocked (cx_id r) code c else c"
  have "watches c ?d" by (simp add: markRenewalFailure_watches watches_same)
  with 2 show ?case by (auto intro: watches_trans)
qed (simp add: watches_same)

lemma handleErrorLocked_watches: "watches c (fst (handleErrorLocked e f c))"
  using execution_errors_watches[of c e "ce_code f" "cl_executions c"]
  by (simp add: handleErrorLocked_def Let_def prod.case_eq_if)

lemma handleOfferLocked_executions:
  "handleOfferLocked W mid now now2 e v c = Some p \<Longrightarrow> cl_executions (fst p) = cl_executions c"
  by (auto simp: handleOfferLocked_def Let_def split: option.splits if_splits sum.splits)

lemma handleReleaseAckLocked_executions: "cl_executions (fst (handleReleaseAckLocked e a c)) = cl_executions c"
  by (simp add: handleReleaseAckLocked_def split: option.split)

lemma handleRenewAckLocked_watches: "watches c (fst (handleRenewAckLocked W now e a c))"
  by (auto simp: handleRenewAckLocked_def watches_same intro!: watches_put observed_same split: option.split)

text \<open>A property of the state that every reaction leaves holds of \<open>client_Handle\<close> when it holds of the single handlers.\<close>

definition leaves :: "(Client \<Rightarrow> bool) \<Rightarrow> reaction option \<Rightarrow> bool" where
  "leaves P res = (case res of None \<Rightarrow> True | Some p \<Rightarrow> P (fst p))"

lemma leaves_simps [simp]: "leaves P None" "leaves P (Some p) = P (fst p)"
  by (simp_all add: leaves_def)

lemma client_Handle_leaves:
  assumes "P c" "\<And>f e. e' = Some e \<Longrightarrow> P (fst (handleErrorLocked e f c))"
    "\<And>s e. e' = Some e \<Longrightarrow> P (fst (handleStateLocked W e s c))"
    "\<And>a e. e' = Some e \<Longrightarrow> P (fst (handleReleaseAckLocked e a c))"
    "\<And>now a e. e' = Some e \<Longrightarrow> P (fst (handleRenewAckLocked W now e a c))"
    "\<And>mid now now2 v e. e' = Some e \<Longrightarrow> leaves P (handleOfferLocked W mid now now2 e v c)"
  shows "leaves P (client_Handle W w e' c)"
  unfolding client_Handle_def by (simp add: assms split: option.split Envelope_Payload.split)

lemma client_Handle_watches:
  assumes W: "pb_equal_laws W" and h: "client_Handle W w e c = Some p"
  shows "watches c (fst p)"
proof -
  have "leaves (watches c) (handleOfferLocked W mid now now2 env v c)" for mid now now2 env v
    using handleOfferLocked_executions[of W mid now now2 env v c] by (auto simp: leaves_def intro: watches_same split: option.split)
  then have "leaves (watches c) (client_Handle W w e c)"
    by (intro client_Handle_leaves handleErrorLocked_watches handleStateLocked_watches[OF W] handleRenewAckLocked_watches
        watches_same[OF handleReleaseAckLocked_executions] watches_same[OF refl])
  with h show ?thesis by simp
qed

lemma client_methods_watch:
  "watches c (fst (RegisterAllocator a c))"
  "watches c (fst (createRequest W i mid now workload policy class constraints runID attempt c))"
  "watches c (fst (CreateNextAttempt W i mid now previous c))"
  "watches c (fst (client_Inspect W mid now x c))"
  "watches c (fst (client_Cancel W mid now x reason c))"
  "watches c (fst (client_Logs W mid now x stream offset limit c))"
  "watches c (fst (RecordLeaseIntent x d allocators c))"
  by (auto simp: RegisterAllocator_def CreateNextAttempt_def createRequest_def client_Inspect_def client_Cancel_def
      client_Logs_def RecordLeaseIntent_def Let_def watches_same intro!: watches_put observed_same split: option.split)

lemma Maintain_watches: "watches c (fst (Maintain W mid now x d c))"
proof (cases "map_of (cl_executions c) x")
  case (Some r)
  have "observed r (intend_lease d r)" "observed r (markLeaseLostLocked r)"
    "observed r ((intend_lease d r)\<lparr>cx_leaseRenewMessageID := mid, cx_leaseRenewedAt := now\<rparr>)"
    by (rule observed_same, simp add: intend_lease_def Let_def markLeaseLostLocked_def)+
  note good = this[THEN watches_put[OF Some]]
  show ?thesis
    using good watches_same[of c c] unfolding Maintain_def Some option.case Let_def by simp
qed (simp add: Maintain_def watches_same)

lemma RebindLeaseIntent_watches: "watches c (fst (RebindLeaseIntent old new c))"
proof -
  have "watches c (put_execution new s (put_execution old r c))"
    if "map_of (cl_executions c) old = Some p" "map_of (cl_executions c) new = Some q" "old \<noteq> new"
      "cx_state r = cx_state p" "cx_state s = cx_state q" for p q r s
  proof (rule watches_trans)
    show "watches c (put_execution old r c)" using that by (intro watches_put observed_same)
    show "watches (put_execution old r c) (put_execution new s (put_execution old r c))"
      using that by (intro watches_put[where x = q] observed_same) auto
  qed
  then show ?thesis by (auto simp: RebindLeaseIntent_def watches_same split: option.split)
qed

lemma Select_watches: "Select W ids clock q c = Some (d, res) \<Longrightarrow> watches c d"
  by (auto simp: Select_def Let_def uniqueExecutionIDLocked_def watches_def observed_same
      split: option.splits if_splits sum.splits prod.splits)

lemma client_step_watches:
  assumes "client_step W c d" and W: "pb_equal_laws W"
  shows "watches c d"
  using assms(1)
proof (cases rule: client_step.cases)
  case (handle w e result)
  from client_Handle_watches[OF W handle] show ?thesis by simp
qed (simp_all add: client_methods_watch Maintain_watches RebindLeaseIntent_watches Select_watches)

text \<open>C20: what the client has observed of an execution never goes back.  Along every run the execution stays known, the
  revision of its recorded state never decreases, and a terminal state is final, whatever the allocator sends in which order.\<close>

theorem observed_state_monotone:
  assumes "pb_equal_laws W" and "(client_step W)\<^sup>*\<^sup>* c d" and "map_of (cl_executions c) i = Some x" and "cx_state x = Some old"
  shows "\<exists>y new. map_of (cl_executions d) i = Some y \<and> cx_state y = Some new \<and> st_revision old \<le> st_revision new
    \<and> (Terminal (st_phase old) \<longrightarrow> new = old)"
proof -
  have "watches c d"
    using assms(2)
  proof (induction rule: rtranclp_induct)
    case (step d e)
    then show ?case using client_step_watches[OF step(2) assms(1)] by (blast intro: watches_trans)
  qed (simp add: watches_same)
  then obtain y where "map_of (cl_executions d) i = Some y" "observed x y" using assms(3) unfolding watches_def by blast
  then show ?thesis using assms(4) by (auto simp: observed_def)
qed

theorem observed_state_monotone_witness:
  "\<exists>y new. map_of (cl_executions (fst (RecordLeaseIntent ''x1'' 5 [] demo_c5))) ''x1'' = Some y \<and> cx_state y = Some new
     \<and> 2 \<le> st_revision new"
proof -
  have "(client_step pb_doc)\<^sup>*\<^sup>* demo_c5 (fst (RecordLeaseIntent ''x1'' 5 [] demo_c5))"
    by (rule r_into_rtranclp[of "client_step pb_doc", OF client_step.intent])
  moreover obtain x old where "map_of (cl_executions demo_c5) ''x1'' = Some x" "cx_state x = Some old" "st_revision old = 2"
    by (simp add: demo_client_defs)
  ultimately show ?thesis
    using observed_state_monotone[OF pb_doc_equal_laws, of demo_c5 _ "''x1''" x old] by metis
qed

section \<open>Separation of allocators\<close>

lemma markRenewalFailure_frame:
  "x \<noteq> i \<Longrightarrow> map_of (cl_executions (markRenewalFailureLocked x code c)) i = map_of (cl_executions c) i"
  "cl_requests (markRenewalFailureLocked x code c) = cl_requests c"
  by (simp_all add: markRenewalFailureLocked_def split: option.split)

lemma execution_errors_other:
  "(\<And>k r. (k, r) \<in> set m \<Longrightarrow> error_answers e r \<Longrightarrow> cx_id r \<noteq> i)
     \<Longrightarrow> map_of (cl_executions (fst (execution_errors e code m c authorized))) i = map_of (cl_executions c) i"
proof (induction m arbitrary: c authorized)
  case (Cons kr m)
  obtain k r where kr: "kr = (k, r)" by force
  have IH: "map_of (cl_executions (fst (execution_errors e code m c authorized))) i = map_of (cl_executions c) i" for c authorized
    by (rule Cons.IH) (use Cons.prems in auto)
  have "error_answers e r \<Longrightarrow> cx_id r \<noteq> i" using Cons.prems[of k r] kr by simp
  then show ?case using kr by (simp add: IH markRenewalFailure_frame)
qed simp

lemma execution_errors_requests: "cl_requests (fst (execution_errors e code m c authorized)) = cl_requests c"
  by (induction m arbitrary: c authorized) (auto simp: markRenewalFailure_frame)

lemma handleErrorLocked_other:
  assumes ok: "client_ok c" and i: "map_of (cl_executions c) i = Some x" "cx_allocatorID x \<noteq> sender e"
  shows "map_of (cl_executions (fst (handleErrorLocked e f c))) i = Some x"
proof -
  have "cx_id r \<noteq> i" if "(k, r) \<in> set (cl_executions c)" "error_answers e r" for k r
  proof -
    have k: "map_of (cl_executions c) k = Some r" using that(1) client_okD(3)[OF ok] by (simp add: map_of_in)
    then have "cx_id r = k" using client_okD(5)[OF ok] by (auto simp: execution_ok_def)
    with k i that(2) show ?thesis by (auto simp: error_answers_def)
  qed
  then show ?thesis
    using execution_errors_other[of "cl_executions c" e i "ce_code f" c] i(1)
    by (auto simp: handleErrorLocked_def Let_def prod.case_eq_if)
qed

lemma handleErrorLocked_requests: "cl_requests (fst (handleErrorLocked e f c)) = cl_requests c"
  by (simp add: handleErrorLocked_def Let_def prod.case_eq_if execution_errors_requests)

text \<open>The offer \<open>v\<close> is held under \<open>j\<close> for the request \<open>k\<close>.\<close>

definition holds_offer :: "string \<Rightarrow> string \<Rightarrow> client_offerRecord \<Rightarrow> Client \<Rightarrow> bool" where
  "holds_offer k j v c = (case map_of (cl_requests c) k of None \<Rightarrow> False | Some r \<Rightarrow> map_of (cq_offers r) j = Some v)"

lemma handleReleaseAckLocked_other:
  "holds_offer k j v c \<Longrightarrow> co_allocatorID v \<noteq> sender e \<Longrightarrow> holds_offer k j v (fst (handleReleaseAckLocked e a c))"
  by (auto simp: handleReleaseAckLocked_def holds_offer_def split: option.splits)

lemma handleOfferLocked_other:
  assumes h: "holds_offer k j u c"
  shows "leaves (holds_offer k j u) (handleOfferLocked W mid now now2 e v c)"
proof (cases "map_of (cl_requests c) (of_request_id v)")
  case r: (Some r)
  show ?thesis
  proof (cases "catalog_lookup (sender e) (cl_allocators c)")
    case a: (Some a)
    define d where "d = (if of_node v \<noteq> None \<and> \<not> CapabilitiesEqual (ca_Node a) (of_node v)
      then c\<lparr>cl_allocators := catalog_put ((cloneAllocator a)\<lparr>ca_Node := of_node v\<rparr>) (cl_allocators c)\<rparr> else c)"
    have same: "cl_requests d = cl_requests c" by (simp add: d_def)
    have keep: "holds_offer k j u d" using h by (simp add: holds_offer_def same)
    have store: "holds_offer k j u (d\<lparr>cl_requests := map_put (of_request_id v)
        (r\<lparr>cq_offers := map_put (of_offer_id v) w (cq_offers r)\<rparr>) (cl_requests c)\<rparr>)"
      if "map_of (cq_offers r) (of_offer_id v) = None" for w
      using h r that by (auto simp: holds_offer_def split: option.splits)
    show ?thesis using h keep store
      unfolding handleOfferLocked_def r a option.case d_def[symmetric] Let_def same by (simp split: option.split sum.split)
  qed (use r h in \<open>simp add: handleOfferLocked_def\<close>)
qed (use h in \<open>simp add: handleOfferLocked_def\<close>)

text \<open>C21: one allocator has no influence on what the client holds from another.  Whatever envelope arrives, an execution
  that was assigned to another allocator than its sender and an offer that another allocator made are afterwards
  exactly what they were.\<close>

theorem client_separates_allocators:
  assumes "reach client_start (client_step W) c" and "client_Handle W w (Some e) c = Some (d, res)"
  shows "(map_of (cl_executions c) i = Some x \<and> cx_allocatorID x \<noteq> sender e \<longrightarrow> map_of (cl_executions d) i = Some x)
    \<and> (holds_offer k j v c \<and> co_allocatorID v \<noteq> sender e \<longrightarrow> holds_offer k j v d)"
proof (intro conjI impI)
  have ok: "client_ok c" by (rule client_run.reach_inv[OF assms(1)])
  assume x: "map_of (cl_executions c) i = Some x \<and> cx_allocatorID x \<noteq> sender e"
  have "leaves (\<lambda>d. map_of (cl_executions d) i = Some x) (client_Handle W w (Some e) c)"
  proof (rule client_Handle_leaves)
    fix mid now now2 u e'
    show "leaves (\<lambda>d. map_of (cl_executions d) i = Some x) (handleOfferLocked W mid now now2 e' u c)"
      using x handleOfferLocked_executions[of W mid now now2 e' u c] by (auto simp: leaves_def split: option.split)
  qed (use x handleErrorLocked_other[OF ok] in \<open>auto simp: handleReleaseAckLocked_executions handleStateLocked_def
      handleRenewAckLocked_def split: option.splits\<close>)
  with assms(2) show "map_of (cl_executions d) i = Some x" by simp
next
  assume v: "holds_offer k j v c \<and> co_allocatorID v \<noteq> sender e"
  have "leaves (holds_offer k j v) (client_Handle W w (Some e) c)"
  proof (rule client_Handle_leaves)
    fix mid now now2 u e'
    show "leaves (holds_offer k j v) (handleOfferLocked W mid now now2 e' u c)"
      using v by (simp add: handleOfferLocked_other)
  qed (use v handleReleaseAckLocked_other in \<open>auto simp: holds_offer_def handleErrorLocked_requests handleStateLocked_def
      handleRenewAckLocked_def split: option.splits\<close>)
  with assms(2) show "holds_offer k j v d" by simp
qed

theorem client_separates_allocators_witness:
  "\<exists>d res. client_Handle pb_doc demo_cw (Some (demo_state 9 EXECUTION_PHASE_FAILED 3)) demo_c5 = Some (d, res)
     \<and> map_of (cl_executions d) ''x1'' = map_of (cl_executions demo_c5) ''x1''"
proof -
  let ?e = "demo_state 9 EXECUTION_PHASE_FAILED 3"
  from client_Handle_good[OF client_run.reach_inv[OF demo_c5_reach], of pb_doc demo_cw "Some ?e"]
  obtain d res where h: "client_Handle pb_doc demo_cw (Some ?e) demo_c5 = Some (d, res)"
    by (auto simp: reacts_def split: option.splits)
  obtain x where x: "map_of (cl_executions demo_c5) ''x1'' = Some x" "cx_allocatorID x = [7]"
    by (simp add: demo_client_defs)
  moreover have "sender ?e = [9]" by (simp add: demo_state_def)
  ultimately have "map_of (cl_executions d) ''x1'' = Some x"
    using client_separates_allocators[OF demo_c5_reach h, THEN conjunct1, of "''x1''" x] by simp
  with h x show ?thesis by auto
qed

section \<open>Lease intents\<close>

text \<open>Asking for one execution and listing all due renewals agree: in a reachable state \<open>LeaseDue\<close> holds of an
  execution exactly when \<open>DueLeaseRenewals\<close> lists it.\<close>

lemma lease_due_agrees:
  assumes "reach client_start (client_step W) c"
  shows "LeaseDue now i c \<longleftrightarrow> i \<in> set (DueLeaseRenewals now c)"
proof -
  have ok: "client_ok c" by (rule client_run.reach_inv[OF assms])
  have key: "cx_id r = k" if "(k, r) \<in> set (cl_executions c)" for k r
    using that client_okD(3,5)[OF ok] by (auto simp: map_of_in execution_ok_def)
  have "i \<in> set (DueLeaseRenewals now c) \<longleftrightarrow> (\<exists>r. (i, r) \<in> set (cl_executions c) \<and> renewal_due now r)"
    using key by (force simp: DueLeaseRenewals_def)
  also have "\<dots> \<longleftrightarrow> (\<exists>r. map_of (cl_executions c) i = Some r \<and> renewal_due now r)"
    using client_okD(3)[OF ok] by (simp add: map_of_in)
  also have "\<dots> \<longleftrightarrow> LeaseDue now i c"
    by (auto simp: LeaseDue_def renewal_due_def split: option.split)
  finally show ?thesis by simp
qed

text \<open>C23: the rhythm of renewals.  A call of \<open>Maintain\<close> that sends a renewal asks for a positive duration, and from then on
  the execution is due again exactly from one third of that duration on, so two thirds of the lease remain to get
  the next renewal through.\<close>

theorem renewal_rhythm:
  assumes "Maintain W mid now i d c = (c', Inr (dest, Some e, lost))" and "now \<noteq> zero_time"
  shows "\<exists>D > 0. payload e = Some (Envelope_ExecutionLeaseRenew (Some
      \<lparr>rn_execution_id = cx_id (the (map_of (cl_executions c) i)), rn_lease_duration = Some (pd_New W D)\<rparr>))
    \<and> (d > 0 \<longrightarrow> D = d) \<and> (\<forall>t. LeaseDue t i c' \<longleftrightarrow> now + D div 3 \<le> t)"
proof -
  from assms(1) obtain r where r: "map_of (cl_executions c) i = Some r" "\<not> cx_leaseLost r" "\<not> ended r" "mid \<noteq> []"
    by (auto simp: Maintain_def Let_def split: option.splits if_splits)
  define D where "D = cx_leaseDuration (intend_lease d r)"
  have D: "D > 0" "d > 0 \<longrightarrow> D = d"
    by (simp_all add: D_def intend_lease_def Let_def clientDefaultLease_def DefaultLease_def)
  define r3 where "r3 = (intend_lease d r)\<lparr>cx_leaseRenewMessageID := mid, cx_leaseRenewedAt := now\<rparr>"
  have r3: "cx_leaseDuration r3 = D" "cx_leaseRenewedAt r3 = now" "\<not> cx_leaseLost r3" "\<not> ended r3" "cx_id r3 = cx_id r"
    using r by (simp_all add: r3_def D_def ended_def intend_lease_def Let_def)
  have "c' = put_execution i r3 c" and e: "payload e = Some (Envelope_ExecutionLeaseRenew (Some
      \<lparr>rn_execution_id = cx_id r3, rn_lease_duration = Some (pd_New W (cx_leaseDuration r3))\<rparr>))"
    using assms(1) r unfolding Maintain_def Let_def r3_def by auto
  then have "LeaseDue t i c' \<longleftrightarrow> now + D div 3 \<le> t" for t
    using r3 D assms(2) by (simp add: LeaseDue_def IsZero_def not_less)
  with e r3 D show ?thesis using r(1) by (intro exI[of _ D]) simp
qed

theorem renewal_rhythm_witness:
  "\<exists>c' dest e. Maintain pb_doc ''m9'' 100 ''x1'' 30 demo_c5 = (c', Inr (dest, Some e, False))
     \<and> LeaseDue 110 ''x1'' c' \<and> \<not> LeaseDue 109 ''x1'' c'"
proof -
  obtain c' dest e where m: "Maintain pb_doc ''m9'' 100 ''x1'' 30 demo_c5 = (c', Inr (dest, Some e, False))"
    by (simp add: Maintain_def demo_client_defs ended_def Terminal_def intend_lease_def Let_def)
  from renewal_rhythm[OF this] obtain D where "D > 0" "(30 :: int) > 0 \<longrightarrow> D = 30"
    "\<forall>t. LeaseDue t ''x1'' c' \<longleftrightarrow> 100 + D div 3 \<le> t" by (auto simp: zero_time_def)
  with m show ?thesis by auto
qed

text \<open>C24: rebinding forgets a loss that was already observed.  When the replacement of a lost execution has itself been
  reported as evicted for its lease before the intent is moved to it, \<open>RebindLeaseIntent\<close> clears its mark, and the
  execution counts as ended although its lease was lost: the run then ends with the eviction instead of requesting again.\<close>

theorem rebind_forgets_loss:
  assumes "map_of (cl_executions c) old = Some p" and "cx_leaseDuration p > 0" and "old \<noteq> new"
    and "map_of (cl_executions c) new = Some q" and "cx_state q = Some s" and "isLostLeaseState s" and "LeaseIntentLost new c"
  shows "\<exists>c'. RebindLeaseIntent old new c = (c', None) \<and> \<not> LeaseIntentLost new c'
    \<and> xs_State (the (client_Execution new c')) = Some s \<and> Terminal (st_phase s)"
  using assms by (auto simp: RebindLeaseIntent_def LeaseIntentLost_def client_Execution_def snapshotExecution_def
      isLostLeaseState_def Terminal_def)

theorem rebind_forgets_loss_witness:
  "\<exists>c c'. LeaseIntentLost ''b'' c \<and> RebindLeaseIntent ''a'' ''b'' c = (c', None) \<and> \<not> LeaseIntentLost ''b'' c'"
proof -
  let ?x = "selected_execution ''a'' ''q'' ''m'' 1 (demo_held 7 ''o'') (demo_allocator 7 1)"
  let ?p = "?x\<lparr>cx_leaseDuration := 5, cx_leaseLost := True\<rparr>"
  let ?s = "\<lparr>st_execution_id = ''b'', st_phase = EXECUTION_PHASE_FAILED, st_occurred_at = None,
    st_detail = LeaseExpiredDetail, st_exit_code = None, st_revision = 3\<rparr>"
  let ?q = "?x\<lparr>cx_id := ''b'', cx_state := Some ?s, cx_leaseLost := True\<rparr>"
  let ?c = "demo_c1\<lparr>cl_executions := [(''a'', ?p), (''b'', ?q)]\<rparr>"
  have "LeaseIntentLost ''b'' ?c" by (simp add: LeaseIntentLost_def)
  moreover have "isLostLeaseState ?s" by (simp add: isLostLeaseState_def)
  ultimately show ?thesis
    using rebind_forgets_loss[of ?c "''a''" ?p "''b''" ?q ?s] by (auto simp: selected_execution_def)
qed

end
