(* ===== verification/Spec2Isabelle.thy ===== *)
theory Spec2Isabelle
  imports Alloc_Properties Client_Guarantees
begin

text \<open>
  Verification of r1s, an execution fabric: clients ask allocators on a mesh network for slots, assign the offers they
  get, and hold the executions with renewable leases.

  \<^bold>\<open>The parts.\<close>  The wire contract (\<open>api/proto\<close>, \<open>internal/protocol\<close>) defines the messages and validates them.  The
  allocator (\<open>internal/allocator\<close>) issues offers against a fixed number of slots per resource class, starts and stops
  workloads through a runtime interface, saves its state as JSON through a store interface before it acts, answers
  redelivered commands from a replay cache, evicts executions whose lease ran out and collects what has been retained long
  enough.  The tunnel registry (\<open>internal/tunnel\<close>) binds a peer key to an execution and hands out one session at a time.
  The client core (\<open>internal/client\<close>) knows allocators from discovery, creates requests, ranks offers, assigns one and
  releases the others, and follows states and leases.  Clients and allocators interact by envelopes only.

  \<^bold>\<open>Conventions.\<close>  A struct is a record, a pointer an option, a map an association list with distinct keys (any order stands
  for an iteration order), a string the list of its bytes, \<open>[]byte\<close> a list of 8-bit words, a fixed-width integer a word,
  a time or duration a number of nanoseconds.  A method is a function from the state it finds under its mutex to the
  state it leaves and its results; clock readings, generated identifiers, the outcome of a save and the answer of the
  runtime are arguments, so the theorems hold for all of them.  Where a method gives up its mutex around a runtime call it
  is split there.  A nil dereference is \<open>None\<close>.  The protobuf library is the parameter \<open>W\<close> (record \<open>pblib\<close> in
  \<open>Wire\<close>); the hypotheses \<open>pb_laws\<close>, \<open>pb_equal_laws\<close> and \<open>pb_time_laws\<close> state its documented behaviour and \<open>pb_doc\<close> is an
  instance.

  \<^bold>\<open>The theories.\<close>
  \<^item> \<open>Prelude\<close>: Go maps, strings, error results.  \<open>Wire\<close>: the messages of \<open>control.pb.go\<close>.  \<open>Sha256\<close>: the hash of the
    standard library.  \<open>Json_Text\<close>: what \<open>encoding/json\<close> makes of a string that is not valid UTF-8.
  \<^item> \<open>Placement\<close>: \<open>protocol/placement.go\<close>.  \<open>Protocol\<close>: every validator of \<open>internal/protocol\<close>.  The lemmas characterise
    what is accepted.
  \<^item> \<open>Errors\<close>: the sentinels, their durable codes and the error responses (\<open>errors.go\<close>, \<open>durable_errors.go\<close>, \<open>feedback.go\<close>).
  \<^item> \<open>Capacity\<close>: \<open>capacity.go\<close>, with the interface of a slot pool as the locale \<open>slot_pool\<close>; the ledger refines a multiset
    of slot holders.  \<open>Replay\<close>: \<open>replay.go\<close>.  \<open>Tunnel_Registry\<close>: \<open>registry.go\<close>, \<open>session.go\<close>, \<open>grants.go\<close>.
  \<^item> \<open>Alloc_State\<close>, \<open>Alloc_Handlers\<close>, \<open>Alloc_Background\<close>, \<open>Alloc_Load\<close>: the records, command handlers, background work and
    the loading of the durable state, file by file.
  \<^item> \<open>Alloc_Invariant\<close>, \<open>Alloc_Safety\<close>, \<open>Alloc_Preserve\<close>, \<open>Alloc_Sweep\<close>: the invariant \<open>alloc_ok\<close> (offers, requests and
    executions agree, the ledger counts exactly the slot holders, the record budget holds) and that every section keeps it.
    \<open>Alloc_Evolve\<close>: what a section may do to an execution.  \<open>Alloc_Restart\<close>: loading a saved state gives it back.
  \<^item> \<open>Alloc_Dispatch\<close>: \<open>Handle\<close> of \<open>dispatch.go\<close> as the machine of the goroutine that runs it.  \<open>Alloc_Workers\<close>: the
    background loop of \<open>cmd/r1sd/daemon.go\<close>.  \<open>Alloc_System\<close>: the process as a transition system whose steps are the
    single sections of all goroutines, with crashes and restarts; the locale \<open>inductive_invariant\<close> is interpreted on it
    and on the client.  \<open>Alloc_Demo\<close>: a concrete run for the witnesses.
  \<^item> \<open>Alloc_Access\<close>, \<open>Alloc_Guarantees\<close>, \<open>Alloc_Properties\<close>: what holds in every reachable state, that is isolation of
    clients, saving before acting, bounded leases, capacity, absence of panics, one run per command, progress, the life cycle
    of executions, restarts and the end of the eviction loop.
  \<^item> \<open>Client_State\<close>, \<open>Client_Inv\<close>, \<open>Client_Guarantees\<close>: the client core, its invariant and what follows: one execution per
    request, stable commands, the best offer selected, states that never go back, separation of allocators, the rhythm
    of renewals.
  \<^item> This theory: a request of the client and the offer of an allocator fit together.

  \<^bold>\<open>Bounds and fuel.\<close>  The loops of the code are structural recursions, or recursions with a termination proof (trimming,
  eviction from the replay cache, JSON strings).  \<open>EvictExpiredLeases\<close> takes the list of what its rounds read; one more
  round than there are live executions is enough (\<open>evict_terminates\<close>).  Times are mathematical integers.

  \<^bold>\<open>Not modelled.\<close>  The client library and the run controller (\<open>client/\<close>), whose goroutines wait on channels, timers and
  discovery; the resending goroutine of \<open>internal/client/delivery.go\<close>; the tunnel broker and pipe and the Yggdrasil
  transport, which copy bytes between connections; the containerd runtime, the bbolt store, the log files, the Reticulum
  transport and the broker socket, which call third-party libraries or the operating system; cluster membership; metrics and
  logging, which only read; the command line programs.  What the allocator and the client rely on of these is an argument.
\<close>

section \<open>The client and the allocator together\<close>

text \<open>What a created request leaves in the client.\<close>

lemma createRequest_Inr:
  assumes "createRequest W gen mid now wl pol cls cons run att c = (c1, Inr (q, e))"
  shows "\<exists>req. q = gen \<and> rq_request_id req = q \<and> rq_resource_class req = cls \<and> e = requestEnvelopeLocked W c req mid now
    \<and> ValidateEnvelope W (Some e) = None \<and> cl_allocators c1 = cl_allocators c
    \<and> map_of (cl_requests c1) q = Some \<lparr>cq_request = req, cq_messageID = mid, cq_createdAt = now, cq_offers = [], cq_executionID = []\<rparr>"
  using assms by (auto simp: createRequest_def Let_def uniqueIDLocked_def split: if_splits option.splits)

text \<open>What a fresh request gets from the allocator.\<close>

lemma handleRequest_fresh:
  assumes "map_of (al_requests a) (authorityKey (sender e) (rq_request_id req)) = None"
    and "handleRequest W now id1 id2 sv e req a = (b, rs, None)"
  shows "\<exists>o1. map_of (al_offers b) id1 = Some o1 \<and> o1 = new_offer W now id1 e req a \<and> id2 \<noteq> []
    \<and> rs = [\<lparr>message_id = id2, sender = al_identity a, correlation_id = message_id e, sent_at = Some (ts_New W now),
            payload = Some (Envelope_ExecutionOffer (Some (or_offer o1)))\<rparr>]"
proof -
  let ?a = "fst (expireOffersLocked W now a)"
  let ?o = "new_offer W now id1 e req ?a"
  have same: "al_identity ?a = al_identity a" "new_offer W now id1 e req ?a = new_offer W now id1 e req a"
    "al_requests ?a = al_requests a"
    by (simp_all add: expireOffersLocked_def new_offer_def split: prod.split)
  have "issueOffer W now id1 id2 sv e req ?a = (b, rs, None)"
    using assms by (simp add: handleRequest_def Let_def same split: option.splits)
  then obtain a2 where a2: "persistLocked sv a2 = (b, None)" "map_of (al_offers a2) id1 = Some ?o" "id2 \<noteq> []"
      "rs = [\<lparr>message_id = id2, sender = al_identity ?a, correlation_id = message_id e, sent_at = Some (ts_New W now),
            payload = Some (Envelope_ExecutionOffer (Some (or_offer ?o)))\<rparr>]"
    by (auto simp: issueOffer_def Let_def offerEnvelopeLocked_def split: if_splits option.splits prod.splits)
  have "al_offers b = al_offers a2" by (rule persist_fields(1)[OF a2(1)])
  then show ?thesis using a2 by (simp add: same)
qed

lemma offer_envelope_valid:
  assumes "pb_laws W" "pb_time_laws W" "zero_time \<le> now" "0 < al_offerTTL a" "now + al_offerTTL a < 253402300800000000000"
    and "\<not> blank id1" "\<not> blank id2" "al_identity a \<noteq> []" "ValidateCapabilities (al_node a) = None"
    and "\<not> blank (rq_request_id req)" "\<not> blank (rq_resource_class req)"
  shows "ValidateEnvelope W (Some \<lparr>message_id = id2, sender = al_identity a, correlation_id = m, sent_at = Some (ts_New W now),
     payload = Some (Envelope_ExecutionOffer (Some (or_offer (new_offer W now id1 e req a))))\<rparr>) = None"
proof -
  have "ts_CheckValid W (ts_New W now) = None" "ts_CheckValid W (ts_New W (now + al_offerTTL a)) = None"
    using assms(2-5) by (simp_all add: pb_time_laws_def)
  moreover have "ts_AsTime W (ts_New W t) = t" for t using assms(1) by (simp add: pb_laws_def)
  ultimately show ?thesis
    using assms(4,6-) by (simp add: ValidateEnvelope_def validTimestamp_def validateOffer_def new_offer_def AsTime_def)
qed

text \<open>C5: the request of a client and the offer of an allocator fit together.  Take the envelope that \<open>createRequest\<close> returns,
  let an allocator that the client knows and that has no record of the request handle it successfully, and give its answer back
  to the client: the answer is one valid envelope, the client accepts it, and afterwards both sides hold the same offer, the
  allocator as outstanding for this client and the client as an offer of this allocator.\<close>

theorem request_offer_roundtrip:
  assumes "pb_laws W" "pb_time_laws W"
    and "createRequest W gen mid now wl pol cls cons run att c = (c1, Inr (q, e))"
    and "payload e = Some (Envelope_ExecutionRequest (Some req))"
    and "catalog_lookup (al_identity a) (cl_allocators c) = Some known"
    and "zero_time \<le> now'" "0 < al_offerTTL a" "now' + al_offerTTL a < 253402300800000000000"
    and "\<not> blank id1" "\<not> blank id2" "al_identity a \<noteq> []" "ValidateCapabilities (al_node a) = None"
    and "map_of (al_requests a) (authorityKey (sender e) (rq_request_id req)) = None"
    and "handleRequest W now' id1 id2 sv e req a = (b, rs, None)"
  shows "\<exists>o1 r c2 v. rs = [r] \<and> map_of (al_offers b) id1 = Some o1 \<and> or_status o1 = offerOutstanding \<and> or_client o1 = cl_identity c
    \<and> client_Handle W w (Some r) c1 = Some (c2, None) \<and> holds_offer q id1 v c2
    \<and> co_offer v = or_offer o1 \<and> co_allocatorID v = al_identity a \<and> co_release v = None"
proof -
  from createRequest_Inr[OF assms(3)] assms(4) have q: "rq_request_id req = q" "rq_resource_class req = cls" "message_id e = mid"
      "sender e = cl_identity c" "ValidateEnvelope W (Some e) = None" "cl_allocators c1 = cl_allocators c"
      "map_of (cl_requests c1) q = Some \<lparr>cq_request = req, cq_messageID = mid, cq_createdAt = now, cq_offers = [], cq_executionID = []\<rparr>"
    by (auto simp: requestEnvelopeLocked_def)
  have texts: "\<not> blank (rq_request_id req)" "\<not> blank (rq_resource_class req)"
    using q(5) assms(4) by (auto simp: ValidateEnvelope_def validateRequest_def split: if_splits)
  let ?o = "new_offer W now' id1 e req a"
  let ?r = "\<lparr>message_id = id2, sender = al_identity a, correlation_id = message_id e, sent_at = Some (ts_New W now'),
            payload = Some (Envelope_ExecutionOffer (Some (or_offer ?o)))\<rparr>"
  from handleRequest_fresh[OF assms(13,14)] have b: "map_of (al_offers b) id1 = Some ?o" "rs = [?r]" by auto
  have valid: "ValidateEnvelope W (Some ?r) = None" by (rule offer_envelope_valid[OF assms(1,2,6-12) texts])
  have "\<exists>c2 v. client_Handle W w (Some ?r) c1 = Some (c2, None) \<and> holds_offer q id1 v c2
      \<and> co_offer v = or_offer ?o \<and> co_allocatorID v = al_identity a \<and> co_release v = None"
    using valid q assms(5) by (simp add: client_Handle_def handleOfferLocked_def new_offer_def holds_offer_def Let_def)
  with b q(4) show ?thesis by (auto simp: new_offer_def)
qed

text \<open>A client that knows the allocator of the demonstration run, and its request.\<close>

definition demo_asker :: Client where
  "demo_asker = fst (RegisterAllocator (demo_allocator 1 1) demo_c1)"

definition demo_wish :: ExecutionRequest where
  "demo_wish = demo_request1\<lparr>rq_resource_class := ''s''\<rparr>"

definition demo_ask :: Envelope where
  "demo_ask = requestEnvelopeLocked pb_doc demo_asker demo_wish ''m1'' 1"

lemma demo_asked:
  "snd (createRequest pb_doc ''q1'' ''m1'' 1 (rq_workload demo_wish) (Some ExecutionPolicy) ''s'' None
     ''00112233445566778899aabbccddeeff'' 1 demo_asker) = Inr (''q1'', demo_ask)"
  by code_simp

lemma demo_ask_served:
  "snd (snd (handleRequest pb_doc 1000 ''o'' ''p'' None demo_ask demo_wish (sy_alloc demo_start))) = None"
  by code_simp

lemma demo_asker_knows: "\<exists>known. catalog_lookup (al_identity (sy_alloc demo_start)) (cl_allocators demo_asker) = Some known"
proof -
  have "catalog_lookup (al_identity (sy_alloc demo_start)) (cl_allocators demo_asker) \<noteq> None" by code_simp
  then show ?thesis by blast
qed

lemma demo_start_fields:
  "al_identity (sy_alloc demo_start) = [1]" "al_node (sy_alloc demo_start) = None" "al_requests (sy_alloc demo_start) = []"
  "al_offerTTL (sy_alloc demo_start) = 30000000000"
  by (simp_all add: demo_start_def boot_def empty_allocator_def demo_config_def defaulted_def defaultOfferTTL_def)

theorem request_offer_roundtrip_witness:
  "\<exists>c1 b r c2 v. fst (createRequest pb_doc ''q1'' ''m1'' 1 (rq_workload demo_wish) (Some ExecutionPolicy) ''s'' None
       ''00112233445566778899aabbccddeeff'' 1 demo_asker) = c1
     \<and> handleRequest pb_doc 1000 ''o'' ''p'' None demo_ask demo_wish (sy_alloc demo_start) = (b, [r], None)
     \<and> client_Handle pb_doc demo_cw (Some r) c1 = Some (c2, None) \<and> holds_offer ''q1'' ''o'' v c2"
proof -
  let ?c = "createRequest pb_doc ''q1'' ''m1'' 1 (rq_workload demo_wish) (Some ExecutionPolicy) ''s'' None
       ''00112233445566778899aabbccddeeff'' 1 demo_asker"
  let ?h = "handleRequest pb_doc 1000 ''o'' ''p'' None demo_ask demo_wish (sy_alloc demo_start)"
  obtain known where known: "catalog_lookup (al_identity (sy_alloc demo_start)) (cl_allocators demo_asker) = Some known"
    using demo_asker_knows by blast
  have c: "?c = (fst ?c, Inr (''q1'', demo_ask))" using demo_asked by (metis prod.collapse)
  have h: "?h = (fst ?h, fst (snd ?h), None)" using demo_ask_served by (metis prod.collapse)
  have e: "payload demo_ask = Some (Envelope_ExecutionRequest (Some demo_wish))"
    by (simp add: demo_ask_def requestEnvelopeLocked_def)
  have ids: "\<not> blank ''o''" "\<not> blank ''p''" by code_simp+
  from request_offer_roundtrip[OF pb_doc_laws pb_doc_time_laws c e known _ _ _ ids _ _ _ h, of demo_cw]
  obtain r c2 v where "fst (snd ?h) = [r]" "client_Handle pb_doc demo_cw (Some r) (fst ?c) = Some (c2, None)"
    "holds_offer ''q1'' ''o'' v c2"
    by (auto simp: demo_start_fields zero_time_def ValidateCapabilities_def)
  with h show ?thesis by metis
qed

end
